(* ===== verification/Prelude.thy ===== *)
theory Prelude
  imports Main "HOL-Library.Word"
begin

text \<open>
  Shared vocabulary of the development: the machine types of the manager, the pieces of the
  C++ standard library that several components use (decimal printing and parsing, character
  classes, searching a text), and the lemma collections that carry the component proofs.

  A \<open>std::string\<close> or \<open>std::string_view\<close> is a list of characters, each one byte. Durations in
  milliseconds and clock readings in nanoseconds are unbounded integers: the configuration
  bounds every duration by a day and a 64-bit nanosecond clock lasts 292 years, so no time
  computation of the program wraps. Integers whose width matters are words.
\<close>

section \<open>Machine types\<close>

type_synonym byte = "8 word"
type_synonym bytes = "byte list"

text \<open>An IEEE 754 double is the 64 bits that represent it.\<close>
type_synonym double = "64 word"

type_synonym millis = int
type_synonym nanos = int

definition double_minus_one :: double where
  "double_minus_one = 0xBFF0000000000000"

definition double_zero :: double where
  "double_zero = 0"

definition ns_of_ms :: "millis \<Rightarrow> nanos" where
  "ns_of_ms d = d * 1000000"

definition ns_of_s :: "int \<Rightarrow> nanos" where
  "ns_of_s d = d * 1000000000"

text \<open>Integer division of C++ truncates towards zero.\<close>
definition cdiv :: "int \<Rightarrow> int \<Rightarrow> int" where
  "cdiv a b = sgn a * sgn b * (\<bar>a\<bar> div \<bar>b\<bar>)"

text \<open>\<open>static_cast\<close> to a 32-bit signed integer.\<close>
definition to_int32 :: "int \<Rightarrow> int" where
  "to_int32 x = sint (word_of_int x :: 32 word)"

named_theorems svc_defs \<open>definitions of the service operations\<close>
named_theorems inv_intros \<open>introduction rules of invariants\<close>
named_theorems frame_simps \<open>what an operation leaves unchanged\<close>

lemma cdiv_nonneg [simp]: "0 \<le> a \<Longrightarrow> 0 < b \<Longrightarrow> cdiv a b = a div b"
  by (cases "a = 0") (auto simp: cdiv_def)

lemma to_int32_id:
  assumes "- (2 ^ 31) \<le> x" and "x < 2 ^ 31"
  shows "to_int32 x = x"
  using assms unfolding to_int32_def
  by (simp add: sint_sbintrunc' signed_take_bit_int_eq_self)

lemma ns_of_ms_mono [simp]: "ns_of_ms a \<le> ns_of_ms b \<longleftrightarrow> a \<le> b"
  by (simp add: ns_of_ms_def)

lemma ns_of_ms_nonneg [simp]: "0 \<le> ns_of_ms a \<longleftrightarrow> 0 \<le> a"
  by (simp add: ns_of_ms_def)

section \<open>Decimal numbers\<close>

definition char_code :: "char \<Rightarrow> nat" where
  "char_code c = of_char c"

definition is_digit :: "char \<Rightarrow> bool" where
  "is_digit c \<longleftrightarrow> 48 \<le> char_code c \<and> char_code c \<le> 57"

definition digit_char :: "nat \<Rightarrow> char" where
  "digit_char d = char_of (48 + d)"

definition digit_val :: "char \<Rightarrow> nat" where
  "digit_val c = char_code c - 48"

fun digits10 :: "nat \<Rightarrow> string" where
  "digits10 n = (if n < 10 then [digit_char n] else digits10 (n div 10) @ [digit_char (n mod 10)])"

declare digits10.simps [simp del]

text \<open>\<open>std::to_string\<close>.\<close>
definition to_string :: "int \<Rightarrow> string" where
  "to_string i = (if i < 0 then CHR ''-'' # digits10 (nat (- i)) else digits10 (nat i))"

definition undigits :: "string \<Rightarrow> nat" where
  "undigits ds = foldl (\<lambda>v c. v * 10 + digit_val c) 0 ds"

lemma char_code_digit_char [simp]: "d < 10 \<Longrightarrow> char_code (digit_char d) = 48 + d"
  by (simp add: char_code_def digit_char_def)

lemma is_digit_digit_char [simp]: "d < 10 \<Longrightarrow> is_digit (digit_char d)"
  by (simp add: is_digit_def)

lemma digit_val_digit_char [simp]: "d < 10 \<Longrightarrow> digit_val (digit_char d) = d"
  by (simp add: digit_val_def)

lemma digits10_not_Nil [simp]: "digits10 n \<noteq> []"
  by (subst digits10.simps) simp

lemma digits10_digits: "c \<in> set (digits10 n) \<Longrightarrow> is_digit c"
proof (induction n rule: digits10.induct)
  case (1 n)
  then show ?case
    by (subst (asm) digits10.simps) (auto split: if_splits)
qed

lemma undigits_digits10 [simp]: "undigits (digits10 n) = n"
proof (induction n rule: digits10.induct)
  case (1 n)
  show ?case
  proof (cases "n < 10")
    case True
    then show ?thesis by (subst digits10.simps) (simp add: undigits_def)
  next
    case False
    with 1 have "undigits (digits10 (n div 10)) = n div 10" by simp
    with False show ?thesis
      by (subst digits10.simps) (simp add: undigits_def)
  qed
qed

text \<open>
  \<open>std::from_chars\<close> in base ten: the longest run of digits after an optional minus sign (only
  for signed types); the result is the value with the rest of the text, or an error code.
\<close>

datatype errc = InvalidArgument | ResultOutOfRange

definition from_chars_signed :: "int \<Rightarrow> int \<Rightarrow> string \<Rightarrow> (errc + int) \<times> string" where
  "from_chars_signed lo hi s =
     (let neg = (s \<noteq> [] \<and> hd s = CHR ''-'');
          body = (if neg then tl s else s);
          ds = takeWhile is_digit body;
          rest = dropWhile is_digit body;
          v = (if neg then - int (undigits ds) else int (undigits ds))
      in if ds = [] then (Inl InvalidArgument, s)
         else if lo \<le> v \<and> v \<le> hi then (Inr v, rest)
         else (Inl ResultOutOfRange, rest))"

definition from_chars_unsigned :: "int \<Rightarrow> string \<Rightarrow> (errc + int) \<times> string" where
  "from_chars_unsigned hi s =
     (let ds = takeWhile is_digit s; rest = dropWhile is_digit s; v = int (undigits ds)
      in if ds = [] then (Inl InvalidArgument, s)
         else if v \<le> hi then (Inr v, rest)
         else (Inl ResultOutOfRange, rest))"

definition int64_min :: int where "int64_min = - (2 ^ 63)"
definition int64_max :: int where "int64_max = 2 ^ 63 - 1"
definition uint64_max :: int where "uint64_max = 2 ^ 64 - 1"

lemma ball_digits10 [simp]: "\<forall>c\<in>set (digits10 n). is_digit c"
  by (simp add: digits10_digits)

lemma takeWhile_all_digits [simp]: "takeWhile is_digit (digits10 n) = digits10 n"
  by (simp add: takeWhile_eq_all_conv)

lemma minus_not_digit [simp]: "\<not> is_digit (CHR ''-'')"
  by (simp add: is_digit_def char_code_def)

lemma hd_digits10_not_minus [simp]: "hd (digits10 n) \<noteq> CHR ''-''"
  using digits10_digits [of "hd (digits10 n)" n] by (cases "digits10 n") auto

lemma from_chars_signed_to_string:
  assumes "lo \<le> i" and "i \<le> hi"
  shows "from_chars_signed lo hi (to_string i) = (Inr i, [])"
  using assms by (simp add: from_chars_signed_def to_string_def Let_def)

lemma from_chars_signed_range:
  "from_chars_signed lo hi s = (Inr v, rest) \<Longrightarrow> lo \<le> v \<and> v \<le> hi"
  by (auto simp: from_chars_signed_def Let_def split: if_splits)

lemma from_chars_unsigned_range:
  "from_chars_unsigned hi s = (Inr v, rest) \<Longrightarrow> 0 \<le> v \<and> v \<le> hi"
  by (auto simp: from_chars_unsigned_def Let_def split: if_splits)

section \<open>Bytes and texts\<close>

definition byte_of_char :: "char \<Rightarrow> byte" where
  "byte_of_char c = word_of_nat (of_char c)"

definition char_of_byte :: "byte \<Rightarrow> char" where
  "char_of_byte b = char_of (unat b)"

definition to_bytes :: "string \<Rightarrow> bytes" where
  "to_bytes = map byte_of_char"

definition of_bytes :: "bytes \<Rightarrow> string" where
  "of_bytes = map char_of_byte"

lemma char_of_byte_of_char [simp]: "char_of_byte (byte_of_char c) = c"
  by (simp add: char_of_byte_def byte_of_char_def unat_of_nat)

lemma byte_of_char_of_byte [simp]: "byte_of_char (char_of_byte b) = b"
proof -
  have "unat b mod 256 = unat b" using unsigned_less [of b, where 'a = nat] by simp
  then show ?thesis by (simp add: char_of_byte_def byte_of_char_def)
qed

lemma of_bytes_to_bytes [simp]: "of_bytes (to_bytes s) = s"
  by (simp add: of_bytes_def to_bytes_def comp_def)

lemma to_bytes_of_bytes [simp]: "to_bytes (of_bytes b) = b"
  by (simp add: of_bytes_def to_bytes_def comp_def)

lemma length_to_bytes [simp]: "length (to_bytes s) = length s"
  by (simp add: to_bytes_def)

lemma length_of_bytes [simp]: "length (of_bytes b) = length b"
  by (simp add: of_bytes_def)

section \<open>Replacing a slice of a list\<close>

text \<open>Every write into a buffer replaces one slice of it by another of the same length.\<close>

definition blit :: "nat \<Rightarrow> 'a list \<Rightarrow> 'a list \<Rightarrow> 'a list" where
  "blit off xs b = take off b @ xs @ drop (off + length xs) b"

definition chunk :: "nat \<Rightarrow> nat \<Rightarrow> 'a list \<Rightarrow> 'a list" where
  "chunk off n b = take n (drop off b)"

lemma length_blit [simp]: "off + length xs \<le> length b \<Longrightarrow> length (blit off xs b) = length b"
  by (simp add: blit_def)

lemma length_chunk [simp]: "off + n \<le> length b \<Longrightarrow> length (chunk off n b) = n"
  by (simp add: chunk_def)

lemma nth_blit:
  assumes "off + length xs \<le> length b"
  shows "blit off xs b ! i =
    (if i < off then b ! i else if i < off + length xs then xs ! (i - off) else b ! i)"
  using assms by (auto simp: blit_def nth_append)

lemma nth_chunk: "off + n \<le> length b \<Longrightarrow> i < n \<Longrightarrow> chunk off n b ! i = b ! (off + i)"
  by (simp add: chunk_def)

lemma chunk_blit_same:
  "off + length xs \<le> length b \<Longrightarrow> n = length xs \<Longrightarrow> chunk off n (blit off xs b) = xs"
  by (simp add: blit_def chunk_def)

lemma chunk_blit_other:
  assumes "off' + length xs \<le> length b" and "off + n \<le> length b"
    and "off + n \<le> off' \<or> off' + length xs \<le> off"
  shows "chunk off n (blit off' xs b) = chunk off n b"
  using assms by (intro nth_equalityI) (auto simp: nth_chunk nth_blit)

lemma chunk_chunk:
  "i + n \<le> m \<Longrightarrow> chunk i n (chunk off m b) = chunk (off + i) n b"
  by (simp add: chunk_def drop_take min_def add.commute)

lemma chunk_full [simp]: "chunk 0 (length b) b = b"
  by (simp add: chunk_def)

end
