(* ===== verification/Wire.thy ===== *)
theory Wire
  imports Prelude
begin

unbundle bit_operations_syntax

text \<open>
  The little-endian readers and writers of \<open>src/manager/src/WireWriter.cpp\<close> and
  \<open>WireReader.cpp\<close>. A writer is its buffer; a reader is a buffer with the part of it that may
  be read. The lemmas show that every in-bounds write replaces one chunk of the buffer, that
  every in-bounds read looks at one chunk, that reading a chunk returns what was written, and
  that \<open>FitUtf8\<close> never splits a character. The locale \<open>wire_record\<close> lifts this to records of
  fixed width, one after the other.
\<close>

section \<open>WireWriter\<close>

datatype DecodeCode = DC_Ok | BadLength | BadMagic | UnsupportedVersion | BadLayout

definition WireWriter :: "nat \<Rightarrow> bytes" where
  "WireWriter n = replicate n 0"

definition PutBytes :: "nat \<Rightarrow> 64 word \<Rightarrow> nat \<Rightarrow> bytes \<Rightarrow> bytes" where
  "PutBytes offset value count b =
     (if offset > length b \<or> count > length b - offset then b
      else fold (\<lambda>i bs. bs[offset + i := ucast (drop_bit (8 * i) value)]) [0..<count] b)"

definition PutU8 :: "nat \<Rightarrow> 8 word \<Rightarrow> bytes \<Rightarrow> bytes" where
  "PutU8 offset value = PutBytes offset (ucast value) 1"

definition PutU16 :: "nat \<Rightarrow> 16 word \<Rightarrow> bytes \<Rightarrow> bytes" where
  "PutU16 offset value = PutBytes offset (ucast value) 2"

definition PutU32 :: "nat \<Rightarrow> 32 word \<Rightarrow> bytes \<Rightarrow> bytes" where
  "PutU32 offset value = PutBytes offset (ucast value) 4"

definition PutU64 :: "nat \<Rightarrow> 64 word \<Rightarrow> bytes \<Rightarrow> bytes" where
  "PutU64 offset value = PutBytes offset value 8"

text \<open>A signed value is an integer; the cast to unsigned takes it modulo the width.\<close>

definition PutI32 :: "nat \<Rightarrow> int \<Rightarrow> bytes \<Rightarrow> bytes" where
  "PutI32 offset value = PutBytes offset (ucast (word_of_int value :: 32 word)) 4"

definition PutI64 :: "nat \<Rightarrow> int \<Rightarrow> bytes \<Rightarrow> bytes" where
  "PutI64 offset value = PutBytes offset (word_of_int value) 8"

definition PutF64 :: "nat \<Rightarrow> double \<Rightarrow> bytes \<Rightarrow> bytes" where
  "PutF64 offset raw = PutBytes offset raw 8"

text \<open>A byte of the form \<open>10xxxxxx\<close> continues a UTF-8 character.\<close>

definition is_continuation :: "char \<Rightarrow> bool" where
  "is_continuation c \<longleftrightarrow> byte_of_char c AND 0xC0 = 0x80"

fun fit_end :: "string \<Rightarrow> nat \<Rightarrow> nat" where
  "fit_end text 0 = 0"
| "fit_end text (Suc e) = (if is_continuation (text ! Suc e) then fit_end text e else Suc e)"

definition FitUtf8 :: "string \<Rightarrow> nat \<Rightarrow> string" where
  "FitUtf8 text maxBytes =
     (if length text \<le> maxBytes then text else take (fit_end text maxBytes) text)"

definition PutText :: "nat \<Rightarrow> nat \<Rightarrow> string \<Rightarrow> bytes \<Rightarrow> bytes" where
  "PutText offset fieldSize text b =
     (if fieldSize = 0 \<or> offset > length b \<or> fieldSize > length b - offset then b
      else (let fitted = FitUtf8 text (fieldSize - 1)
            in blit offset (to_bytes fitted) (blit offset (replicate fieldSize 0) b)))"

section \<open>WireReader\<close>

record WireReader =
  rd_bytes :: bytes
  rd_base :: nat
  rd_size :: nat

definition Reader_Size :: "WireReader \<Rightarrow> nat" where
  "Reader_Size r =
     (if rd_base r \<ge> length (rd_bytes r) then 0
      else min (rd_size r) (length (rd_bytes r) - rd_base r))"

definition GetBytes :: "WireReader \<Rightarrow> nat \<Rightarrow> nat \<Rightarrow> 64 word" where
  "GetBytes r offset count =
     (let available = Reader_Size r
      in if offset > available \<or> count > available - offset then 0
         else fold (\<lambda>i v. v OR push_bit (8 * i) (ucast (rd_bytes r ! (rd_base r + offset + i))))
                [0..<count] 0)"

definition U8 :: "WireReader \<Rightarrow> nat \<Rightarrow> 8 word" where
  "U8 r offset = ucast (GetBytes r offset 1)"

definition U16 :: "WireReader \<Rightarrow> nat \<Rightarrow> 16 word" where
  "U16 r offset = ucast (GetBytes r offset 2)"

definition U32 :: "WireReader \<Rightarrow> nat \<Rightarrow> 32 word" where
  "U32 r offset = ucast (GetBytes r offset 4)"

definition U64 :: "WireReader \<Rightarrow> nat \<Rightarrow> 64 word" where
  "U64 r offset = GetBytes r offset 8"

definition I32 :: "WireReader \<Rightarrow> nat \<Rightarrow> int" where
  "I32 r offset = sint (ucast (GetBytes r offset 4) :: 32 word)"

definition I64 :: "WireReader \<Rightarrow> nat \<Rightarrow> int" where
  "I64 r offset = sint (GetBytes r offset 8)"

definition F64 :: "WireReader \<Rightarrow> nat \<Rightarrow> double" where
  "F64 r offset = GetBytes r offset 8"

function text_loop :: "WireReader \<Rightarrow> nat \<Rightarrow> nat \<Rightarrow> nat \<Rightarrow> string" where
  "text_loop r offset fieldSize i =
     (if i < fieldSize \<and> offset + i < Reader_Size r then
        (let b = rd_bytes r ! (rd_base r + offset + i)
         in if b = 0 then [] else char_of_byte b # text_loop r offset fieldSize (Suc i))
      else [])"
  by pat_completeness auto
termination
  by (relation "measure (\<lambda>(r, offset, fieldSize, i). fieldSize - i)") auto

declare text_loop.simps [simp del]

definition Reader_Text :: "WireReader \<Rightarrow> nat \<Rightarrow> nat \<Rightarrow> string" where
  "Reader_Text r offset fieldSize = text_loop r offset fieldSize 0"

section \<open>Writes are splices, reads are slices\<close>

definition le_bytes :: "nat \<Rightarrow> 64 word \<Rightarrow> bytes" where
  "le_bytes n v = map (\<lambda>i. ucast (drop_bit (8 * i) v)) [0..<n]"

definition le_value :: "bytes \<Rightarrow> 64 word" where
  "le_value bs = fold (\<lambda>i v. v OR push_bit (8 * i) (ucast (bs ! i))) [0..<length bs] 0"

definition text_field :: "nat \<Rightarrow> string \<Rightarrow> bytes" where
  "text_field n s = (let f = to_bytes (FitUtf8 s (n - 1)) in f @ replicate (n - length f) 0)"

definition field_text :: "bytes \<Rightarrow> string" where
  "field_text bs = of_bytes (takeWhile (\<lambda>b. b \<noteq> 0) bs)"

lemma length_le_bytes [simp]: "length (le_bytes n v) = n"
  by (simp add: le_bytes_def)

lemma fold_update_nth:
  "offset + n \<le> length b \<Longrightarrow>
   fold (\<lambda>i bs. bs[offset + i := f i]) [0..<n] b = blit offset (map f [0..<n]) b"
proof (induction n)
  case 0
  then show ?case by (simp add: blit_def)
next
  case (Suc n)
  then have len: "offset + n \<le> length b" by simp
  have "fold (\<lambda>i bs. bs[offset + i := f i]) [0..<Suc n] b
      = (blit offset (map f [0..<n]) b)[offset + n := f n]"
    using Suc.IH [OF len] by simp
  also have "\<dots> = blit offset (map f [0..<Suc n]) b"
    using Suc.prems
    by (intro nth_equalityI) (auto simp: nth_list_update nth_blit nth_append less_Suc_eq)
  finally show ?case .
qed

lemma PutBytes_blit:
  "offset + n \<le> length b \<Longrightarrow> PutBytes offset v n b = blit offset (le_bytes n v) b"
  unfolding PutBytes_def le_bytes_def by (subst fold_update_nth) auto

lemma PutBytes_out_of_bounds: "length b < offset + n \<Longrightarrow> PutBytes offset v n b = b"
  by (auto simp: PutBytes_def)

lemma fold_or_cong:
  "(\<And>i. i < n \<Longrightarrow> f i = g i) \<Longrightarrow>
   fold (\<lambda>i v. v OR push_bit (8 * i) (f i :: 64 word)) [0..<n] a
   = fold (\<lambda>i v. v OR push_bit (8 * i) (g i)) [0..<n] a"
  by (induction n) auto

lemma GetBytes_chunk:
  assumes "offset + n \<le> Reader_Size r"
  shows "GetBytes r offset n = le_value (chunk (rd_base r + offset) n (rd_bytes r))"
proof -
  have len: "rd_base r + offset + n \<le> length (rd_bytes r) \<or> n = 0"
    using assms by (auto simp: Reader_Size_def split: if_splits)
  show ?thesis
  proof (cases "n = 0")
    case True
    then show ?thesis using assms by (simp add: GetBytes_def le_value_def chunk_def)
  next
    case False
    with len have len': "rd_base r + offset + n \<le> length (rd_bytes r)" by simp
    have "GetBytes r offset n =
        fold (\<lambda>i v. v OR push_bit (8 * i) (ucast (rd_bytes r ! (rd_base r + offset + i)))) [0..<n] 0"
      using assms by (simp add: GetBytes_def Let_def)
    also have "\<dots> = le_value (chunk (rd_base r + offset) n (rd_bytes r))"
      unfolding le_value_def length_chunk [OF len']
      by (rule fold_or_cong) (simp add: nth_chunk [OF len'])
    finally show ?thesis .
  qed
qed

lemma GetBytes_out_of_bounds: "Reader_Size r < offset + n \<Longrightarrow> GetBytes r offset n = 0"
  by (auto simp: GetBytes_def Let_def)

lemma bit_le_value_fold:
  "bit (fold (\<lambda>i v. v OR push_bit (8 * i) (ucast (f i :: byte))) [0..<n] (0 :: 64 word)) k
   \<longleftrightarrow> k < 64 \<and> k div 8 < n \<and> bit (f (k div 8)) (k mod 8)"
proof (induction n)
  case 0
  then show ?case by simp
next
  case (Suc n)
  have byte: "bit (push_bit (8 * n) (ucast (f n)) :: 64 word) k
      \<longleftrightarrow> k < 64 \<and> k div 8 = n \<and> bit (f n) (k mod 8)"
  proof (cases "k < 64 \<and> 8 * n \<le> k")
    case True
    then obtain j where j: "k = 8 * n + j" by (metis le_Suc_ex)
    have byte: "bit (f n) j \<Longrightarrow> j < 8" using bit_imp_le_length [of "f n" j] by simp
    have "j < 8 \<longleftrightarrow> (8 * n + j) div 8 = n" and "j < 8 \<Longrightarrow> (8 * n + j) mod 8 = j" by auto
    then show ?thesis using True j byte
      by (cases "j < 8") (auto simp: bit_push_bit_iff bit_unsigned_iff)
  next
    case False
    then show ?thesis by (auto simp: bit_push_bit_iff)
  qed
  show ?case
    using Suc by (auto simp: bit_or_iff byte less_Suc_eq)
qed

lemma le_value_le_bytes: "le_value (le_bytes n v) = take_bit (8 * n) v"
proof (rule bit_word_eqI)
  fix k assume "k < LENGTH(64)"
  then have k: "k < 64" by simp
  have "bit (le_value (le_bytes n v)) k
      \<longleftrightarrow> k div 8 < n \<and> bit (le_bytes n v ! (k div 8)) (k mod 8)"
    using k unfolding le_value_def by (simp add: bit_le_value_fold)
  also have "\<dots> \<longleftrightarrow> k div 8 < n \<and> bit v k"
    by (auto simp: le_bytes_def bit_unsigned_iff bit_drop_bit_eq)
  also have "\<dots> \<longleftrightarrow> bit (take_bit (8 * n) v) k"
    using k by (auto simp: bit_take_bit_iff div_less_iff_less_mult mult.commute)
  finally show "bit (le_value (le_bytes n v)) k \<longleftrightarrow> bit (take_bit (8 * n) v) k" .
qed

section \<open>Text fields\<close>

lemma fit_end_le: "fit_end s e \<le> e"
  by (induction s e rule: fit_end.induct) auto

lemma length_FitUtf8: "length (FitUtf8 s n) \<le> n"
  using fit_end_le [of s n] by (auto simp: FitUtf8_def)

lemma FitUtf8_short [simp]: "length s \<le> n \<Longrightarrow> FitUtf8 s n = s"
  by (simp add: FitUtf8_def)

lemma length_text_field [simp]: "0 < n \<Longrightarrow> length (text_field n s) = n"
  using length_FitUtf8 [of s "n - 1"] by (simp add: text_field_def Let_def)

lemma blit_blit_prefix:
  "off + n \<le> length b \<Longrightarrow> length xs \<le> n \<Longrightarrow>
   blit off xs (blit off (replicate n z) b) = blit off (xs @ replicate (n - length xs) z) b"
  by (intro nth_equalityI) (auto simp: nth_blit nth_append)

lemma PutText_blit:
  assumes "0 < n" and "off + n \<le> length b"
  shows "PutText off n s b = blit off (text_field n s) b"
proof -
  have fits: "length (to_bytes (FitUtf8 s (n - 1))) \<le> n"
    using length_FitUtf8 [of s "n - 1"] by simp
  have "PutText off n s b
      = blit off (to_bytes (FitUtf8 s (n - 1))) (blit off (replicate n 0) b)"
    using assms by (auto simp: PutText_def Let_def)
  also have "\<dots> = blit off (text_field n s) b"
    unfolding blit_blit_prefix [OF assms(2) fits] by (simp add: text_field_def Let_def)
  finally show ?thesis .
qed

lemma text_loop_chunk:
  "offset + fieldSize \<le> Reader_Size r \<Longrightarrow> i \<le> fieldSize \<Longrightarrow>
   text_loop r offset fieldSize i
   = field_text (chunk (rd_base r + offset + i) (fieldSize - i) (rd_bytes r))"
proof (induction r offset fieldSize i rule: text_loop.induct)
  case (1 r offset fieldSize i)
  let ?b = "rd_bytes r ! (rd_base r + offset + i)"
  show ?case
  proof (cases "i < fieldSize")
    case False
    with "1.prems" show ?thesis
      by (subst text_loop.simps) (simp add: chunk_def field_text_def of_bytes_def)
  next
    case True
    with "1.prems" have in_range: "offset + i < Reader_Size r" by simp
    then have idx: "rd_base r + offset + i < length (rd_bytes r)"
      by (auto simp: Reader_Size_def split: if_splits)
    have head: "chunk (rd_base r + offset + i) (fieldSize - i) (rd_bytes r)
        = ?b # chunk (rd_base r + offset + Suc i) (fieldSize - Suc i) (rd_bytes r)"
      using True idx by (simp add: chunk_def Cons_nth_drop_Suc [symmetric] take_Cons')
    show ?thesis
    proof (cases "?b = 0")
      case True
      then show ?thesis using \<open>i < fieldSize\<close> in_range
        by (subst text_loop.simps) (simp add: head field_text_def of_bytes_def)
    next
      case False
      have "text_loop r offset fieldSize (Suc i)
          = field_text (chunk (rd_base r + offset + Suc i) (fieldSize - Suc i) (rd_bytes r))"
        using "1.IH" [of ?b] True in_range False "1.prems" by simp
      then show ?thesis using True in_range False
        by (subst text_loop.simps) (simp add: head field_text_def of_bytes_def)
    qed
  qed
qed

lemma Reader_Text_chunk:
  "offset + n \<le> Reader_Size r \<Longrightarrow>
   Reader_Text r offset n = field_text (chunk (rd_base r + offset) n (rd_bytes r))"
  by (simp add: Reader_Text_def text_loop_chunk)

text \<open>What a text becomes on its way through a field: cut at a character, then at the first NUL.\<close>

definition text_norm :: "nat \<Rightarrow> string \<Rightarrow> string" where
  "text_norm n s = takeWhile (\<lambda>c. c \<noteq> CHR 0x00) (FitUtf8 s (n - 1))"

definition text_fits :: "nat \<Rightarrow> string \<Rightarrow> bool" where
  "text_fits n s \<longleftrightarrow> length s < n \<and> CHR 0x00 \<notin> set s"

lemma byte_of_char_0 [simp]: "byte_of_char c = 0 \<longleftrightarrow> c = CHR 0x00"
proof
  assume "byte_of_char c = 0"
  then have "char_of_byte (byte_of_char c) = char_of_byte 0" by (simp only:)
  then show "c = CHR 0x00"
    by (simp only: char_of_byte_of_char) (simp add: char_of_byte_def char_of_def)
qed (simp add: byte_of_char_def)

lemma field_text_text_field: "field_text (text_field n s) = text_norm n s"
proof -
  have "takeWhile (\<lambda>b. b \<noteq> 0) (to_bytes t @ replicate k 0)
      = to_bytes (takeWhile (\<lambda>c. c \<noteq> CHR 0x00) t)" for t k
    by (induction t) (auto simp: to_bytes_def takeWhile_replicate)
  then show ?thesis by (simp add: field_text_def text_field_def text_norm_def Let_def)
qed

lemma text_norm_fits [simp]: "text_fits n s \<Longrightarrow> text_norm n s = s"
  by (auto simp: text_norm_def text_fits_def takeWhile_eq_all_conv)

section \<open>Fields: encoders and decoders\<close>

definition enc_u8 :: "8 word \<Rightarrow> bytes" where "enc_u8 v = le_bytes 1 (ucast v)"
definition enc_u16 :: "16 word \<Rightarrow> bytes" where "enc_u16 v = le_bytes 2 (ucast v)"
definition enc_u32 :: "32 word \<Rightarrow> bytes" where "enc_u32 v = le_bytes 4 (ucast v)"
definition enc_u64 :: "64 word \<Rightarrow> bytes" where "enc_u64 v = le_bytes 8 v"

definition dec_u8 :: "bytes \<Rightarrow> 8 word" where "dec_u8 bs = ucast (le_value bs)"
definition dec_u16 :: "bytes \<Rightarrow> 16 word" where "dec_u16 bs = ucast (le_value bs)"
definition dec_u32 :: "bytes \<Rightarrow> 32 word" where "dec_u32 bs = ucast (le_value bs)"
definition dec_u64 :: "bytes \<Rightarrow> 64 word" where "dec_u64 bs = le_value bs"

lemma enc_lengths [simp]:
  "length (enc_u8 v8) = Suc 0" "length (enc_u16 v16) = 2"
  "length (enc_u32 v32) = 4" "length (enc_u64 v64) = 8"
  by (simp_all add: enc_u8_def enc_u16_def enc_u32_def enc_u64_def)

lemma dec_encs [simp]:
  "dec_u8 (enc_u8 v8) = v8" "dec_u16 (enc_u16 v16) = v16"
  "dec_u32 (enc_u32 v32) = v32" "dec_u64 (enc_u64 v64) = v64"
proof -
  show "dec_u8 (enc_u8 v8) = v8"
    unfolding dec_u8_def enc_u8_def le_value_le_bytes by (rule bit_word_eqI) (auto simp: bit_simps)
  show "dec_u16 (enc_u16 v16) = v16"
    unfolding dec_u16_def enc_u16_def le_value_le_bytes by (rule bit_word_eqI) (auto simp: bit_simps)
  show "dec_u32 (enc_u32 v32) = v32"
    unfolding dec_u32_def enc_u32_def le_value_le_bytes by (rule bit_word_eqI) (auto simp: bit_simps)
  show "dec_u64 (enc_u64 v64) = v64"
    unfolding dec_u64_def enc_u64_def le_value_le_bytes by (simp add: take_bit_word_eq_self)
qed

lemma put_blits:
  "off + Suc 0 \<le> length b \<Longrightarrow> PutU8 off v8 b = blit off (enc_u8 v8) b"
  "off + 2 \<le> length b \<Longrightarrow> PutU16 off v16 b = blit off (enc_u16 v16) b"
  "off + 4 \<le> length b \<Longrightarrow> PutU32 off v32 b = blit off (enc_u32 v32) b"
  "off + 8 \<le> length b \<Longrightarrow> PutU64 off v64 b = blit off (enc_u64 v64) b"
  "off + 4 \<le> length b \<Longrightarrow> PutI32 off i b = blit off (enc_u32 (word_of_int i)) b"
  "off + 8 \<le> length b \<Longrightarrow> PutI64 off i b = blit off (enc_u64 (word_of_int i)) b"
  "off + 8 \<le> length b \<Longrightarrow> PutF64 off v64 b = blit off (enc_u64 v64) b"
  by (simp_all add: PutU8_def PutU16_def PutU32_def PutU64_def PutI32_def PutI64_def PutF64_def
      enc_u8_def enc_u16_def enc_u32_def enc_u64_def PutBytes_blit)

lemma read_chunks:
  "off + Suc 0 \<le> Reader_Size r \<Longrightarrow> U8 r off = dec_u8 (chunk (rd_base r + off) (Suc 0) (rd_bytes r))"
  "off + 2 \<le> Reader_Size r \<Longrightarrow> U16 r off = dec_u16 (chunk (rd_base r + off) 2 (rd_bytes r))"
  "off + 4 \<le> Reader_Size r \<Longrightarrow> U32 r off = dec_u32 (chunk (rd_base r + off) 4 (rd_bytes r))"
  "off + 8 \<le> Reader_Size r \<Longrightarrow> U64 r off = dec_u64 (chunk (rd_base r + off) 8 (rd_bytes r))"
  "off + 4 \<le> Reader_Size r \<Longrightarrow> I32 r off = sint (dec_u32 (chunk (rd_base r + off) 4 (rd_bytes r)))"
  "off + 8 \<le> Reader_Size r \<Longrightarrow> I64 r off = sint (dec_u64 (chunk (rd_base r + off) 8 (rd_bytes r)))"
  "off + 8 \<le> Reader_Size r \<Longrightarrow> F64 r off = dec_u64 (chunk (rd_base r + off) 8 (rd_bytes r))"
  by (simp_all add: U8_def U16_def U32_def U64_def I32_def I64_def F64_def
      dec_u8_def dec_u16_def dec_u32_def dec_u64_def GetBytes_chunk)

definition is_int32 :: "int \<Rightarrow> bool" where
  "is_int32 x \<longleftrightarrow> - (2 ^ 31) \<le> x \<and> x < 2 ^ 31"

definition is_int64 :: "int \<Rightarrow> bool" where
  "is_int64 x \<longleftrightarrow> - (2 ^ 63) \<le> x \<and> x < 2 ^ 63"

text \<open>What an integer becomes when it is stored in 32 or 64 bits and read back as signed.\<close>

definition norm32 :: "int \<Rightarrow> int" where "norm32 x = sint (word_of_int x :: 32 word)"
definition norm64 :: "int \<Rightarrow> int" where "norm64 x = sint (word_of_int x :: 64 word)"

lemma norm32_id [simp]: "is_int32 x \<Longrightarrow> norm32 x = x"
  using to_int32_id [of x] by (simp add: to_int32_def norm32_def is_int32_def)

lemma norm64_id [simp]: "is_int64 x \<Longrightarrow> norm64 x = x"
  unfolding is_int64_def norm64_def by (simp add: sint_sbintrunc' signed_take_bit_int_eq_self)

section \<open>FitUtf8 cuts at a character\<close>

definition char_boundary :: "string \<Rightarrow> nat \<Rightarrow> bool" where
  "char_boundary s k \<longleftrightarrow> k = 0 \<or> k = length s \<or> (k < length s \<and> \<not> is_continuation (s ! k))"

text \<open>The shape of UTF-8: a lead byte, then as many continuation bytes as it announces.\<close>

definition lead_length :: "char \<Rightarrow> nat" where
  "lead_length c =
     (let b = char_code c
      in if b < 0x80 then 1 else if 0xC2 \<le> b \<and> b \<le> 0xDF then 2
         else if 0xE0 \<le> b \<and> b \<le> 0xEF then 3 else if 0xF0 \<le> b \<and> b \<le> 0xF4 then 4 else 0)"

fun utf8_shape :: "string \<Rightarrow> bool" where
  "utf8_shape [] = True"
| "utf8_shape (c # cs) =
     (let n = lead_length c
      in 0 < n \<and> n - 1 \<le> length cs \<and> list_all is_continuation (take (n - 1) cs)
         \<and> utf8_shape (drop (n - 1) cs))"

declare utf8_shape.simps(2) [simp del]

lemma fit_end_boundary: "e < length s \<Longrightarrow> char_boundary s (fit_end s e)"
  by (induction s e rule: fit_end.induct) (auto simp: char_boundary_def)

lemma fit_end_longest:
  "e < length s \<Longrightarrow> j \<le> e \<Longrightarrow> char_boundary s j \<Longrightarrow> j \<le> fit_end s e"
proof (induction s e rule: fit_end.induct)
  case (2 s e)
  show ?case
  proof (cases "is_continuation (s ! Suc e)")
    case True
    with 2 have "j \<noteq> Suc e" by (auto simp: char_boundary_def)
    with 2 True show ?thesis by simp
  next
    case False
    with 2 show ?thesis by simp
  qed
qed simp

lemma utf8_shape_take:
  "utf8_shape s \<Longrightarrow> char_boundary s k \<Longrightarrow> k \<le> length s \<Longrightarrow> utf8_shape (take k s)"
proof (induction s arbitrary: k rule: utf8_shape.induct)
  case 1
  then show ?case by simp
next
  case (2 c cs)
  let ?n = "lead_length c"
  from "2.prems"(1) have n: "0 < ?n" "?n - 1 \<le> length cs"
    and conts: "list_all is_continuation (take (?n - 1) cs)" and rest: "utf8_shape (drop (?n - 1) cs)"
    by (simp_all add: utf8_shape.simps(2) Let_def)
  show ?case
  proof (cases "k = 0 \<or> k = Suc (length cs)")
    case True
    then show ?thesis using "2.prems"(1) by auto
  next
    case False
    with "2.prems" have k: "0 < k" "k - 1 < length cs" "\<not> is_continuation (cs ! (k - 1))"
      by (auto simp: char_boundary_def nth_Cons')
    have ge: "?n \<le> k"
    proof (rule ccontr)
      assume "\<not> ?n \<le> k"
      then have "cs ! (k - 1) \<in> set (take (?n - 1) cs)"
        using k by (auto simp: in_set_conv_nth intro!: exI [of _ "k - 1"])
      with conts k(3) show False by (simp add: list_all_iff)
    qed
    have "char_boundary (drop (?n - 1) cs) (k - ?n)"
      using k n ge by (auto simp: char_boundary_def)
    then have "utf8_shape (take (k - ?n) (drop (?n - 1) cs))"
      using "2.IH" [OF refl rest] k n ge by simp
    moreover have "take k (c # cs) = c # take (k - 1) cs" using k by (cases k) auto
    ultimately show ?thesis
      using n conts ge k by (simp add: utf8_shape.simps(2) Let_def drop_take min_def)
  qed
qed

lemma FitUtf8_boundary:
  "\<exists>k. FitUtf8 s n = take k s \<and> k \<le> n \<and> char_boundary s k \<and> k \<le> length s
     \<and> (\<forall>j \<le> min n (length s). char_boundary s j \<longrightarrow> j \<le> k)"
proof (cases "length s \<le> n")
  case True
  then show ?thesis by (intro exI [of _ "length s"]) (auto simp: char_boundary_def)
next
  case False
  then show ?thesis
    using fit_end_boundary [of n s] fit_end_longest [of n s] fit_end_le [of s n]
    by (intro exI [of _ "fit_end s n"]) (auto simp: FitUtf8_def)
qed

lemma utf8_shape_FitUtf8: "utf8_shape s \<Longrightarrow> utf8_shape (FitUtf8 s n)"
  using FitUtf8_boundary [of s n] utf8_shape_take by metis

section \<open>Records of fixed width\<close>

text \<open>
  A record is written field by field at ascending offsets. \<open>laid_out\<close> is the layout check:
  the fields do not overlap and end within the record.
\<close>

definition write_fields :: "nat \<Rightarrow> (nat \<times> bytes) list \<Rightarrow> bytes \<Rightarrow> bytes" where
  "write_fields base fs b = fold (\<lambda>(o', e) b. blit (base + o') e b) fs b"

fun laid_out :: "nat \<Rightarrow> (nat \<times> bytes) list \<Rightarrow> nat \<Rightarrow> bool" where
  "laid_out lo [] hi \<longleftrightarrow> lo \<le> hi"
| "laid_out lo ((o', e) # fs) hi \<longleftrightarrow> lo \<le> o' \<and> laid_out (o' + length e) fs hi"

lemma laid_out_le: "laid_out lo fs hi \<Longrightarrow> lo \<le> hi"
  by (induction lo fs hi rule: laid_out.induct) auto

lemma laid_out_bound:
  "laid_out lo fs hi \<Longrightarrow> (o', e) \<in> set fs \<Longrightarrow> lo \<le> o' \<and> o' + length e \<le> hi"
proof (induction lo fs hi rule: laid_out.induct)
  case (2 lo p d fs hi)
  from "2.prems" have "p + length d \<le> hi" by (auto dest: laid_out_le)
  with 2 show ?case by auto
qed simp

lemma write_fields_simps [simp]:
  "write_fields base [] b = b"
  "write_fields base ((o', e) # fs) b = write_fields base fs (blit (base + o') e b)"
  by (simp_all add: write_fields_def)

lemma length_write_fields:
  "laid_out lo fs hi \<Longrightarrow> base + hi \<le> length b \<Longrightarrow> length (write_fields base fs b) = length b"
proof (induction lo fs hi arbitrary: b rule: laid_out.induct)
  case (2 lo o' e fs hi)
  from "2.prems" have "o' + length e \<le> hi" by (auto dest: laid_out_le)
  with 2 show ?case by simp
qed simp

lemma chunk_write_fields_other:
  "laid_out lo fs hi \<Longrightarrow> base + hi \<le> length b \<Longrightarrow> off + n \<le> length b \<Longrightarrow>
   off + n \<le> base + lo \<or> base + hi \<le> off \<Longrightarrow>
   chunk off n (write_fields base fs b) = chunk off n b"
proof (induction lo fs hi arbitrary: b rule: laid_out.induct)
  case (2 lo o' e fs hi)
  from "2.prems" have le: "o' + length e \<le> hi" "lo \<le> o'" by (auto dest: laid_out_le)
  have "chunk off n (write_fields base fs (blit (base + o') e b)) = chunk off n (blit (base + o') e b)"
    using 2 le by (intro "2.IH") auto
  also have "\<dots> = chunk off n b"
    using "2.prems" le by (intro chunk_blit_other) auto
  finally show ?case by simp
qed simp

lemma chunk_write_fields:
  "laid_out lo fs hi \<Longrightarrow> base + hi \<le> length b \<Longrightarrow> (o', e) \<in> set fs \<Longrightarrow>
   chunk (base + o') (length e) (write_fields base fs b) = e"
proof (induction lo fs hi arbitrary: b rule: laid_out.induct)
  case (2 lo p d fs hi)
  from "2.prems" have le: "p + length d \<le> hi" by (auto dest: laid_out_le)
  show ?case
  proof (cases "(o', e) = (p, d)")
    case True
    have "chunk (base + p) (length d) (write_fields base fs (blit (base + p) d b))
        = chunk (base + p) (length d) (blit (base + p) d b)"
      using "2.prems" le by (intro chunk_write_fields_other [of "p + length d" fs hi]) auto
    then show ?thesis using True le "2.prems" by (simp add: chunk_blit_same)
  next
    case False
    then show ?thesis using 2 le by auto
  qed
qed simp

text \<open>
  \<open>writes hi base fs b b'\<close>: the fields \<open>fs\<close> (the last one first) turn \<open>b\<close> into \<open>b'\<close>. Its introduction
  rules follow the calls of an encoder one by one.
\<close>

definition writes :: "nat \<Rightarrow> nat \<Rightarrow> (nat \<times> bytes) list \<Rightarrow> bytes \<Rightarrow> bytes \<Rightarrow> bool" where
  "writes hi base fs b b' \<longleftrightarrow>
     base + hi \<le> length b \<and> length b' = length b \<and> b' = write_fields base (rev fs) b"

lemma writes_Nil: "base + hi \<le> length b \<Longrightarrow> writes hi base [] b b"
  by (simp add: writes_def)

lemma write_fields_snoc:
  "write_fields base (fs @ [(o', e)]) b = blit (base + o') e (write_fields base fs b)"
  by (simp add: write_fields_def)

lemma writes_puts:
  "writes hi base fs b b' \<Longrightarrow> o' + 1 \<le> hi \<Longrightarrow>
   writes hi base ((o', enc_u8 v8) # fs) b (PutU8 (base + o') v8 b')"
  "writes hi base fs b b' \<Longrightarrow> o' + 2 \<le> hi \<Longrightarrow>
   writes hi base ((o', enc_u16 v16) # fs) b (PutU16 (base + o') v16 b')"
  "writes hi base fs b b' \<Longrightarrow> o' + 4 \<le> hi \<Longrightarrow>
   writes hi base ((o', enc_u32 v32) # fs) b (PutU32 (base + o') v32 b')"
  "writes hi base fs b b' \<Longrightarrow> o' + 8 \<le> hi \<Longrightarrow>
   writes hi base ((o', enc_u64 v64) # fs) b (PutU64 (base + o') v64 b')"
  "writes hi base fs b b' \<Longrightarrow> o' + 4 \<le> hi \<Longrightarrow>
   writes hi base ((o', enc_u32 (word_of_int i)) # fs) b (PutI32 (base + o') i b')"
  "writes hi base fs b b' \<Longrightarrow> o' + 8 \<le> hi \<Longrightarrow>
   writes hi base ((o', enc_u64 (word_of_int i)) # fs) b (PutI64 (base + o') i b')"
  "writes hi base fs b b' \<Longrightarrow> o' + 8 \<le> hi \<Longrightarrow>
   writes hi base ((o', enc_u64 v64) # fs) b (PutF64 (base + o') v64 b')"
  "writes hi base fs b b' \<Longrightarrow> 0 < n \<Longrightarrow> o' + n \<le> hi \<Longrightarrow>
   writes hi base ((o', text_field n s) # fs) b (PutText (base + o') n s b')"
  by (auto simp: writes_def write_fields_snoc put_blits PutText_blit)

lemma writes_eq: "writes hi base (rev fs) b b' \<Longrightarrow> b' = write_fields base fs b"
  by (simp add: writes_def)

text \<open>The loops that write and read records back to back.\<close>

fun put_all :: "('r \<Rightarrow> bytes \<Rightarrow> nat \<Rightarrow> bytes) \<Rightarrow> nat \<Rightarrow> 'r list \<Rightarrow> bytes \<Rightarrow> nat \<Rightarrow> bytes" where
  "put_all put width [] b base = b"
| "put_all put width (r # rs) b base = put_all put width rs (put r b base) (base + width)"

fun get_all :: "(bytes \<Rightarrow> nat \<Rightarrow> 'r) \<Rightarrow> nat \<Rightarrow> bytes \<Rightarrow> nat \<Rightarrow> nat \<Rightarrow> 'r list" where
  "get_all get width b base 0 = []"
| "get_all get width b base (Suc n) = get b base # get_all get width b (base + width) n"

lemma fields_read:
  "(\<And>o' e. (o', e) \<in> set fs \<Longrightarrow> chunk (base + o') (length e) b = e) \<Longrightarrow>
   list_all (\<lambda>(o', e). chunk (base + o') (length e) b = e) fs"
  by (auto simp: list_all_iff)

lemma all_less_Suc_shift: "(\<forall>i < Suc n. P i) \<longleftrightarrow> P 0 \<and> (\<forall>i < n. P (Suc i))"
  using less_Suc_eq_0_disj by auto

text \<open>Every field of every record is where the layout says, whatever surrounds it.\<close>

definition laid_records ::
  "('r \<Rightarrow> (nat \<times> bytes) list) \<Rightarrow> nat \<Rightarrow> nat \<Rightarrow> 'r list \<Rightarrow> bytes \<Rightarrow> nat \<Rightarrow> bool" where
  "laid_records flds width stride rs b base \<longleftrightarrow>
     (\<forall>i < length rs. base + i * stride + width \<le> length b
        \<and> (\<forall>(o', e) \<in> set (flds (rs ! i)). chunk (base + i * stride + o') (length e) b = e))"

lemma laid_records_Cons:
  "laid_records flds width stride (r # rs) b base \<longleftrightarrow>
     base + width \<le> length b \<and> (\<forall>(o', e) \<in> set (flds r). chunk (base + o') (length e) b = e)
     \<and> laid_records flds width stride rs b (base + stride)"
  unfolding laid_records_def length_Cons all_less_Suc_shift by (simp add: algebra_simps)

lemma laid_records_append:
  assumes "laid_records flds width stride rs b base"
  shows "laid_records flds width stride rs (p @ b) (length p + base)"
proof -
  have eq: "chunk (length p + k) n (p @ b) = chunk k n b" for k n
    by (simp add: chunk_def)
  have "chunk (length p + base + i * stride + o') (length e) (p @ b)
      = chunk (base + i * stride + o') (length e) b" for i o' and e :: bytes
    using eq [of "base + i * stride + o'" "length e"] by (simp add: add.assoc)
  with assms show ?thesis unfolding laid_records_def by (simp add: add.assoc)
qed

locale wire_record =
  fixes fields :: "'r \<Rightarrow> (nat \<times> bytes) list"
    and width :: nat
    and put :: "'r \<Rightarrow> bytes \<Rightarrow> nat \<Rightarrow> bytes"
    and get :: "bytes \<Rightarrow> nat \<Rightarrow> 'r"
    and norm :: "'r \<Rightarrow> 'r"
  assumes put_fields: "base + width \<le> length b \<Longrightarrow> put r b base = write_fields base (fields r) b"
    and fields_laid_out: "laid_out 0 (fields r) width"
    and get_fields: "base + width \<le> length b \<Longrightarrow>
      (\<And>o' e. (o', e) \<in> set (fields r) \<Longrightarrow> chunk (base + o') (length e) b = e) \<Longrightarrow>
      get b base = norm r"
begin

lemma length_put: "base + width \<le> length b \<Longrightarrow> length (put r b base) = length b"
  by (simp add: put_fields length_write_fields [OF fields_laid_out])

lemma chunk_put_other:
  "base + width \<le> length b \<Longrightarrow> off + n \<le> length b \<Longrightarrow> off + n \<le> base \<or> base + width \<le> off \<Longrightarrow>
   chunk off n (put r b base) = chunk off n b"
  by (simp add: put_fields chunk_write_fields_other [OF fields_laid_out])

lemma chunk_put_field:
  "base + width \<le> length b \<Longrightarrow> (o', e) \<in> set (fields r) \<Longrightarrow>
   chunk (base + o') (length e) (put r b base) = e"
  by (simp add: put_fields chunk_write_fields [OF fields_laid_out])

lemma length_put_all:
  "base + length rs * width \<le> length b \<Longrightarrow> length (put_all put width rs b base) = length b"
  by (induction rs arbitrary: b base) (auto simp: length_put algebra_simps)

lemma chunk_put_all_other:
  "base + length rs * width \<le> length b \<Longrightarrow> off + n \<le> length b \<Longrightarrow>
   off + n \<le> base \<or> base + length rs * width \<le> off \<Longrightarrow>
   chunk off n (put_all put width rs b base) = chunk off n b"
proof (induction rs arbitrary: b base)
  case (Cons r rs)
  have "chunk off n (put_all put width rs (put r b base) (base + width))
      = chunk off n (put r b base)"
    using Cons.prems by (intro Cons.IH) (auto simp: length_put algebra_simps)
  also have "\<dots> = chunk off n b"
    using Cons.prems by (intro chunk_put_other) (auto simp: algebra_simps)
  finally show ?case by simp
qed simp

lemma laid_put_all:
  "base + length rs * width \<le> length b \<Longrightarrow> laid_records fields width width rs (put_all put width rs b base) base"
proof (induction rs arbitrary: b base)
  case Nil
  then show ?case by (simp add: laid_records_def)
next
  case (Cons r rs)
  let ?b = "put r b base" and ?c = "put_all put width rs (put r b base) (base + width)"
  have in1: "base + width \<le> length b" and in2: "base + width + length rs * width \<le> length ?b"
    using Cons.prems by (auto simp: length_put algebra_simps)
  have keep: "chunk (base + o') (length e) ?c = e" if f: "(o', e) \<in> set (fields r)" for o' e
  proof -
    from laid_out_bound [OF fields_laid_out f] have le: "o' + length e \<le> width" by simp
    have "chunk (base + o') (length e) ?c = chunk (base + o') (length e) ?b"
      using in1 in2 le by (intro chunk_put_all_other) (auto simp: length_put)
    with in1 f show ?thesis by (simp add: chunk_put_field)
  qed
  with in1 in2 Cons.IH [OF in2] show ?case
    by (auto simp: laid_records_Cons length_put_all length_put)
qed

lemma get_all_laid:
  "laid_records fields width stride rs b base \<Longrightarrow> get_all get stride b base (length rs) = map norm rs"
proof (induction rs arbitrary: base)
  case (Cons r rs)
  then have "get b base = norm r" by (intro get_fields) (auto simp: laid_records_Cons)
  with Cons show ?case by (simp add: laid_records_Cons)
qed simp

lemma get_all_put_all:
  "base + length rs * width \<le> length b \<Longrightarrow>
   get_all get width (put_all put width rs b base) base (length rs) = map norm rs"
  by (intro get_all_laid laid_put_all)

lemma get_put: "base + width \<le> length b \<Longrightarrow> get (put r b base) base = norm r"
  by (rule get_fields) (simp_all add: length_put chunk_put_field)

end

section \<open>Properties\<close>

text \<open>
  C25: \<open>FitUtf8\<close> returns the longest prefix of the text that has at most the given number of bytes
  and ends at a character boundary, and a text in the shape of UTF-8 stays in that shape.
\<close>

theorem FitUtf8_longest_prefix:
  "(\<exists>k \<le> n. k \<le> length s \<and> FitUtf8 s n = take k s \<and> char_boundary s k
      \<and> (\<forall>j \<le> min n (length s). char_boundary s j \<longrightarrow> j \<le> k))
   \<and> (utf8_shape s \<longrightarrow> utf8_shape (FitUtf8 s n))"
  using FitUtf8_boundary [of s n] utf8_shape_FitUtf8 [of s n] by blast

text \<open>The Euro sign has three bytes; a field with room for three bytes keeps the letter before it.\<close>

theorem FitUtf8_longest_prefix_witness:
  "utf8_shape (FitUtf8 [CHR ''a'', CHR 0xE2, CHR 0x82, CHR 0xAC] 3)
   \<and> FitUtf8 [CHR ''a'', CHR 0xE2, CHR 0x82, CHR 0xAC] 3 = ''a''"
proof -
  let ?s = "[CHR ''a'', CHR 0xE2, CHR 0x82, CHR 0xAC]"
  have "utf8_shape ?s" by code_simp
  with FitUtf8_longest_prefix [of 3 ?s] have "utf8_shape (FitUtf8 ?s 3)" by blast
  moreover have "FitUtf8 ?s 3 = ''a''" by code_simp
  ultimately show ?thesis by blast
qed

end
