(* ===== verification/Logger.thy ===== *)
theory Logger
  imports Prelude
begin

text \<open>
  Log levels of \<open>src/manager/src/Logger.cpp\<close>: their order, names and journald priorities, the
  threshold test and the line format. The calendar (\<open>localtime_r\<close>) belongs to the C library, so
  the formatted timestamp is an argument of \<open>Logger_Format\<close>; writing to standard error is not
  modelled.
\<close>

datatype LogLevel = LL_Error | LL_Warning | LL_Info | LL_Debug

fun level_int :: "LogLevel \<Rightarrow> int" where
  "level_int LL_Error = 0"
| "level_int LL_Warning = 1"
| "level_int LL_Info = 2"
| "level_int LL_Debug = 3"

lemma level_int_inj [simp]: "level_int a = level_int b \<longleftrightarrow> a = b"
  by (cases a; cases b) auto

instantiation LogLevel :: linorder
begin

definition less_eq_LogLevel :: "LogLevel \<Rightarrow> LogLevel \<Rightarrow> bool" where
  "less_eq_LogLevel a b \<longleftrightarrow> level_int a \<le> level_int b"

definition less_LogLevel :: "LogLevel \<Rightarrow> LogLevel \<Rightarrow> bool" where
  "less_LogLevel a b \<longleftrightarrow> level_int a < level_int b"

instance
  by standard (auto simp: less_eq_LogLevel_def less_LogLevel_def)

end

fun LevelName :: "LogLevel \<Rightarrow> string" where
  "LevelName LL_Error = ''error''"
| "LevelName LL_Warning = ''warning''"
| "LevelName LL_Info = ''info''"
| "LevelName LL_Debug = ''debug''"

fun JournalPriority :: "LogLevel \<Rightarrow> int" where
  "JournalPriority LL_Error = 3"
| "JournalPriority LL_Warning = 4"
| "JournalPriority LL_Info = 6"
| "JournalPriority LL_Debug = 7"

record Logger =
  log_level :: LogLevel
  log_journal :: bool

definition Logger_SetLevel :: "LogLevel \<Rightarrow> Logger \<Rightarrow> Logger" where
  "Logger_SetLevel l lg = lg\<lparr>log_level := l\<rparr>"

definition Logger_Enabled :: "Logger \<Rightarrow> LogLevel \<Rightarrow> bool" where
  "Logger_Enabled lg l \<longleftrightarrow> l \<le> log_level lg"

definition Logger_Format :: "(nanos \<Rightarrow> string) \<Rightarrow> Logger \<Rightarrow> LogLevel \<Rightarrow> string \<Rightarrow> nanos \<Rightarrow> string" where
  "Logger_Format LocalTimestamp lg l message wallNs =
     (if log_journal lg then ''<'' @ to_string (JournalPriority l) @ ''>''
      else LocalTimestamp wallNs @ '' ['' @ LevelName l @ ''] '')
     @ message @ [CHR 0x0A]"

definition ParseLogLevel :: "string \<Rightarrow> LogLevel option" where
  "ParseLogLevel s =
     (if s = ''error'' then Some LL_Error
      else if s = ''warning'' then Some LL_Warning
      else if s = ''info'' then Some LL_Info
      else if s = ''debug'' then Some LL_Debug
      else None)"

lemma ParseLogLevel_LevelName [simp]: "ParseLogLevel (LevelName l) = Some l"
  by (cases l) (auto simp: ParseLogLevel_def)

lemma ParseLogLevel_Some: "ParseLogLevel s = Some l \<Longrightarrow> s = LevelName l"
  by (auto simp: ParseLogLevel_def split: if_splits)

lemma Logger_Enabled_error [simp]: "Logger_Enabled lg LL_Error"
  by (cases "log_level lg") (simp_all add: Logger_Enabled_def less_eq_LogLevel_def)

end
