(* ===== verification/Service_State.thy ===== *)
theory Service_State
  imports Prelude
begin

text \<open>
  The eight states of a service (\<open>src/manager/include/ServiceState.hpp\<close>), the five states of the
  health report they fold into, and the bytes both have on the wire.
\<close>

datatype ServiceState =
  Stopped | Waiting | Starting | Running | Unhealthy | Stopping | Backoff | Failed

datatype RuntimeState = RS_Unknown | RS_Starting | RS_Running | RS_Stopped | RS_Unhealthy

fun ServiceStateName :: "ServiceState \<Rightarrow> string" where
  "ServiceStateName Stopped = ''stopped''"
| "ServiceStateName Waiting = ''waiting''"
| "ServiceStateName Starting = ''starting''"
| "ServiceStateName Running = ''running''"
| "ServiceStateName Unhealthy = ''unhealthy''"
| "ServiceStateName Stopping = ''stopping''"
| "ServiceStateName Backoff = ''backoff''"
| "ServiceStateName Failed = ''failed''"

fun ToRuntimeState :: "ServiceState \<Rightarrow> RuntimeState" where
  "ToRuntimeState Stopped = RS_Stopped"
| "ToRuntimeState Stopping = RS_Stopped"
| "ToRuntimeState Waiting = RS_Starting"
| "ToRuntimeState Starting = RS_Starting"
| "ToRuntimeState Backoff = RS_Starting"
| "ToRuntimeState Running = RS_Running"
| "ToRuntimeState Unhealthy = RS_Unhealthy"
| "ToRuntimeState Failed = RS_Unhealthy"

definition IsAlive :: "ServiceState \<Rightarrow> bool" where
  "IsAlive s \<longleftrightarrow> s = Starting \<or> s = Running \<or> s = Unhealthy \<or> s = Stopping"

fun ServiceState_byte :: "ServiceState \<Rightarrow> byte" where
  "ServiceState_byte Stopped = 0"
| "ServiceState_byte Waiting = 1"
| "ServiceState_byte Starting = 2"
| "ServiceState_byte Running = 3"
| "ServiceState_byte Unhealthy = 4"
| "ServiceState_byte Stopping = 5"
| "ServiceState_byte Backoff = 6"
| "ServiceState_byte Failed = 7"

definition ServiceStateFromByte :: "byte \<Rightarrow> ServiceState option" where
  "ServiceStateFromByte v =
     (if v > ServiceState_byte Failed then None
      else Some ([Stopped, Waiting, Starting, Running, Unhealthy, Stopping, Backoff, Failed] ! unat v))"

fun RuntimeState_byte :: "RuntimeState \<Rightarrow> byte" where
  "RuntimeState_byte RS_Unknown = 0"
| "RuntimeState_byte RS_Starting = 1"
| "RuntimeState_byte RS_Running = 2"
| "RuntimeState_byte RS_Stopped = 3"
| "RuntimeState_byte RS_Unhealthy = 4"

definition RuntimeStateFromByte :: "byte \<Rightarrow> RuntimeState" where
  "RuntimeStateFromByte v =
     (if v > RuntimeState_byte RS_Unhealthy then RS_Unknown
      else [RS_Unknown, RS_Starting, RS_Running, RS_Stopped, RS_Unhealthy] ! unat v)"

lemma ServiceStateFromByte_byte [simp]: "ServiceStateFromByte (ServiceState_byte s) = Some s"
  by (cases s) (simp_all add: ServiceStateFromByte_def)

lemma RuntimeStateFromByte_byte [simp]: "RuntimeStateFromByte (RuntimeState_byte s) = s"
  by (cases s) (simp_all add: RuntimeStateFromByte_def)

lemma IsAlive_simps [simp]:
  "\<not> IsAlive Stopped" "\<not> IsAlive Waiting" "IsAlive Starting" "IsAlive Running"
  "IsAlive Unhealthy" "IsAlive Stopping" "\<not> IsAlive Backoff" "\<not> IsAlive Failed"
  by (simp_all add: IsAlive_def)

lemma ToRuntimeState_known: "ToRuntimeState s \<noteq> RS_Unknown"
  by (cases s) auto

lemma ToRuntimeState_running [simp]: "ToRuntimeState s = RS_Running \<longleftrightarrow> s = Running"
  by (cases s) auto

end
