(* ===== verification/Service_Config.thy ===== *)
theory Service_Config
  imports Prelude Logger
begin

text \<open>
  The configuration as parsed (\<open>src/manager/include/ServiceConfig.hpp\<close> and \<open>ServiceConfig.cpp\<close>):
  its enumerations, the configuration of a service and of the manager, the field-by-field
  comparison a reload uses, the lookup by name and the rules for names.
\<close>

definition max_service_name_length :: nat where
  "max_service_name_length = 31"

datatype RestartMode = Never | OnFailure | Always

datatype OutputMode = OM_Auto | OM_Journal | OM_Inherit | OM_Null | OM_File

datatype StopSignal = SS_Terminate | SS_Interrupt | SS_Hangup | SS_Quit | SS_Kill | SS_User1 | SS_User2

datatype UnhealthyAction = UA_None | UA_Restart

datatype CgroupMode = CM_Auto | CM_Off | CM_Required

datatype GpuMode = GM_Auto | GM_Off

record EnvironmentVariable =
  ev_name :: string
  ev_value :: string

record ServiceConfig =
  sc_name :: string
  sc_description :: string
  sc_binary :: string
  sc_arguments :: "string list"
  sc_workingDirectory :: string
  sc_environment :: "EnvironmentVariable list"
  sc_autostart :: bool
  sc_restart :: RestartMode
  sc_restartDelay :: millis
  sc_restartDelayMax :: millis
  sc_maxRestarts :: int
  sc_restartWindow :: int
  sc_startGrace :: millis
  sc_stopSignal :: StopSignal
  sc_stopTimeout :: millis
  sc_heartbeatInterval :: millis
  sc_heartbeatTolerance :: int
  sc_unhealthyAction :: UnhealthyAction
  sc_dependsOn :: "string list"
  sc_output :: OutputMode
  sc_outputPath :: string
  sc_memoryMax :: "64 word"
  sc_cpuMaxPercent :: "32 word"

definition default_ServiceConfig :: ServiceConfig where
  "default_ServiceConfig =
     \<lparr>sc_name = '''', sc_description = '''', sc_binary = '''', sc_arguments = [],
      sc_workingDirectory = '''', sc_environment = [], sc_autostart = True,
      sc_restart = OnFailure, sc_restartDelay = 1000, sc_restartDelayMax = 30000,
      sc_maxRestarts = 5, sc_restartWindow = 60, sc_startGrace = 1000,
      sc_stopSignal = SS_Terminate, sc_stopTimeout = 5000, sc_heartbeatInterval = 0,
      sc_heartbeatTolerance = 3, sc_unhealthyAction = UA_None, sc_dependsOn = [],
      sc_output = OM_Auto, sc_outputPath = '''', sc_memoryMax = 0, sc_cpuMaxPercent = 0\<rparr>"

record ManagerSettings =
  ms_healthEndpoint :: string
  ms_reportEndpoint :: string
  ms_commandEndpoint :: string
  ms_publishInterval :: millis
  ms_logLevel :: LogLevel
  ms_cgroups :: CgroupMode
  ms_gpu :: GpuMode

definition default_ManagerSettings :: ManagerSettings where
  "default_ManagerSettings =
     \<lparr>ms_healthEndpoint = ''tcp://*:6667'', ms_reportEndpoint = ''tcp://*:6668'',
      ms_commandEndpoint = ''tcp://*:5557'', ms_publishInterval = 1000, ms_logLevel = LL_Info,
      ms_cgroups = CM_Auto, ms_gpu = GM_Auto\<rparr>"

record Config =
  cf_path :: string
  cf_manager :: ManagerSettings
  cf_services :: "ServiceConfig list"

definition default_Config :: Config where
  "default_Config = \<lparr>cf_path = '''', cf_manager = default_ManagerSettings, cf_services = []\<rparr>"

fun SameEnvironment :: "EnvironmentVariable list \<Rightarrow> EnvironmentVariable list \<Rightarrow> bool" where
  "SameEnvironment [] [] = True"
| "SameEnvironment (a # as) (b # bs) =
     (ev_name a = ev_name b \<and> ev_value a = ev_value b \<and> SameEnvironment as bs)"
| "SameEnvironment _ _ = False"

definition SameServiceConfig :: "ServiceConfig \<Rightarrow> ServiceConfig \<Rightarrow> bool" where
  "SameServiceConfig a b \<longleftrightarrow>
     sc_name a = sc_name b \<and> sc_description a = sc_description b \<and> sc_binary a = sc_binary b
     \<and> sc_arguments a = sc_arguments b \<and> sc_workingDirectory a = sc_workingDirectory b
     \<and> SameEnvironment (sc_environment a) (sc_environment b) \<and> sc_autostart a = sc_autostart b
     \<and> sc_restart a = sc_restart b \<and> sc_restartDelay a = sc_restartDelay b
     \<and> sc_restartDelayMax a = sc_restartDelayMax b \<and> sc_maxRestarts a = sc_maxRestarts b
     \<and> sc_restartWindow a = sc_restartWindow b \<and> sc_startGrace a = sc_startGrace b
     \<and> sc_stopSignal a = sc_stopSignal b \<and> sc_stopTimeout a = sc_stopTimeout b
     \<and> sc_heartbeatInterval a = sc_heartbeatInterval b
     \<and> sc_heartbeatTolerance a = sc_heartbeatTolerance b
     \<and> sc_unhealthyAction a = sc_unhealthyAction b \<and> sc_dependsOn a = sc_dependsOn b
     \<and> sc_output a = sc_output b \<and> sc_outputPath a = sc_outputPath b
     \<and> sc_memoryMax a = sc_memoryMax b \<and> sc_cpuMaxPercent a = sc_cpuMaxPercent b"

text \<open>A null pointer is \<open>None\<close>.\<close>

definition FindService :: "Config \<Rightarrow> string \<Rightarrow> ServiceConfig option" where
  "FindService config n = find (\<lambda>s. sc_name s = n) (cf_services config)"

definition IsNameCharacter :: "char \<Rightarrow> bool" where
  "IsNameCharacter c \<longleftrightarrow>
     (char_code (CHR ''a'') \<le> char_code c \<and> char_code c \<le> char_code (CHR ''z''))
     \<or> (char_code (CHR ''A'') \<le> char_code c \<and> char_code c \<le> char_code (CHR ''Z''))
     \<or> (char_code (CHR ''0'') \<le> char_code c \<and> char_code c \<le> char_code (CHR ''9''))
     \<or> c = CHR ''_'' \<or> c = CHR ''.'' \<or> c = CHR ''-''"

definition IsValidServiceName :: "string \<Rightarrow> bool" where
  "IsValidServiceName n \<longleftrightarrow>
     \<not> (n = [] \<or> length n > max_service_name_length \<or> n = ''.'' \<or> n = ''..'')
     \<and> list_all IsNameCharacter n"

fun RestartModeName :: "RestartMode \<Rightarrow> string" where
  "RestartModeName Never = ''never''"
| "RestartModeName OnFailure = ''on-failure''"
| "RestartModeName Always = ''always''"

definition ParseRestartMode :: "string \<Rightarrow> RestartMode option" where
  "ParseRestartMode s =
     (if s = ''never'' \<or> s = ''no'' then Some Never
      else if s = ''on-failure'' then Some OnFailure
      else if s = ''always'' then Some Always
      else None)"

fun RestartMode_byte :: "RestartMode \<Rightarrow> byte" where
  "RestartMode_byte Never = 0"
| "RestartMode_byte OnFailure = 1"
| "RestartMode_byte Always = 2"

definition RestartModeFromByte :: "byte \<Rightarrow> RestartMode option" where
  "RestartModeFromByte v =
     (if v > RestartMode_byte Always then None else Some ([Never, OnFailure, Always] ! unat v))"

fun StopSignalName :: "StopSignal \<Rightarrow> string" where
  "StopSignalName SS_Terminate = ''TERM''"
| "StopSignalName SS_Interrupt = ''INT''"
| "StopSignalName SS_Hangup = ''HUP''"
| "StopSignalName SS_Quit = ''QUIT''"
| "StopSignalName SS_Kill = ''KILL''"
| "StopSignalName SS_User1 = ''USR1''"
| "StopSignalName SS_User2 = ''USR2''"

definition ParseStopSignal :: "string \<Rightarrow> StopSignal option" where
  "ParseStopSignal s =
     (let t = (if length s > 3 \<and> take 3 s = ''SIG'' then drop 3 s else s)
      in find (\<lambda>sig. StopSignalName sig = t)
           [SS_Terminate, SS_Interrupt, SS_Hangup, SS_Quit, SS_Kill, SS_User1, SS_User2])"

lemma SameEnvironment_eq [simp]: "SameEnvironment a b \<longleftrightarrow> a = b"
  by (induction a b rule: SameEnvironment.induct) auto

lemma SameServiceConfig_iff: "SameServiceConfig a b \<longleftrightarrow> a = b"
  by (auto simp: SameServiceConfig_def intro: ServiceConfig.equality)

lemma RestartModeFromByte_byte [simp]: "RestartModeFromByte (RestartMode_byte m) = Some m"
  by (cases m) (simp_all add: RestartModeFromByte_def)

lemma ParseRestartMode_Name [simp]: "ParseRestartMode (RestartModeName m) = Some m"
  by (cases m) (auto simp: ParseRestartMode_def)

lemma ParseStopSignal_Name [simp]: "ParseStopSignal (StopSignalName sig) = Some sig"
  by (cases sig) (auto simp: ParseStopSignal_def)

lemma ParseStopSignal_SIG [simp]: "ParseStopSignal (''SIG'' @ StopSignalName sig) = Some sig"
  by (cases sig) (auto simp: ParseStopSignal_def)

lemma valid_name_fits: "IsValidServiceName n \<Longrightarrow> 0 < length n \<and> length n < 32 \<and> CHR 0x00 \<notin> set n"
  by (auto simp: IsValidServiceName_def max_service_name_length_def list_all_iff IsNameCharacter_def
      char_code_def)

lemma valid_name_not_star: "IsValidServiceName n \<Longrightarrow> n \<noteq> ''*''"
  by (auto simp: IsValidServiceName_def IsNameCharacter_def char_code_def)

lemma FindService_Some:
  "FindService c n = Some s \<Longrightarrow> s \<in> set (cf_services c) \<and> sc_name s = n"
  by (auto simp: FindService_def find_Some_iff)

lemma FindService_None: "FindService c n = None \<longleftrightarrow> n \<notin> sc_name ` set (cf_services c)"
  by (auto simp: FindService_def find_None_iff)

end
