(* ===== verification/Command_Message.thy ===== *)
theory Command_Message
  imports Wire
begin

text \<open>
  The command and its reply (\<open>src/manager/include/CommandMessage.hpp\<close>, \<open>CommandMessage.cpp\<close>):
  codes and results, the 65-byte command and the 128-byte reply with their encoders and
  decoders. Both are interpretations of \<open>wire_record\<close>, which gives their round trips.
\<close>

definition command_message_size :: nat where "command_message_size = 65"
definition command_reply_size :: nat where "command_reply_size = 128"
definition command_name_size :: nat where "command_name_size = 32"
definition command_args_size :: nat where "command_args_size = 32"
definition reply_message_size :: nat where "reply_message_size = 94"
definition command_tag :: string where "command_tag = ''BPM''"
definition all_services :: string where "all_services = ''*''"

lemmas message_sizes = command_message_size_def command_reply_size_def command_name_size_def
  command_args_size_def reply_message_size_def

datatype CommandCode = CC_Start | CC_Stop | CC_Restart | CC_Heartbeat | CC_Reload

datatype CommandResult =
  CR_Ok | CR_UnknownService | CR_UnknownCommand | CR_Malformed | CR_AlreadyInState
  | CR_InvalidState | CR_LaunchFailed | CR_ShuttingDown | CR_ReloadFailed

record CommandMessage =
  cm_command :: byte
  cm_serviceName :: string
  cm_args :: string

record CommandReply =
  cr_command :: byte
  cr_result :: CommandResult
  cr_serviceName :: string
  cr_message :: string

fun CommandCode_byte :: "CommandCode \<Rightarrow> byte" where
  "CommandCode_byte CC_Start = 78"
| "CommandCode_byte CC_Stop = 79"
| "CommandCode_byte CC_Restart = 81"
| "CommandCode_byte CC_Heartbeat = 90"
| "CommandCode_byte CC_Reload = 91"

fun CommandResult_byte :: "CommandResult \<Rightarrow> byte" where
  "CommandResult_byte CR_Ok = 0"
| "CommandResult_byte CR_UnknownService = 1"
| "CommandResult_byte CR_UnknownCommand = 2"
| "CommandResult_byte CR_Malformed = 3"
| "CommandResult_byte CR_AlreadyInState = 4"
| "CommandResult_byte CR_InvalidState = 5"
| "CommandResult_byte CR_LaunchFailed = 6"
| "CommandResult_byte CR_ShuttingDown = 7"
| "CommandResult_byte CR_ReloadFailed = 8"

definition CommandResultFromByte :: "byte \<Rightarrow> CommandResult" where
  "CommandResultFromByte v =
     (if v > CommandResult_byte CR_ReloadFailed then CR_Malformed
      else [CR_Ok, CR_UnknownService, CR_UnknownCommand, CR_Malformed, CR_AlreadyInState,
            CR_InvalidState, CR_LaunchFailed, CR_ShuttingDown, CR_ReloadFailed] ! unat v)"

definition put_command :: "CommandMessage \<Rightarrow> bytes \<Rightarrow> nat \<Rightarrow> bytes" where
  "put_command m b base =
     PutText (base + 33) command_args_size (cm_args m)
       (PutText (base + 1) command_name_size (cm_serviceName m)
          (PutU8 (base + 0) (cm_command m) b))"

definition EncodeCommand :: "CommandMessage \<Rightarrow> bytes" where
  "EncodeCommand m = put_command m (WireWriter command_message_size) 0"

definition get_command :: "bytes \<Rightarrow> nat \<Rightarrow> CommandMessage" where
  "get_command b base =
     (let reader = \<lparr>rd_bytes = b, rd_base = base, rd_size = command_message_size\<rparr>
      in \<lparr>cm_command = U8 reader 0,
          cm_serviceName = Reader_Text reader 1 command_name_size,
          cm_args = Reader_Text reader 33 command_args_size\<rparr>)"

definition DecodeCommand :: "bytes \<Rightarrow> DecodeCode + CommandMessage" where
  "DecodeCommand payload =
     (if length payload \<noteq> command_message_size then Inl BadLength
      else Inr (get_command payload 0))"

definition put_reply :: "CommandReply \<Rightarrow> bytes \<Rightarrow> nat \<Rightarrow> bytes" where
  "put_reply r b base =
     PutText (base + 34) reply_message_size (cr_message r)
       (PutText (base + 2) command_name_size (cr_serviceName r)
          (PutU8 (base + 1) (CommandResult_byte (cr_result r))
             (PutU8 (base + 0) (cr_command r) b)))"

definition EncodeReply :: "CommandReply \<Rightarrow> bytes" where
  "EncodeReply r = put_reply r (WireWriter command_reply_size) 0"

definition get_reply :: "bytes \<Rightarrow> nat \<Rightarrow> CommandReply" where
  "get_reply b base =
     (let reader = \<lparr>rd_bytes = b, rd_base = base, rd_size = command_reply_size\<rparr>
      in \<lparr>cr_command = U8 reader 0,
          cr_result = CommandResultFromByte (U8 reader 1),
          cr_serviceName = Reader_Text reader 2 command_name_size,
          cr_message = Reader_Text reader 34 reply_message_size\<rparr>)"

definition DecodeReply :: "bytes \<Rightarrow> DecodeCode + CommandReply" where
  "DecodeReply payload =
     (if length payload \<noteq> command_reply_size then Inl BadLength
      else Inr (get_reply payload 0))"

definition CommandCodeFromByte :: "byte \<Rightarrow> CommandCode option" where
  "CommandCodeFromByte v =
     (if v = CommandCode_byte CC_Start then Some CC_Start
      else if v = CommandCode_byte CC_Stop then Some CC_Stop
      else if v = CommandCode_byte CC_Restart then Some CC_Restart
      else if v = CommandCode_byte CC_Heartbeat then Some CC_Heartbeat
      else if v = CommandCode_byte CC_Reload then Some CC_Reload
      else None)"

fun CommandName :: "CommandCode \<Rightarrow> string" where
  "CommandName CC_Start = ''start''"
| "CommandName CC_Stop = ''stop''"
| "CommandName CC_Restart = ''restart''"
| "CommandName CC_Heartbeat = ''heartbeat''"
| "CommandName CC_Reload = ''reload''"

fun CommandResultName :: "CommandResult \<Rightarrow> string" where
  "CommandResultName CR_Ok = ''ok''"
| "CommandResultName CR_UnknownService = ''unknown service''"
| "CommandResultName CR_UnknownCommand = ''unknown command''"
| "CommandResultName CR_Malformed = ''malformed request''"
| "CommandResultName CR_AlreadyInState = ''nothing to do''"
| "CommandResultName CR_InvalidState = ''not possible now''"
| "CommandResultName CR_LaunchFailed = ''launch failed''"
| "CommandResultName CR_ShuttingDown = ''manager is shutting down''"
| "CommandResultName CR_ReloadFailed = ''reload failed''"

definition IsSuccess :: "CommandResult \<Rightarrow> bool" where
  "IsSuccess r \<longleftrightarrow> r = CR_Ok \<or> r = CR_AlreadyInState"

lemma CommandResultFromByte_byte [simp]: "CommandResultFromByte (CommandResult_byte r) = r"
  by (cases r) (simp_all add: CommandResultFromByte_def)

lemma CommandCodeFromByte_byte [simp]: "CommandCodeFromByte (CommandCode_byte c) = Some c"
  by (cases c) (simp_all add: CommandCodeFromByte_def)

lemma CommandCodeFromByte_Some: "CommandCodeFromByte v = Some c \<Longrightarrow> v = CommandCode_byte c"
  by (auto simp: CommandCodeFromByte_def split: if_splits)

section \<open>Round trips\<close>

definition command_fields :: "CommandMessage \<Rightarrow> (nat \<times> bytes) list" where
  "command_fields m =
     [(0, enc_u8 (cm_command m)), (1, text_field 32 (cm_serviceName m)),
      (33, text_field 32 (cm_args m))]"

definition norm_command :: "CommandMessage \<Rightarrow> CommandMessage" where
  "norm_command m = m\<lparr>cm_serviceName := text_norm 32 (cm_serviceName m),
                      cm_args := text_norm 32 (cm_args m)\<rparr>"

definition reply_fields :: "CommandReply \<Rightarrow> (nat \<times> bytes) list" where
  "reply_fields r =
     [(0, enc_u8 (cr_command r)), (1, enc_u8 (CommandResult_byte (cr_result r))),
      (2, text_field 32 (cr_serviceName r)), (34, text_field 94 (cr_message r))]"

definition norm_reply :: "CommandReply \<Rightarrow> CommandReply" where
  "norm_reply r = r\<lparr>cr_serviceName := text_norm 32 (cr_serviceName r),
                    cr_message := text_norm 94 (cr_message r)\<rparr>"

interpretation command_rec: wire_record command_fields 65 put_command get_command norm_command
proof
  fix base b m assume "base + 65 \<le> length (b :: bytes)"
  then show "put_command m b base = write_fields base (command_fields m) b"
    by (simp add: put_command_def command_fields_def message_sizes put_blits PutText_blit)
next
  fix m show "laid_out 0 (command_fields m) 65" by (simp add: command_fields_def)
next
  fix base b m
  assume len: "base + 65 \<le> length (b :: bytes)"
    and "\<And>o' e. (o', e) \<in> set (command_fields m) \<Longrightarrow> chunk (base + o') (length e) b = e"
  then have "list_all (\<lambda>(o', e). chunk (base + o') (length e) b = e) (command_fields m)"
    by (intro fields_read)
  moreover have "Reader_Size \<lparr>rd_bytes = b, rd_base = base, rd_size = 65\<rparr> = 65"
    using len by (auto simp: Reader_Size_def)
  ultimately show "get_command b base = norm_command m"
    by (simp add: get_command_def norm_command_def command_fields_def message_sizes Let_def
        read_chunks Reader_Text_chunk field_text_text_field)
qed

interpretation reply_rec: wire_record reply_fields 128 put_reply get_reply norm_reply
proof
  fix base b r assume "base + 128 \<le> length (b :: bytes)"
  then show "put_reply r b base = write_fields base (reply_fields r) b"
    by (simp add: put_reply_def reply_fields_def message_sizes put_blits PutText_blit)
next
  fix r show "laid_out 0 (reply_fields r) 128" by (simp add: reply_fields_def)
next
  fix base b r
  assume len: "base + 128 \<le> length (b :: bytes)"
    and "\<And>o' e. (o', e) \<in> set (reply_fields r) \<Longrightarrow> chunk (base + o') (length e) b = e"
  then have "list_all (\<lambda>(o', e). chunk (base + o') (length e) b = e) (reply_fields r)"
    by (intro fields_read)
  moreover have "Reader_Size \<lparr>rd_bytes = b, rd_base = base, rd_size = 128\<rparr> = 128"
    using len by (auto simp: Reader_Size_def)
  ultimately show "get_reply b base = norm_reply r"
    by (simp add: get_reply_def norm_reply_def reply_fields_def message_sizes Let_def
        read_chunks Reader_Text_chunk field_text_text_field)
qed

lemma length_EncodeCommand: "length (EncodeCommand m) = 65"
  by (simp add: EncodeCommand_def WireWriter_def message_sizes command_rec.length_put)

lemma length_EncodeReply: "length (EncodeReply r) = 128"
  by (simp add: EncodeReply_def WireWriter_def message_sizes reply_rec.length_put)

lemma Decode_EncodeCommand: "DecodeCommand (EncodeCommand m) = Inr (norm_command m)"
  using command_rec.get_put [of 0 "WireWriter 65" m]
  by (simp add: DecodeCommand_def length_EncodeCommand message_sizes)
    (simp add: EncodeCommand_def message_sizes WireWriter_def)

lemma Decode_EncodeReply: "DecodeReply (EncodeReply r) = Inr (norm_reply r)"
  using reply_rec.get_put [of 0 "WireWriter 128" r]
  by (simp add: DecodeReply_def length_EncodeReply message_sizes)
    (simp add: EncodeReply_def message_sizes WireWriter_def)

section \<open>Properties\<close>

text \<open>
  C24: a command and a reply decode to what was encoded, up to the cut of a text that does not fit
  its field: in particular the command byte, the result and every service name of up to 31 bytes arrive.
\<close>

theorem message_round_trip:
  "DecodeCommand (EncodeCommand m) = Inr (norm_command m)
   \<and> DecodeReply (EncodeReply r) = Inr (norm_reply r)
   \<and> (text_fits command_name_size (cm_serviceName m) \<longrightarrow> cm_serviceName (norm_command m) = cm_serviceName m)
   \<and> cm_command (norm_command m) = cm_command m \<and> cr_result (norm_reply r) = cr_result r"
  using Decode_EncodeCommand [of m] Decode_EncodeReply [of r]
  by (simp add: norm_command_def norm_reply_def command_name_size_def)

theorem message_round_trip_witness:
  "cm_serviceName (norm_command \<lparr>cm_command = CommandCode_byte CC_Start, cm_serviceName = ''camera'',
     cm_args = []\<rparr>) = ''camera''"
proof -
  let ?m = "\<lparr>cm_command = CommandCode_byte CC_Start, cm_serviceName = ''camera'', cm_args = []\<rparr>"
  have "text_fits command_name_size (cm_serviceName ?m)" by (simp add: text_fits_def command_name_size_def)
  then show ?thesis using message_round_trip [of ?m] by simp
qed

end
