(* ===== verification/Health_Record.thy ===== *)
theory Health_Record
  imports Wire Service_State
begin

text \<open>
  The simplified health report (\<open>src/manager/include/HealthRecord.hpp\<close>, \<open>HealthRecord.cpp\<close>):
  records of 128 bytes back to back, read back raw or behind a 32-bit count. The record is an
  interpretation of \<open>wire_record\<close>; a message the encoder made is never mistaken for one with a
  count, because 128 divides its length.
\<close>

definition health_record_size :: nat where "health_record_size = 128"
definition health_name_size :: nat where "health_name_size = 64"
definition max_health_records :: nat where "max_health_records = 10000"
definition count_prefix_size :: nat where "count_prefix_size = 4"

lemmas health_sizes = health_record_size_def health_name_size_def max_health_records_def
  count_prefix_size_def

record HealthRecord =
  hr_processName :: string
  hr_pid :: int
  hr_memoryUsageInBytes :: "64 word"
  hr_cpuUsageInUsec :: "64 word"
  hr_state :: RuntimeState
  hr_startTime :: int
  hr_lastSeen :: int
  hr_missedBeats :: int
  hr_restartCount :: int
  hr_snapshotTime :: int

definition EncodeOne :: "HealthRecord \<Rightarrow> bytes \<Rightarrow> nat \<Rightarrow> bytes" where
  "EncodeOne r b base =
     PutI64 (base + 120) (hr_snapshotTime r)
     (PutI32 (base + 116) (hr_restartCount r)
     (PutI32 (base + 112) (hr_missedBeats r)
     (PutI64 (base + 104) (hr_lastSeen r)
     (PutI64 (base + 96) (hr_startTime r)
     (PutU8 (base + 88) (RuntimeState_byte (hr_state r))
     (PutU64 (base + 80) (hr_cpuUsageInUsec r)
     (PutU64 (base + 72) (hr_memoryUsageInBytes r)
     (PutI32 (base + 64) (hr_pid r)
     (PutText (base + 0) health_name_size (hr_processName r) b)))))))))"

definition DecodeOne :: "bytes \<Rightarrow> nat \<Rightarrow> HealthRecord" where
  "DecodeOne b base =
     (let reader = \<lparr>rd_bytes = b, rd_base = base, rd_size = health_record_size\<rparr>
      in \<lparr>hr_processName = Reader_Text reader 0 health_name_size,
          hr_pid = I32 reader 64,
          hr_memoryUsageInBytes = U64 reader 72,
          hr_cpuUsageInUsec = U64 reader 80,
          hr_state = RuntimeStateFromByte (U8 reader 88),
          hr_startTime = I64 reader 96,
          hr_lastSeen = I64 reader 104,
          hr_missedBeats = I32 reader 112,
          hr_restartCount = I32 reader 116,
          hr_snapshotTime = I64 reader 120\<rparr>)"

definition EncodeHealthRecords :: "HealthRecord list \<Rightarrow> bytes" where
  "EncodeHealthRecords rs =
     put_all EncodeOne health_record_size rs (WireWriter (length rs * health_record_size)) 0"

text \<open>Where the records start and how many there are: behind a count, raw, or neither.\<close>

definition health_layout :: "bytes \<Rightarrow> DecodeCode + (nat \<times> nat)" where
  "health_layout payload =
     (let declared = unat (U32 \<lparr>rd_bytes = payload, rd_base = 0, rd_size = count_prefix_size\<rparr> 0)
      in if length payload \<ge> count_prefix_size \<and> declared < max_health_records
            \<and> length payload - count_prefix_size = declared * health_record_size
         then Inr (count_prefix_size, declared)
         else if length payload mod health_record_size \<noteq> 0 then Inl BadLength
         else Inr (0, length payload div health_record_size))"

definition DecodeHealthRecords :: "bytes \<Rightarrow> DecodeCode + HealthRecord list" where
  "DecodeHealthRecords payload =
     (if payload = [] then Inr []
      else case health_layout payload of
             Inl e \<Rightarrow> Inl e
           | Inr (base, count) \<Rightarrow> Inr (get_all DecodeOne health_record_size payload base count))"

section \<open>Round trip\<close>

definition health_fields :: "HealthRecord \<Rightarrow> (nat \<times> bytes) list" where
  "health_fields r =
     [(0, text_field 64 (hr_processName r)), (64, enc_u32 (word_of_int (hr_pid r))),
      (72, enc_u64 (hr_memoryUsageInBytes r)), (80, enc_u64 (hr_cpuUsageInUsec r)),
      (88, enc_u8 (RuntimeState_byte (hr_state r))), (96, enc_u64 (word_of_int (hr_startTime r))),
      (104, enc_u64 (word_of_int (hr_lastSeen r))), (112, enc_u32 (word_of_int (hr_missedBeats r))),
      (116, enc_u32 (word_of_int (hr_restartCount r))),
      (120, enc_u64 (word_of_int (hr_snapshotTime r)))]"

definition norm_health :: "HealthRecord \<Rightarrow> HealthRecord" where
  "norm_health r = r\<lparr>
     hr_processName := text_norm 64 (hr_processName r), hr_pid := norm32 (hr_pid r),
     hr_startTime := norm64 (hr_startTime r), hr_lastSeen := norm64 (hr_lastSeen r),
     hr_missedBeats := norm32 (hr_missedBeats r), hr_restartCount := norm32 (hr_restartCount r),
     hr_snapshotTime := norm64 (hr_snapshotTime r)\<rparr>"

text \<open>A record every field of which fits its place.\<close>

definition health_fits :: "HealthRecord \<Rightarrow> bool" where
  "health_fits r \<longleftrightarrow> text_fits 64 (hr_processName r) \<and> is_int32 (hr_pid r)
     \<and> is_int64 (hr_startTime r) \<and> is_int64 (hr_lastSeen r) \<and> is_int32 (hr_missedBeats r)
     \<and> is_int32 (hr_restartCount r) \<and> is_int64 (hr_snapshotTime r)"

lemma norm_health_fits [simp]: "health_fits r \<Longrightarrow> norm_health r = r"
  by (simp add: norm_health_def health_fits_def)

interpretation health_rec: wire_record health_fields 128 EncodeOne DecodeOne norm_health
proof
  fix base b r assume "base + 128 \<le> length (b :: bytes)"
  then show "EncodeOne r b base = write_fields base (health_fields r) b"
    by (simp add: EncodeOne_def health_fields_def health_sizes put_blits PutText_blit)
next
  fix r show "laid_out 0 (health_fields r) 128" by (simp add: health_fields_def)
next
  fix base b r
  assume len: "base + 128 \<le> length (b :: bytes)"
    and "\<And>o' e. (o', e) \<in> set (health_fields r) \<Longrightarrow> chunk (base + o') (length e) b = e"
  then have "list_all (\<lambda>(o', e). chunk (base + o') (length e) b = e) (health_fields r)"
    by (intro fields_read)
  moreover have "Reader_Size \<lparr>rd_bytes = b, rd_base = base, rd_size = 128\<rparr> = 128"
    using len by (auto simp: Reader_Size_def)
  ultimately show "DecodeOne b base = norm_health r"
    by (simp add: DecodeOne_def norm_health_def health_fields_def health_sizes Let_def
        read_chunks Reader_Text_chunk field_text_text_field norm32_def norm64_def)
qed

lemma length_EncodeHealthRecords: "length (EncodeHealthRecords rs) = length rs * 128"
  unfolding EncodeHealthRecords_def health_sizes WireWriter_def
  by (subst health_rec.length_put_all) simp_all

lemma health_not_prefixed: "\<not> (4 \<le> n * 128 \<and> n * 128 - 4 = m * (128 :: nat))"
proof
  assume "4 \<le> n * 128 \<and> n * 128 - 4 = m * 128"
  then have "(m * 128 + 4) mod 128 = n * 128 mod 128" by (metis add.commute le_add_diff_inverse)
  then show False by simp
qed

lemma health_layout_raw:
  "length payload = n * 128 \<Longrightarrow> health_layout payload = Inr (0, n)"
  using health_not_prefixed [of n] by (auto simp: health_layout_def Let_def health_sizes)

lemma Decode_EncodeHealthRecords: "DecodeHealthRecords (EncodeHealthRecords rs) = Inr (map norm_health rs)"
proof (cases "rs = []")
  case True
  then show ?thesis by (simp add: DecodeHealthRecords_def EncodeHealthRecords_def WireWriter_def)
next
  case False
  let ?p = "EncodeHealthRecords rs"
  have "?p \<noteq> []" using False length_EncodeHealthRecords [of rs] by auto
  moreover have "get_all DecodeOne 128 ?p 0 (length rs) = map norm_health rs"
    unfolding EncodeHealthRecords_def health_sizes
    by (rule health_rec.get_all_put_all) (simp add: WireWriter_def)
  ultimately show ?thesis
    by (simp add: DecodeHealthRecords_def health_layout_raw [OF length_EncodeHealthRecords]
        health_sizes)
qed

text \<open>The form with a count in front is read as the same records.\<close>

lemma health_layout_prefixed:
  assumes "length payload = 4 + n * 128" and "chunk 0 4 payload = enc_u32 (word_of_nat n)"
    and "n < max_health_records"
  shows "health_layout payload = Inr (4, n)"
proof -
  let ?r = "\<lparr>rd_bytes = payload, rd_base = 0, rd_size = 4\<rparr>"
  have "Reader_Size ?r = 4" using assms by (simp add: Reader_Size_def)
  then have "unat (U32 ?r 0) = n"
    using assms by (simp add: read_chunks health_sizes unat_of_nat)
  with assms show ?thesis by (simp add: health_layout_def Let_def health_sizes)
qed

lemma Decode_prefixed_records:
  assumes "length rs < max_health_records"
  shows "DecodeHealthRecords (enc_u32 (word_of_nat (length rs)) @ EncodeHealthRecords rs)
    = Inr (map norm_health rs)"
proof -
  let ?e = "EncodeHealthRecords rs" and ?c = "enc_u32 (word_of_nat (length rs))"
  have "laid_records health_fields 128 128 rs ?e 0"
    unfolding EncodeHealthRecords_def health_sizes
    by (rule health_rec.laid_put_all) (simp add: WireWriter_def)
  then have "get_all DecodeOne 128 (?c @ ?e) 4 (length rs) = map norm_health rs"
    using health_rec.get_all_laid [OF laid_records_append, of 128 rs ?e 0 ?c] by simp
  moreover have "?c \<noteq> []" by (simp add: enc_u32_def le_bytes_def)
  moreover have "health_layout (?c @ ?e) = Inr (4, length rs)"
    using assms by (intro health_layout_prefixed) (simp_all add: length_EncodeHealthRecords chunk_def)
  ultimately show ?thesis by (simp add: DecodeHealthRecords_def health_sizes)
qed

section \<open>Properties\<close>

text \<open>
  C23: the health records that the manager publishes decode to themselves, up to the cut of a name
  that does not fit its field; the older form with a record count in front decodes to the same
  records.
\<close>

theorem health_round_trip:
  "DecodeHealthRecords (EncodeHealthRecords rs) = Inr (map norm_health rs)
   \<and> (length rs < max_health_records \<longrightarrow>
        DecodeHealthRecords (enc_u32 (word_of_nat (length rs)) @ EncodeHealthRecords rs)
          = Inr (map norm_health rs))
   \<and> (list_all health_fits rs \<longrightarrow> map norm_health rs = rs)"
  using Decode_EncodeHealthRecords [of rs] Decode_prefixed_records [of rs]
  by (auto simp: list_all_iff map_idI)

definition sample_health :: HealthRecord where
  "sample_health =
     \<lparr>hr_processName = ''camera'', hr_pid = 4711, hr_memoryUsageInBytes = 1048576,
      hr_cpuUsageInUsec = 5, hr_state = RS_Running, hr_startTime = 1700000000000000000,
      hr_lastSeen = 1700000001000000000, hr_missedBeats = 0, hr_restartCount = 2,
      hr_snapshotTime = 1700000002000000000\<rparr>"

theorem health_round_trip_witness:
  "DecodeHealthRecords (enc_u32 1 @ EncodeHealthRecords [sample_health]) = Inr [sample_health]"
proof -
  have "health_fits sample_health"
    by (simp add: health_fits_def sample_health_def text_fits_def is_int32_def is_int64_def)
  moreover have "length [sample_health] < max_health_records" by (simp add: max_health_records_def)
  ultimately show ?thesis using health_round_trip [of "[sample_health]"] by simp
qed

end
