(* ===== verification/Detailed_Report.thy ===== *)
theory Detailed_Report
  imports Wire Service_State Service_Config
begin

text \<open>
  The detailed report (\<open>src/manager/include/DetailedReport.hpp\<close>, \<open>DetailedReport.cpp\<close>): a
  192-byte header, service records of 368 bytes and GPU records of 160 bytes. The header carries
  the sizes, so that a reader copes with records a later version made longer: \<open>report_layout\<close>
  states where a payload with any such sizes keeps its fields, and the decoder is shown to read
  exactly that.
\<close>

definition report_magic :: "32 word" where "report_magic = 0x524D5042"
definition report_version :: "16 word" where "report_version = 1"
definition report_header_size :: nat where "report_header_size = 192"
definition service_record_size :: nat where "service_record_size = 368"
definition gpu_record_size :: nat where "gpu_record_size = 160"
definition report_name_size :: nat where "report_name_size = 32"
definition report_binary_size :: nat where "report_binary_size = 128"
definition report_description_size :: nat where "report_description_size = 64"
definition report_host_size :: nat where "report_host_size = 64"
definition report_manager_version_size :: nat where "report_manager_version_size = 16"
definition gpu_name_size :: nat where "gpu_name_size = 64"
definition gpu_uuid_size :: nat where "gpu_uuid_size = 48"
definition max_report_records :: nat where "max_report_records = 100000"

definition service_flag_autostart :: byte where "service_flag_autostart = 0x01"
definition service_flag_heartbeat :: byte where "service_flag_heartbeat = 0x02"
definition service_flag_cgroup :: byte where "service_flag_cgroup = 0x04"
definition service_flag_usage :: byte where "service_flag_usage = 0x08"
definition service_flag_gpu :: byte where "service_flag_gpu = 0x10"
definition service_flag_removing :: byte where "service_flag_removing = 0x20"

definition report_flag_cgroups :: "32 word" where "report_flag_cgroups = 0x1"
definition report_flag_gpu :: "32 word" where "report_flag_gpu = 0x2"
definition report_flag_stopping :: "32 word" where "report_flag_stopping = 0x4"
definition report_flag_windows :: "32 word" where "report_flag_windows = 0x8"

lemmas report_sizes = report_magic_def report_version_def report_header_size_def
  service_record_size_def gpu_record_size_def report_name_size_def report_binary_size_def
  report_description_size_def report_host_size_def report_manager_version_size_def
  gpu_name_size_def gpu_uuid_size_def max_report_records_def

record SystemRecord =
  sy_cpuPercent :: double
  sy_memoryTotalBytes :: "64 word"
  sy_memoryAvailableBytes :: "64 word"
  sy_loadAverage1 :: double
  sy_loadAverage5 :: double
  sy_loadAverage15 :: double
  sy_uptimeSeconds :: "64 word"
  sy_cpuCount :: "32 word"

definition default_SystemRecord :: SystemRecord where
  "default_SystemRecord =
     \<lparr>sy_cpuPercent = double_minus_one, sy_memoryTotalBytes = 0, sy_memoryAvailableBytes = 0,
      sy_loadAverage1 = double_zero, sy_loadAverage5 = double_zero, sy_loadAverage15 = double_zero,
      sy_uptimeSeconds = 0, sy_cpuCount = 0\<rparr>"

record ServiceRecord =
  sr_name :: string
  sr_binary :: string
  sr_description :: string
  sr_pid :: int
  sr_state :: ServiceState
  sr_restartMode :: RestartMode
  sr_flags :: byte
  sr_restartCount :: int
  sr_missedBeats :: int
  sr_lastExitCode :: int
  sr_processCount :: int
  sr_threadCount :: int
  sr_openFiles :: int
  sr_startTime :: int
  sr_lastSeen :: int
  sr_lastExitTime :: int
  sr_nextRestartTime :: int
  sr_cpuTimeUsec :: "64 word"
  sr_cpuPercent :: double
  sr_memoryBytes :: "64 word"
  sr_memoryPeakBytes :: "64 word"
  sr_memoryLimitBytes :: "64 word"
  sr_ioReadBytes :: "64 word"
  sr_ioWriteBytes :: "64 word"
  sr_gpuPercent :: double
  sr_gpuMemoryBytes :: "64 word"
  sr_oomKills :: "32 word"
  sr_cpuLimitPercent :: "32 word"

record GpuRecord =
  gr_name :: string
  gr_uuid :: string
  gr_index :: "32 word"
  gr_temperatureC :: "32 word"
  gr_utilizationPercent :: double
  gr_memoryUtilizationPercent :: double
  gr_memoryTotalBytes :: "64 word"
  gr_memoryUsedBytes :: "64 word"
  gr_powerMilliwatts :: "32 word"

record DetailedReport =
  dr_managerPid :: int
  dr_snapshotTime :: int
  dr_managerStartTime :: int
  dr_publishIntervalMs :: "32 word"
  dr_flags :: "32 word"
  dr_system :: SystemRecord
  dr_hostName :: string
  dr_managerVersion :: string
  dr_services :: "ServiceRecord list"
  dr_gpus :: "GpuRecord list"

section \<open>Records\<close>

definition EncodeService :: "ServiceRecord \<Rightarrow> bytes \<Rightarrow> nat \<Rightarrow> bytes" where
  "EncodeService r b base =
     PutU32 (base + 364) (sr_cpuLimitPercent r)
     (PutU32 (base + 360) (sr_oomKills r)
     (PutU64 (base + 352) (sr_gpuMemoryBytes r)
     (PutF64 (base + 344) (sr_gpuPercent r)
     (PutU64 (base + 336) (sr_ioWriteBytes r)
     (PutU64 (base + 328) (sr_ioReadBytes r)
     (PutU64 (base + 320) (sr_memoryLimitBytes r)
     (PutU64 (base + 312) (sr_memoryPeakBytes r)
     (PutU64 (base + 304) (sr_memoryBytes r)
     (PutF64 (base + 296) (sr_cpuPercent r)
     (PutU64 (base + 288) (sr_cpuTimeUsec r)
     (PutI64 (base + 280) (sr_nextRestartTime r)
     (PutI64 (base + 272) (sr_lastExitTime r)
     (PutI64 (base + 264) (sr_lastSeen r)
     (PutI64 (base + 256) (sr_startTime r)
     (PutI32 (base + 252) (sr_openFiles r)
     (PutI32 (base + 248) (sr_threadCount r)
     (PutI32 (base + 244) (sr_processCount r)
     (PutI32 (base + 240) (sr_lastExitCode r)
     (PutI32 (base + 236) (sr_missedBeats r)
     (PutI32 (base + 232) (sr_restartCount r)
     (PutU8 (base + 230) (sr_flags r)
     (PutU8 (base + 229) (RestartMode_byte (sr_restartMode r))
     (PutU8 (base + 228) (ServiceState_byte (sr_state r))
     (PutI32 (base + 224) (sr_pid r)
     (PutText (base + 160) report_description_size (sr_description r)
     (PutText (base + 32) report_binary_size (sr_binary r)
     (PutText (base + 0) report_name_size (sr_name r) b)))))))))))))))))))))))))))"

definition DecodeService :: "WireReader \<Rightarrow> ServiceRecord" where
  "DecodeService reader =
     \<lparr>sr_name = Reader_Text reader 0 report_name_size,
      sr_binary = Reader_Text reader 32 report_binary_size,
      sr_description = Reader_Text reader 160 report_description_size,
      sr_pid = I32 reader 224,
      sr_state = (case ServiceStateFromByte (U8 reader 228) of Some s \<Rightarrow> s | None \<Rightarrow> Stopped),
      sr_restartMode = (case RestartModeFromByte (U8 reader 229) of Some m \<Rightarrow> m | None \<Rightarrow> Never),
      sr_flags = U8 reader 230,
      sr_restartCount = I32 reader 232,
      sr_missedBeats = I32 reader 236,
      sr_lastExitCode = I32 reader 240,
      sr_processCount = I32 reader 244,
      sr_threadCount = I32 reader 248,
      sr_openFiles = I32 reader 252,
      sr_startTime = I64 reader 256,
      sr_lastSeen = I64 reader 264,
      sr_lastExitTime = I64 reader 272,
      sr_nextRestartTime = I64 reader 280,
      sr_cpuTimeUsec = U64 reader 288,
      sr_cpuPercent = F64 reader 296,
      sr_memoryBytes = U64 reader 304,
      sr_memoryPeakBytes = U64 reader 312,
      sr_memoryLimitBytes = U64 reader 320,
      sr_ioReadBytes = U64 reader 328,
      sr_ioWriteBytes = U64 reader 336,
      sr_gpuPercent = F64 reader 344,
      sr_gpuMemoryBytes = U64 reader 352,
      sr_oomKills = U32 reader 360,
      sr_cpuLimitPercent = U32 reader 364\<rparr>"

definition EncodeGpu :: "GpuRecord \<Rightarrow> bytes \<Rightarrow> nat \<Rightarrow> bytes" where
  "EncodeGpu r b base =
     PutU32 (base + 152) (gr_powerMilliwatts r)
     (PutU64 (base + 144) (gr_memoryUsedBytes r)
     (PutU64 (base + 136) (gr_memoryTotalBytes r)
     (PutF64 (base + 128) (gr_memoryUtilizationPercent r)
     (PutF64 (base + 120) (gr_utilizationPercent r)
     (PutU32 (base + 116) (gr_temperatureC r)
     (PutU32 (base + 112) (gr_index r)
     (PutText (base + 64) gpu_uuid_size (gr_uuid r)
     (PutText (base + 0) gpu_name_size (gr_name r) b))))))))"

definition DecodeGpu :: "WireReader \<Rightarrow> GpuRecord" where
  "DecodeGpu reader =
     \<lparr>gr_name = Reader_Text reader 0 gpu_name_size,
      gr_uuid = Reader_Text reader 64 gpu_uuid_size,
      gr_index = U32 reader 112,
      gr_temperatureC = U32 reader 116,
      gr_utilizationPercent = F64 reader 120,
      gr_memoryUtilizationPercent = F64 reader 128,
      gr_memoryTotalBytes = U64 reader 136,
      gr_memoryUsedBytes = U64 reader 144,
      gr_powerMilliwatts = U32 reader 152\<rparr>"

section \<open>The report\<close>

text \<open>The header's own fields, then those of the report.\<close>

definition put_header :: "DetailedReport \<Rightarrow> bytes \<Rightarrow> nat \<Rightarrow> bytes" where
  "put_header r b base =
     PutText (base + 176) report_manager_version_size (dr_managerVersion r)
     (PutText (base + 112) report_host_size (dr_hostName r)
     (PutU32 (base + 104) (sy_cpuCount (dr_system r))
     (PutU64 (base + 96) (sy_uptimeSeconds (dr_system r))
     (PutF64 (base + 88) (sy_loadAverage15 (dr_system r))
     (PutF64 (base + 80) (sy_loadAverage5 (dr_system r))
     (PutF64 (base + 72) (sy_loadAverage1 (dr_system r))
     (PutU64 (base + 64) (sy_memoryAvailableBytes (dr_system r))
     (PutU64 (base + 56) (sy_memoryTotalBytes (dr_system r))
     (PutF64 (base + 48) (sy_cpuPercent (dr_system r))
     (PutU32 (base + 44) (dr_flags r)
     (PutU32 (base + 40) (dr_publishIntervalMs r)
     (PutI64 (base + 32) (dr_managerStartTime r)
     (PutI64 (base + 24) (dr_snapshotTime r)
     (PutI32 (base + 20) (dr_managerPid r)
     (PutU32 (base + 16) (word_of_nat (length (dr_gpus r)))
     (PutU32 (base + 12) (word_of_nat (length (dr_services r)))
     (PutU16 (base + 10) (word_of_nat gpu_record_size)
     (PutU16 (base + 8) (word_of_nat service_record_size)
     (PutU16 (base + 6) (word_of_nat report_header_size)
     (PutU16 (base + 4) report_version
     (PutU32 (base + 0) report_magic b)))))))))))))))))))))"

definition EncodeReport :: "DetailedReport \<Rightarrow> bytes" where
  "EncodeReport r =
     (let total = report_header_size + length (dr_services r) * service_record_size
                  + length (dr_gpus r) * gpu_record_size;
          b = put_header r (WireWriter total) 0;
          b = put_all EncodeService service_record_size (dr_services r) b report_header_size
      in put_all EncodeGpu gpu_record_size (dr_gpus r) b
           (report_header_size + length (dr_services r) * service_record_size))"

definition get_header :: "WireReader \<Rightarrow> DetailedReport" where
  "get_header reader =
     \<lparr>dr_managerPid = I32 reader 20,
      dr_snapshotTime = I64 reader 24,
      dr_managerStartTime = I64 reader 32,
      dr_publishIntervalMs = U32 reader 40,
      dr_flags = U32 reader 44,
      dr_system =
        \<lparr>sy_cpuPercent = F64 reader 48,
         sy_memoryTotalBytes = U64 reader 56,
         sy_memoryAvailableBytes = U64 reader 64,
         sy_loadAverage1 = F64 reader 72,
         sy_loadAverage5 = F64 reader 80,
         sy_loadAverage15 = F64 reader 88,
         sy_uptimeSeconds = U64 reader 96,
         sy_cpuCount = U32 reader 104\<rparr>,
      dr_hostName = Reader_Text reader 112 report_host_size,
      dr_managerVersion = Reader_Text reader 176 report_manager_version_size,
      dr_services = [], dr_gpus = []\<rparr>"

definition DecodeReport :: "bytes \<Rightarrow> DecodeCode + DetailedReport" where
  "DecodeReport payload =
     (if length payload < report_header_size then Inl BadLength
      else let header = \<lparr>rd_bytes = payload, rd_base = 0, rd_size = length payload\<rparr>
      in if U32 header 0 \<noteq> report_magic then Inl BadMagic
      else if U16 header 4 \<noteq> report_version then Inl UnsupportedVersion
      else let headerSize = unat (U16 header 6);
               recordSize = unat (U16 header 8);
               gpuSize = unat (U16 header 10);
               serviceCount = unat (U32 header 12);
               gpuCount = unat (U32 header 16)
      in if headerSize < report_header_size \<or> recordSize < service_record_size
            \<or> gpuSize < gpu_record_size then Inl BadLayout
      else if serviceCount > max_report_records \<or> gpuCount > max_report_records then Inl BadLength
      else if length payload \<noteq> headerSize + serviceCount * recordSize + gpuCount * gpuSize
        then Inl BadLength
      else Inr ((get_header header)
        \<lparr>dr_services := get_all (\<lambda>b base. DecodeService \<lparr>rd_bytes = b, rd_base = base, rd_size = recordSize\<rparr>)
                         recordSize payload headerSize serviceCount,
         dr_gpus := get_all (\<lambda>b base. DecodeGpu \<lparr>rd_bytes = b, rd_base = base, rd_size = gpuSize\<rparr>)
                      gpuSize payload (headerSize + serviceCount * recordSize) gpuCount\<rparr>))"

section \<open>Layout and round trip\<close>

definition service_fields :: "ServiceRecord \<Rightarrow> (nat \<times> bytes) list" where
  "service_fields r =
     [
      (0, text_field 32 (sr_name r)), (32, text_field 128 (sr_binary r)),
      (160, text_field 64 (sr_description r)), (224, enc_u32 (word_of_int (sr_pid r))),
      (228, enc_u8 (ServiceState_byte (sr_state r))),
      (229, enc_u8 (RestartMode_byte (sr_restartMode r))), (230, enc_u8 (sr_flags r)),
      (232, enc_u32 (word_of_int (sr_restartCount r))),
      (236, enc_u32 (word_of_int (sr_missedBeats r))),
      (240, enc_u32 (word_of_int (sr_lastExitCode r))),
      (244, enc_u32 (word_of_int (sr_processCount r))),
      (248, enc_u32 (word_of_int (sr_threadCount r))),
      (252, enc_u32 (word_of_int (sr_openFiles r))),
      (256, enc_u64 (word_of_int (sr_startTime r))),
      (264, enc_u64 (word_of_int (sr_lastSeen r))),
      (272, enc_u64 (word_of_int (sr_lastExitTime r))),
      (280, enc_u64 (word_of_int (sr_nextRestartTime r))), (288, enc_u64 (sr_cpuTimeUsec r)),
      (296, enc_u64 (sr_cpuPercent r)), (304, enc_u64 (sr_memoryBytes r)),
      (312, enc_u64 (sr_memoryPeakBytes r)), (320, enc_u64 (sr_memoryLimitBytes r)),
      (328, enc_u64 (sr_ioReadBytes r)), (336, enc_u64 (sr_ioWriteBytes r)),
      (344, enc_u64 (sr_gpuPercent r)), (352, enc_u64 (sr_gpuMemoryBytes r)),
      (360, enc_u32 (sr_oomKills r)), (364, enc_u32 (sr_cpuLimitPercent r))]"

definition norm_service :: "ServiceRecord \<Rightarrow> ServiceRecord" where
  "norm_service r = r\<lparr>
     sr_name := text_norm 32 (sr_name r), sr_binary := text_norm 128 (sr_binary r),
     sr_description := text_norm 64 (sr_description r), sr_pid := norm32 (sr_pid r),
     sr_restartCount := norm32 (sr_restartCount r), sr_missedBeats := norm32 (sr_missedBeats r),
     sr_lastExitCode := norm32 (sr_lastExitCode r),
     sr_processCount := norm32 (sr_processCount r), sr_threadCount := norm32 (sr_threadCount r),
     sr_openFiles := norm32 (sr_openFiles r), sr_startTime := norm64 (sr_startTime r),
     sr_lastSeen := norm64 (sr_lastSeen r), sr_lastExitTime := norm64 (sr_lastExitTime r),
     sr_nextRestartTime := norm64 (sr_nextRestartTime r)\<rparr>"

definition service_fits :: "ServiceRecord \<Rightarrow> bool" where
  "service_fits r \<longleftrightarrow>
     text_fits 32 (sr_name r) \<and> text_fits 128 (sr_binary r) \<and>
     text_fits 64 (sr_description r) \<and> is_int32 (sr_pid r) \<and>
     is_int32 (sr_restartCount r) \<and> is_int32 (sr_missedBeats r) \<and>
     is_int32 (sr_lastExitCode r) \<and> is_int32 (sr_processCount r) \<and>
     is_int32 (sr_threadCount r) \<and> is_int32 (sr_openFiles r) \<and>
     is_int64 (sr_startTime r) \<and> is_int64 (sr_lastSeen r) \<and>
     is_int64 (sr_lastExitTime r) \<and> is_int64 (sr_nextRestartTime r)"

definition gpu_fields :: "GpuRecord \<Rightarrow> (nat \<times> bytes) list" where
  "gpu_fields r =
     [
      (0, text_field 64 (gr_name r)), (64, text_field 48 (gr_uuid r)),
      (112, enc_u32 (gr_index r)), (116, enc_u32 (gr_temperatureC r)),
      (120, enc_u64 (gr_utilizationPercent r)), (128, enc_u64 (gr_memoryUtilizationPercent r)),
      (136, enc_u64 (gr_memoryTotalBytes r)), (144, enc_u64 (gr_memoryUsedBytes r)),
      (152, enc_u32 (gr_powerMilliwatts r))]"

definition norm_gpu :: "GpuRecord \<Rightarrow> GpuRecord" where
  "norm_gpu r = r\<lparr>
     gr_name := text_norm 64 (gr_name r), gr_uuid := text_norm 48 (gr_uuid r)\<rparr>"

text \<open>The header announces the sizes of the header and of both kinds of record.\<close>

definition header_fields :: "nat \<Rightarrow> nat \<Rightarrow> nat \<Rightarrow> DetailedReport \<Rightarrow> (nat \<times> bytes) list" where
  "header_fields headerSize recordSize gpuSize r =
     [(0, enc_u32 report_magic), (4, enc_u16 report_version), (6, enc_u16 (word_of_nat headerSize)),
      (8, enc_u16 (word_of_nat recordSize)), (10, enc_u16 (word_of_nat gpuSize)),
      (12, enc_u32 (word_of_nat (length (dr_services r)))),
      (16, enc_u32 (word_of_nat (length (dr_gpus r)))),
      (20, enc_u32 (word_of_int (dr_managerPid r))),
      (24, enc_u64 (word_of_int (dr_snapshotTime r))),
      (32, enc_u64 (word_of_int (dr_managerStartTime r))),
      (40, enc_u32 (dr_publishIntervalMs r)), (44, enc_u32 (dr_flags r)),
      (48, enc_u64 (sy_cpuPercent (dr_system r))),
      (56, enc_u64 (sy_memoryTotalBytes (dr_system r))),
      (64, enc_u64 (sy_memoryAvailableBytes (dr_system r))),
      (72, enc_u64 (sy_loadAverage1 (dr_system r))),
      (80, enc_u64 (sy_loadAverage5 (dr_system r))),
      (88, enc_u64 (sy_loadAverage15 (dr_system r))),
      (96, enc_u64 (sy_uptimeSeconds (dr_system r))), (104, enc_u32 (sy_cpuCount (dr_system r))),
      (112, text_field 64 (dr_hostName r)), (176, text_field 16 (dr_managerVersion r))]"

definition norm_report :: "DetailedReport \<Rightarrow> DetailedReport" where
  "norm_report r = r\<lparr>
     dr_managerPid := norm32 (dr_managerPid r), dr_snapshotTime := norm64 (dr_snapshotTime r),
     dr_managerStartTime := norm64 (dr_managerStartTime r),
     dr_hostName := text_norm 64 (dr_hostName r),
     dr_managerVersion := text_norm 16 (dr_managerVersion r),
     dr_services := map norm_service (dr_services r), dr_gpus := map norm_gpu (dr_gpus r)\<rparr>"

interpretation service_rec: wire_record service_fields 368 EncodeService
  "\<lambda>b base. DecodeService \<lparr>rd_bytes = b, rd_base = base, rd_size = 368 + extra\<rparr>" norm_service for extra
proof
  fix base b r assume "base + 368 \<le> length (b :: bytes)"
  then show "EncodeService r b base = write_fields base (service_fields r) b"
    unfolding EncodeService_def service_fields_def report_sizes
    by (intro writes_eq [of 368], unfold rev.simps append.simps)
      (intro writes_puts writes_Nil; simp)
next
  fix r show "laid_out 0 (service_fields r) 368" by (simp add: service_fields_def)
next
  fix base b r
  let ?reader = "\<lparr>rd_bytes = b, rd_base = base, rd_size = 368 + extra\<rparr>"
  assume len: "base + 368 \<le> length (b :: bytes)"
    and "\<And>o' e. (o', e) \<in> set (service_fields r) \<Longrightarrow> chunk (base + o') (length e) b = e"
  then have "list_all (\<lambda>(o', e). chunk (base + o') (length e) b = e) (service_fields r)"
    by (intro fields_read)
  moreover have "368 \<le> Reader_Size ?reader" using len by (auto simp: Reader_Size_def)
  ultimately show "DecodeService ?reader = norm_service r"
    by (simp add: DecodeService_def norm_service_def service_fields_def report_sizes
        read_chunks Reader_Text_chunk field_text_text_field norm32_def norm64_def)
qed

interpretation gpu_rec: wire_record gpu_fields 160 EncodeGpu
  "\<lambda>b base. DecodeGpu \<lparr>rd_bytes = b, rd_base = base, rd_size = 160 + extra\<rparr>" norm_gpu for extra
proof
  fix base b r assume "base + 160 \<le> length (b :: bytes)"
  then show "EncodeGpu r b base = write_fields base (gpu_fields r) b"
    unfolding EncodeGpu_def gpu_fields_def report_sizes
    by (intro writes_eq [of 160], unfold rev.simps append.simps)
      (intro writes_puts writes_Nil; simp)
next
  fix r show "laid_out 0 (gpu_fields r) 160" by (simp add: gpu_fields_def)
next
  fix base b r
  let ?reader = "\<lparr>rd_bytes = b, rd_base = base, rd_size = 160 + extra\<rparr>"
  assume len: "base + 160 \<le> length (b :: bytes)"
    and "\<And>o' e. (o', e) \<in> set (gpu_fields r) \<Longrightarrow> chunk (base + o') (length e) b = e"
  then have "list_all (\<lambda>(o', e). chunk (base + o') (length e) b = e) (gpu_fields r)"
    by (intro fields_read)
  moreover have "160 \<le> Reader_Size ?reader" using len by (auto simp: Reader_Size_def)
  ultimately show "DecodeGpu ?reader = norm_gpu r"
    by (simp add: DecodeGpu_def norm_gpu_def gpu_fields_def report_sizes
        read_chunks Reader_Text_chunk field_text_text_field norm32_def norm64_def)
qed

definition norm_header :: "DetailedReport \<Rightarrow> DetailedReport" where
  "norm_header r = (norm_report r)\<lparr>dr_services := [], dr_gpus := []\<rparr>"

lemma header_laid_out: "laid_out 0 (header_fields H R G r) 192"
  by (simp add: header_fields_def)

lemma get_header_fields:
  assumes "list_all (\<lambda>(o', e). chunk (base + o') (length e) b = e) (header_fields H R G r)"
    and "192 \<le> Reader_Size \<lparr>rd_bytes = b, rd_base = base, rd_size = sz\<rparr>"
  shows "get_header \<lparr>rd_bytes = b, rd_base = base, rd_size = sz\<rparr> = norm_header r"
  using assms
  by (simp add: get_header_def norm_header_def norm_report_def header_fields_def report_sizes
      read_chunks Reader_Text_chunk field_text_text_field norm32_def norm64_def)

interpretation header_rec: wire_record "header_fields 192 368 160" 192 put_header
  "\<lambda>b base. get_header \<lparr>rd_bytes = b, rd_base = base, rd_size = 192 + extra\<rparr>" norm_header for extra
proof
  fix base b r assume "base + 192 \<le> length (b :: bytes)"
  then show "put_header r b base = write_fields base (header_fields 192 368 160 r) b"
    unfolding put_header_def header_fields_def report_sizes
    by (intro writes_eq [of 192], unfold rev.simps append.simps)
      (intro writes_puts writes_Nil; simp)
next
  fix r show "laid_out 0 (header_fields 192 368 160 r) 192" by (rule header_laid_out)
next
  fix base b r
  assume len: "base + 192 \<le> length (b :: bytes)"
    and "\<And>o' e. (o', e) \<in> set (header_fields 192 368 160 r) \<Longrightarrow>
      chunk (base + o') (length e) b = e"
  then show "get_header \<lparr>rd_bytes = b, rd_base = base, rd_size = 192 + extra\<rparr> = norm_header r"
    by (intro get_header_fields fields_read) (auto simp: Reader_Size_def)
qed

text \<open>
  A payload that keeps the report \<open>r\<close> with a header of \<open>H\<close> bytes, service records of \<open>R\<close> bytes and
  GPU records of \<open>G\<close> bytes. What follows the known fields of each part is anything.
\<close>

definition report_layout :: "nat \<Rightarrow> nat \<Rightarrow> nat \<Rightarrow> DetailedReport \<Rightarrow> bytes \<Rightarrow> bool" where
  "report_layout H R G r p \<longleftrightarrow>
     192 \<le> H \<and> H < 2 ^ 16 \<and> 368 \<le> R \<and> R < 2 ^ 16 \<and> 160 \<le> G \<and> G < 2 ^ 16
     \<and> length p = H + length (dr_services r) * R + length (dr_gpus r) * G
     \<and> list_all (\<lambda>(o', e). chunk o' (length e) p = e) (header_fields H R G r)
     \<and> laid_records service_fields 368 R (dr_services r) p H
     \<and> laid_records gpu_fields 160 G (dr_gpus r) p (H + length (dr_services r) * R)"

definition report_countable :: "DetailedReport \<Rightarrow> bool" where
  "report_countable r \<longleftrightarrow>
     length (dr_services r) \<le> max_report_records \<and> length (dr_gpus r) \<le> max_report_records"

lemma Decode_report_layout:
  assumes lay: "report_layout H R G r p" and cnt: "report_countable r"
  shows "DecodeReport p = Inr (norm_report r)"
proof -
  let ?h = "\<lparr>rd_bytes = p, rd_base = 0, rd_size = length p\<rparr>"
  let ?n = "length (dr_services r)" and ?m = "length (dr_gpus r)"
  from lay have bounds: "192 \<le> H" "H < 65536" "368 \<le> R" "R < 65536" "160 \<le> G" "G < 65536"
    and len: "length p = H + ?n * R + ?m * G"
    and hf: "list_all (\<lambda>(o', e). chunk (0 + o') (length e) p = e) (header_fields H R G r)"
    and sl: "laid_records service_fields 368 R (dr_services r) p H"
    and gl: "laid_records gpu_fields 160 G (dr_gpus r) p (H + ?n * R)"
    by (simp_all add: report_layout_def)
  have le: "192 \<le> length p" using bounds len by simp
  then have size: "Reader_Size ?h = length p" "192 \<le> Reader_Size ?h" by (auto simp: Reader_Size_def)
  have heads: "U32 ?h 0 = report_magic" "U16 ?h 4 = report_version" "unat (U16 ?h 6) = H"
    "unat (U16 ?h 8) = R" "unat (U16 ?h 10) = G" "unat (U32 ?h 12) = ?n" "unat (U32 ?h 16) = ?m"
    using hf size le bounds cnt
    by (simp_all add: header_fields_def read_chunks unat_of_nat report_countable_def report_sizes)
  have services: "get_all (\<lambda>b base. DecodeService \<lparr>rd_bytes = b, rd_base = base, rd_size = R\<rparr>)
      R p H ?n = map norm_service (dr_services r)"
    using service_rec.get_all_laid [OF sl, of "R - 368"] bounds by simp
  have gpus: "get_all (\<lambda>b base. DecodeGpu \<lparr>rd_bytes = b, rd_base = base, rd_size = G\<rparr>)
      G p (H + ?n * R) ?m = map norm_gpu (dr_gpus r)"
    using gpu_rec.get_all_laid [OF gl, of "G - 160"] bounds by simp
  have head: "get_header ?h = norm_header r" by (rule get_header_fields [OF hf size(2)])
  have "DecodeReport p = Inr ((get_header ?h)\<lparr>dr_services := map norm_service (dr_services r),
      dr_gpus := map norm_gpu (dr_gpus r)\<rparr>)"
    using le heads bounds cnt len [symmetric] services gpus
    by (simp add: DecodeReport_def Let_def report_sizes report_countable_def)
  then show ?thesis by (simp add: head norm_header_def norm_report_def)
qed

lemma length_EncodeReport:
  "length (EncodeReport r) = 192 + length (dr_services r) * 368 + length (dr_gpus r) * 160"
  by (simp add: EncodeReport_def report_sizes Let_def WireWriter_def header_rec.length_put
      service_rec.length_put_all gpu_rec.length_put_all)

text \<open>The encoder's output has the layout with the sizes of this version.\<close>

lemma EncodeReport_layout: "report_layout 192 368 160 r (EncodeReport r)"
proof -
  let ?n = "length (dr_services r)" and ?m = "length (dr_gpus r)"
  define total where "total = 192 + ?n * 368 + ?m * 160"
  define b1 where "b1 = put_header r (WireWriter total) 0"
  define b2 where "b2 = put_all EncodeService 368 (dr_services r) b1 192"
  define b3 where "b3 = put_all EncodeGpu 160 (dr_gpus r) b2 (192 + ?n * 368)"
  have b3: "EncodeReport r = b3"
    by (simp add: EncodeReport_def Let_def report_sizes b1_def b2_def b3_def total_def)
  have len1: "length b1 = total"
    by (simp add: b1_def header_rec.length_put WireWriter_def total_def)
  then have len2: "length b2 = total"
    by (simp add: b2_def total_def service_rec.length_put_all)
  then have len3: "length b3 = total"
    by (simp add: b3_def total_def gpu_rec.length_put_all)
  have keep2: "chunk off n b2 = chunk off n b1" if "off + n \<le> 192" for off n
    unfolding b2_def using that len1
    by (intro service_rec.chunk_put_all_other) (auto simp: total_def)
  have keep3: "chunk off n b3 = chunk off n b2" if "off + n \<le> 192 + ?n * 368" for off n
    unfolding b3_def using that len2
    by (intro gpu_rec.chunk_put_all_other) (auto simp: total_def)
  have head: "chunk o' (length e) b3 = e" if f: "(o', e) \<in> set (header_fields 192 368 160 r)" for o' e
  proof -
    from laid_out_bound [OF header_laid_out f] have le: "o' + length e \<le> 192" by simp
    have "chunk (0 + o') (length e) b1 = e"
      unfolding b1_def using f
      by (intro header_rec.chunk_put_field) (auto simp: WireWriter_def total_def)
    with le show ?thesis by (simp add: keep2 keep3)
  qed
  have services: "laid_records service_fields 368 368 (dr_services r) b2 192"
    unfolding b2_def using len1 by (intro service_rec.laid_put_all) (simp add: total_def)
  have "laid_records service_fields 368 368 (dr_services r) b3 192"
    unfolding laid_records_def
  proof (intro allI impI conjI ballI, goal_cases)
    case (1 i)
    then show ?case using len3 by (simp add: total_def)
  next
    case (2 i x)
    obtain o' e where x: "x = (o', e)" by (cases x)
    have "laid_out 0 (service_fields (dr_services r ! i)) 368" by (rule service_rec.fields_laid_out)
    with 2 x have "o' + length e \<le> 368" using laid_out_bound by fastforce
    with 2 have "192 + i * 368 + o' + length e \<le> 192 + ?n * 368" by simp
    with 2 x services show ?case by (auto simp: keep3 laid_records_def)
  qed
  moreover have "laid_records gpu_fields 160 160 (dr_gpus r) b3 (192 + ?n * 368)"
    unfolding b3_def using len2 by (intro gpu_rec.laid_put_all) (simp add: total_def)
  ultimately show ?thesis
    using len3 head by (auto simp: report_layout_def b3 total_def list_all_iff)
qed

text \<open>What the decoder refuses.\<close>

lemma DecodeReport_short: "length p < 192 \<Longrightarrow> DecodeReport p = Inl BadLength"
  by (simp add: DecodeReport_def report_sizes)

section \<open>Properties\<close>

definition sample_report :: DetailedReport where
  "sample_report =
     \<lparr>dr_managerPid = 100, dr_snapshotTime = 1700000002000000000, dr_managerStartTime = 0,
      dr_publishIntervalMs = 1000, dr_flags = report_flag_gpu, dr_system = default_SystemRecord,
      dr_hostName = ''host'', dr_managerVersion = ''1.0.0'', dr_services = [],
      dr_gpus = [\<lparr>gr_name = ''GPU'', gr_uuid = ''GPU-1'', gr_index = 0, gr_temperatureC = 40,
        gr_utilizationPercent = double_zero, gr_memoryUtilizationPercent = double_zero,
        gr_memoryTotalBytes = 0, gr_memoryUsedBytes = 0, gr_powerMilliwatts = 0\<rparr>]\<rparr>"

text \<open>
  C21: the detailed report decodes to what was encoded, every field of the header, of each service
  record and of each GPU record in its place (texts cut to their fields), for up to 100000 records
  of each kind.
\<close>

theorem report_round_trip:
  "report_countable r \<Longrightarrow> DecodeReport (EncodeReport r) = Inr (norm_report r)"
  by (rule Decode_report_layout [OF EncodeReport_layout])

theorem report_round_trip_witness:
  "DecodeReport (EncodeReport sample_report) = Inr (norm_report sample_report)
   \<and> dr_managerPid (norm_report sample_report) = 100"
proof -
  have "report_countable sample_report"
    by (simp add: report_countable_def sample_report_def max_report_records_def)
  then have "DecodeReport (EncodeReport sample_report) = Inr (norm_report sample_report)"
    by (rule report_round_trip)
  then show ?thesis by (simp add: norm_report_def sample_report_def norm32_def)
qed

text \<open>
  C22: forward compatibility. A report of a later version of the format, whose header and records are
  longer and carry anything after the fields known here, decodes to the same known fields.
\<close>

theorem report_forward_compatible:
  "report_layout H R G r p \<Longrightarrow> report_countable r \<Longrightarrow> DecodeReport p = Inr (norm_report r)"
  by (rule Decode_report_layout)

theorem report_forward_compatible_witness:
  "DecodeReport (EncodeReport sample_report) = Inr (norm_report sample_report)"
proof -
  have "report_countable sample_report"
    by (simp add: report_countable_def sample_report_def max_report_records_def)
  with EncodeReport_layout [of sample_report] show ?thesis by (rule report_forward_compatible)
qed

end
