(* ===== verification/Config_Text.thy ===== *)
theory Config_Text
  imports Prelude
begin

text \<open>
  The lexical half of \<open>src/manager/src/ConfigParser.cpp\<close>: blanks, comments, quotes, numbers,
  lists, arguments and byte sizes. The lemmas show that quoting is undone by reading, that a
  number is read back as printed, and that a byte size is exact or refused.
\<close>

section \<open>Blanks, comments and quotes\<close>

abbreviation dquote :: char where "dquote \<equiv> CHR 0x22"
abbreviation squote :: char where "squote \<equiv> CHR 0x27"
abbreviation backslash :: char where "backslash \<equiv> CHR 0x5C"
abbreviation newline :: char where "newline \<equiv> CHR 0x0A"

definition IsBlank :: "char \<Rightarrow> bool" where
  "IsBlank c \<longleftrightarrow> c = CHR '' '' \<or> c = CHR 0x09 \<or> c = CHR 0x0D \<or> c = CHR 0x0A \<or> c = CHR 0x0C
     \<or> c = CHR 0x0B"

definition Trim :: "string \<Rightarrow> string" where
  "Trim s = rev (dropWhile IsBlank (rev (dropWhile IsBlank s)))"

text \<open>A hash or a semicolon at the start or after a blank opens a comment.\<close>

definition comment_at :: "string \<Rightarrow> nat \<Rightarrow> bool" where
  "comment_at value i \<longleftrightarrow>
     (value ! i = CHR ''#'' \<or> value ! i = CHR '';'') \<and> (i = 0 \<or> IsBlank (value ! (i - 1)))"

definition CutAtComment :: "string \<Rightarrow> nat \<Rightarrow> string" where
  "CutAtComment value start =
     (case find (comment_at value) [start..<length value] of
        Some i \<Rightarrow> take i value
      | None \<Rightarrow> value)"

definition escape_at :: "string \<Rightarrow> nat \<Rightarrow> bool" where
  "escape_at value i \<longleftrightarrow> value ! i = backslash \<and> i + 1 < length value
     \<and> (value ! (i + 1) = dquote \<or> value ! (i + 1) = backslash)"

text \<open>The index of the closing quote, or the length when there is none.\<close>

function closing_quote :: "string \<Rightarrow> char \<Rightarrow> nat \<Rightarrow> nat" where
  "closing_quote value opening i =
     (if i < length value \<and> value ! i \<noteq> opening
      then closing_quote value opening
             (i + (if opening = dquote \<and> escape_at value i then 2 else 1))
      else i)"
  by pat_completeness auto
termination
  by (relation "measure (\<lambda>(value, opening, i). length value - i)") auto

declare closing_quote.simps [simp del]

text \<open>The scan of a shell-split value; the result is where the comment starts.\<close>

function shell_comment :: "string \<Rightarrow> char option \<Rightarrow> nat \<Rightarrow> nat option" where
  "shell_comment value quote i =
     (if \<not> i < length value then None
      else case quote of
        Some q \<Rightarrow>
          if value ! i = q then shell_comment value None (i + 1)
          else if q = dquote \<and> value ! i = backslash \<and> i + 1 < length value
            then shell_comment value quote (i + 2)
          else shell_comment value quote (i + 1)
      | None \<Rightarrow>
          if value ! i = dquote \<or> value ! i = squote then shell_comment value (Some (value ! i)) (i + 1)
          else if comment_at value i then Some i
          else shell_comment value None (i + 1))"
  by pat_completeness auto
termination
  by (relation "measure (\<lambda>(value, quote, i). length value - i)") auto

declare shell_comment.simps [simp del]

definition StripInlineComment :: "string \<Rightarrow> bool \<Rightarrow> string" where
  "StripInlineComment value shellQuotes =
     (if \<not> shellQuotes then
        (let first = length (takeWhile IsBlank value)
         in if first = length value \<or> (value ! first \<noteq> dquote \<and> value ! first \<noteq> squote)
            then CutAtComment value 0
            else let i = closing_quote value (value ! first) (first + 1)
                 in if i < length value then CutAtComment value (i + 1) else value)
      else case shell_comment value None 0 of Some i \<Rightarrow> take i value | None \<Rightarrow> value)"

fun unescape :: "string \<Rightarrow> string" where
  "unescape [] = []"
| "unescape [c] = [c]"
| "unescape (c # d # cs) =
     (if c = backslash \<and> (d = dquote \<or> d = backslash) then d # unescape cs
      else c # unescape (d # cs))"

definition Unquote :: "string \<Rightarrow> string" where
  "Unquote value =
     (if length value \<ge> 2 \<and> hd value = squote \<and> last value = squote then butlast (tl value)
      else if length value \<ge> 2 \<and> hd value = dquote \<and> last value = dquote
        then unescape (butlast (tl value))
      else value)"

section \<open>Numbers, flags and lists\<close>

definition ParseInteger :: "string \<Rightarrow> int option" where
  "ParseInteger s =
     (if s = [] then None
      else case from_chars_signed int64_min int64_max s of
             (Inr v, rest) \<Rightarrow> (if rest = [] then Some v else None)
           | (Inl e, rest) \<Rightarrow> None)"

definition ParseBool :: "string \<Rightarrow> bool option" where
  "ParseBool s =
     (if s = ''true'' \<or> s = ''yes'' \<or> s = ''on'' \<or> s = ''1'' then Some True
      else if s = ''false'' \<or> s = ''no'' \<or> s = ''off'' \<or> s = ''0'' then Some False
      else None)"

definition max_cpu_percent :: int where "max_cpu_percent = 100 * 4096"

definition ParsePercent :: "string \<Rightarrow> 32 word option" where
  "ParsePercent s =
     (let s = (if s \<noteq> [] \<and> last s = CHR ''%'' then butlast s else s)
      in case ParseInteger (Trim s) of
           None \<Rightarrow> None
         | Some n \<Rightarrow> (if n < 0 \<or> n > max_cpu_percent then None else Some (word_of_int n)))"

fun split_list_loop :: "string \<Rightarrow> string list \<Rightarrow> string \<Rightarrow> string list" where
  "split_list_loop [] items current = (if current \<noteq> [] then items @ [current] else items)"
| "split_list_loop (c # cs) items current =
     (if c = CHR '','' \<or> IsBlank c
      then (if current \<noteq> [] then split_list_loop cs (items @ [current]) []
            else split_list_loop cs items current)
      else split_list_loop cs items (current @ [c]))"

definition SplitList :: "string \<Rightarrow> string list" where
  "SplitList s = split_list_loop s [] []"

definition LowerCase :: "string \<Rightarrow> string" where
  "LowerCase = map (\<lambda>c. if 65 \<le> char_code c \<and> char_code c \<le> 90
                         then char_of (char_code c - 65 + 97) else c)"

datatype SplitCode = UnterminatedQuote

text \<open>
  The argument splitter: the arguments so far, the current one, whether one has been opened,
  and the open quote.
\<close>

fun split_args_loop ::
  "string \<Rightarrow> string list \<Rightarrow> string \<Rightarrow> bool \<Rightarrow> char option \<Rightarrow> SplitCode + string list" where
  "split_args_loop [] arguments current inToken quote =
     (if quote \<noteq> None then Inl UnterminatedQuote
      else Inr (if inToken then arguments @ [current] else arguments))"
| "split_args_loop (c # cs) arguments current inToken quote =
     (if quote = Some squote then
        (if c = squote then split_args_loop cs arguments current inToken None
         else split_args_loop cs arguments (current @ [c]) inToken quote)
      else if quote = Some dquote then
        (if c = backslash \<and> cs \<noteq> [] \<and> (hd cs = dquote \<or> hd cs = backslash)
         then split_args_loop (tl cs) arguments (current @ [hd cs]) inToken quote
         else if c = dquote then split_args_loop cs arguments current inToken None
         else split_args_loop cs arguments (current @ [c]) inToken quote)
      else if IsBlank c then
        (if inToken then split_args_loop cs (arguments @ [current]) [] False quote
         else split_args_loop cs arguments current inToken quote)
      else if c = squote \<or> c = dquote then split_args_loop cs arguments current True (Some c)
      else split_args_loop cs arguments (current @ [c]) True quote)"

definition SplitArguments :: "string \<Rightarrow> SplitCode + string list" where
  "SplitArguments s = split_args_loop s [] [] False None"

definition byte_size_power :: "string \<Rightarrow> nat option" where
  "byte_size_power suffix =
     map_of [('''', 0), (''b'', 0), (''k'', 1), (''kb'', 1), (''kib'', 1), (''m'', 2), (''mb'', 2),
             (''mib'', 2), (''g'', 3), (''gb'', 3), (''gib'', 3), (''t'', 4), (''tb'', 4),
             (''tib'', 4)] suffix"

fun scale_bytes :: "nat \<Rightarrow> 64 word \<Rightarrow> 64 word option" where
  "scale_bytes 0 b = Some b"
| "scale_bytes (Suc n) b =
     (if b > (- 1) div 1024 then None else scale_bytes n (b * 1024))"

definition ParseByteSize :: "string \<Rightarrow> 64 word option" where
  "ParseByteSize s =
     (let t = Trim s; digits = takeWhile is_digit t
      in if digits = [] then None
         else case (ParseInteger digits, byte_size_power (LowerCase (Trim (dropWhile is_digit t)))) of
                (Some n, Some p) \<Rightarrow> scale_bytes p (word_of_int n)
              | _ \<Rightarrow> None)"

section \<open>What the readers return\<close>

lemma ParseInteger_to_string:
  "int64_min \<le> i \<Longrightarrow> i \<le> int64_max \<Longrightarrow> ParseInteger (to_string i) = Some i"
  by (simp add: ParseInteger_def from_chars_signed_to_string) (simp add: to_string_def)

lemma ParseInteger_too_large: "int64_max < i \<Longrightarrow> ParseInteger (to_string i) = None"
  by (simp add: ParseInteger_def from_chars_signed_def to_string_def int64_max_def Let_def)

lemma ParseInteger_range: "ParseInteger s = Some i \<Longrightarrow> int64_min \<le> i \<and> i \<le> int64_max"
  by (auto simp: ParseInteger_def split: if_splits prod.splits sum.splits
      dest: from_chars_signed_range)

lemma uint_word_of_int_bound:
  assumes "0 \<le> n" and "n \<le> max_cpu_percent"
  shows "uint (word_of_int n :: 32 word) = n"
  using assms by (simp add: uint_word_of_int max_cpu_percent_def)

lemma ParsePercent_bound: "ParsePercent s = Some p \<Longrightarrow> uint p \<le> max_cpu_percent"
  unfolding ParsePercent_def Let_def
  by (auto simp: uint_word_of_int_bound simp del: uint_word_of_int_eq split: if_splits option.splits)

lemma dropWhile_id: "s = [] \<or> \<not> P (hd s) \<Longrightarrow> dropWhile P s = s"
  by (cases s) auto

lemma Trim_id:
  assumes "s = [] \<or> \<not> IsBlank (hd s) \<and> \<not> IsBlank (last s)"
  shows "Trim s = s"
proof -
  have "dropWhile IsBlank s = s" using assms by (intro dropWhile_id) blast
  moreover have "dropWhile IsBlank (rev s) = rev s"
    using assms by (intro dropWhile_id) (metis hd_rev rev_is_Nil_conv)
  ultimately show ?thesis by (simp add: Trim_def)
qed

lemma Trim_last: "Trim s \<noteq> [] \<Longrightarrow> \<not> IsBlank (last (Trim s))"
  unfolding Trim_def last_rev by (rule hd_dropWhile) simp

text \<open>Quoting as a user would: escape quotes and backslashes between double quotes.\<close>

fun escape :: "string \<Rightarrow> string" where
  "escape [] = []"
| "escape (c # cs) = (if c = dquote \<or> c = backslash then backslash # c # escape cs else c # escape cs)"

definition quoted :: "string \<Rightarrow> string" where
  "quoted s = dquote # escape s @ [dquote]"

lemma unescape_plain: "c \<noteq> backslash \<Longrightarrow> unescape (c # cs) = c # unescape cs"
  by (cases cs) auto

lemma unescape_escape [simp]: "unescape (escape s) = s"
  by (induction s rule: escape.induct) (auto simp: unescape_plain)

lemma Unquote_quoted: "Unquote (quoted s) = s"
  by (simp add: Unquote_def quoted_def)

lemma split_args_quoted:
  "split_args_loop (escape s @ dquote # rest) args cur True (Some dquote)
    = split_args_loop rest args (cur @ s) True None"
  by (induction s arbitrary: cur rule: escape.induct) auto

text \<open>Arguments quoted one by one and joined by blanks are split into the same arguments.\<close>

definition join_quoted :: "string list \<Rightarrow> string" where
  "join_quoted args = concat (map (\<lambda>a. quoted a @ '' '') args)"

lemma split_args_join:
  "split_args_loop (join_quoted args) acc [] False None = Inr (acc @ args)"
proof (induction args arbitrary: acc)
  case Nil
  then show ?case by (simp add: join_quoted_def)
next
  case (Cons a args)
  have "split_args_loop (join_quoted (a # args)) acc [] False None
      = split_args_loop (escape a @ dquote # CHR '' '' # join_quoted args) acc [] True (Some dquote)"
    by (simp add: join_quoted_def quoted_def IsBlank_def)
  also have "\<dots> = split_args_loop (join_quoted args) (acc @ [a]) [] False None"
    by (simp add: split_args_quoted IsBlank_def)
  finally show ?case using Cons.IH by simp
qed

lemma SplitArguments_join: "SplitArguments (join_quoted args) = Inr args"
  by (simp add: SplitArguments_def split_args_join)

text \<open>Names in a list: none is empty, none contains a separator.\<close>

definition is_separator :: "char \<Rightarrow> bool" where
  "is_separator c \<longleftrightarrow> c = CHR '','' \<or> IsBlank c"

lemma split_list_items:
  "(\<forall>x \<in> set items. x \<noteq> [] \<and> \<not> list_ex is_separator x) \<Longrightarrow> \<not> list_ex is_separator cur \<Longrightarrow>
   x \<in> set (split_list_loop s items cur) \<Longrightarrow> x \<noteq> [] \<and> \<not> list_ex is_separator x"
  by (induction s items cur rule: split_list_loop.induct)
    (auto simp: is_separator_def split: if_splits)

lemma SplitList_items: "x \<in> set (SplitList s) \<Longrightarrow> x \<noteq> [] \<and> \<not> list_ex is_separator x"
  unfolding SplitList_def by (rule split_list_items) auto

text \<open>Scaling is exact and refuses exactly what does not fit in 64 bits.\<close>

lemma unat_max_div: "unat ((- 1 :: 64 word) div 1024) = 2 ^ 54 - 1"
  by (simp add: unat_div_distrib)

lemma scale_bytes_exact:
  "scale_bytes p b = (if unat b * 1024 ^ p < 2 ^ 64 then Some (word_of_nat (unat b * 1024 ^ p)) else None)"
proof (induction p arbitrary: b)
  case 0
  show ?case using unsigned_less [of b, where 'a = nat] by simp
next
  case (Suc p)
  show ?case
  proof (cases "b > (- 1) div 1024")
    case True
    then have "2 ^ 54 \<le> unat b" using unat_max_div by (simp add: word_less_nat_alt)
    then have "2 ^ 54 * 1024 \<le> unat b * 1024 ^ Suc p"
      by (intro mult_mono) (auto simp: one_le_power)
    with True show ?thesis by simp
  next
    case False
    then have "unat b < 2 ^ 54" using unat_max_div by (simp add: word_less_nat_alt)
    then have "unat (b * 1024) = unat b * 1024" by (simp add: unat_word_ariths)
    with Suc [of "b * 1024"] False show ?thesis by (simp add: mult.assoc)
  qed
qed

section \<open>Properties\<close>

lemma byte_size_suffixes:
  assumes "byte_size_power suffix = Some p"
  shows "takeWhile is_digit suffix = []" "LowerCase (Trim suffix) = suffix"
    "suffix = [] \<or> \<not> IsBlank (last suffix)"
  using assms unfolding byte_size_power_def
  by (auto split: if_splits simp: is_digit_def char_code_def IsBlank_def Trim_def LowerCase_def)

text \<open>The number in front is read as a signed 64-bit integer, so larger ones are refused.\<close>

lemma ParseByteSize_number:
  assumes "0 \<le> n" and "byte_size_power suffix = Some p"
  shows "ParseByteSize (to_string n @ suffix)
    = Option.bind (ParseInteger (to_string n)) (\<lambda>v. scale_bytes p (word_of_int v))"
proof -
  let ?ds = "digits10 (nat n)"
  have shown: "to_string n = ?ds" using assms(1) by (simp add: to_string_def)
  note suffix = byte_size_suffixes [OF assms(2)]
  have tail: "dropWhile is_digit suffix = suffix"
    using suffix(1) by (cases suffix) (auto split: if_splits)
  have blank: "\<not> is_digit c" if "IsBlank c" for c using that by (auto simp: IsBlank_def is_digit_def char_code_def)
  have "hd (?ds @ suffix) \<in> set ?ds" by simp
  then have "\<not> IsBlank (hd (?ds @ suffix))" using digits10_digits blank by blast
  moreover have "last ?ds \<in> set ?ds" by simp
  then have "\<not> IsBlank (last ?ds)" using digits10_digits blank by blast
  then have "\<not> IsBlank (last (?ds @ suffix))" using suffix(3) by (auto simp: last_append)
  ultimately have trim: "Trim (?ds @ suffix) = ?ds @ suffix" by (intro Trim_id) blast
  have parts: "takeWhile is_digit (?ds @ suffix) = ?ds" "dropWhile is_digit (?ds @ suffix) = suffix"
    using suffix(1) tail by (simp_all add: takeWhile_append dropWhile_append)
  show ?thesis
    unfolding ParseByteSize_def Let_def shown trim parts suffix(2) assms(2) by (simp split: option.split)
qed

lemma scale_bytes_int:
  assumes "0 \<le> n" and "n \<le> int64_max"
  shows "scale_bytes p (word_of_int n) = (if n * 1024 ^ p < 2 ^ 64 then Some (word_of_int (n * 1024 ^ p)) else None)"
proof -
  have "n < 2 ^ 64" using assms(2) by (simp add: int64_max_def)
  then have "uint (word_of_int n :: 64 word) = n" using assms(1) by (simp add: uint_word_of_int)
  then have size: "unat (word_of_int n :: 64 word) = nat n" by (simp add: unat_eq_nat_uint)
  have whole: "int (nat n * 1024 ^ p) = n * 1024 ^ p" using assms(1) by simp
  then have "(nat n * 1024 ^ p < 2 ^ 64) = (n * 1024 ^ p < 2 ^ 64)"
    by (metis of_nat_less_iff of_nat_numeral of_nat_power)
  moreover have "word_of_nat (nat n * 1024 ^ p) = (word_of_int (n * 1024 ^ p) :: 64 word)"
    unfolding whole [symmetric] by (rule of_int_of_nat_eq [symmetric])
  ultimately show ?thesis unfolding scale_bytes_exact size by simp
qed

text \<open>
  C28: a byte size is read exactly. A number with one of the known suffixes is that number times the
  power of 1024 the suffix stands for, and is refused exactly when the number itself exceeds the
  largest signed 64-bit integer or the product does not fit in 64 bits.
\<close>

theorem ParseByteSize_exact:
  assumes "0 \<le> n" and "byte_size_power suffix = Some p"
  shows "ParseByteSize (to_string n @ suffix)
    = (if n < 2 ^ 63 \<and> n * 1024 ^ p < 2 ^ 64 then Some (word_of_int (n * 1024 ^ p)) else None)"
proof (cases "n \<le> int64_max")
  case True
  then have "ParseInteger (to_string n) = Some n" "n < 2 ^ 63"
    using assms(1) ParseInteger_to_string [of n] by (simp_all add: int64_min_def int64_max_def)
  then show ?thesis
    using ParseByteSize_number [OF assms] scale_bytes_int [OF assms(1) True] by simp
next
  case False
  then have "ParseInteger (to_string n) = None" by (simp add: ParseInteger_too_large)
  then show ?thesis using ParseByteSize_number [OF assms] False by (simp add: int64_max_def)
qed

theorem ParseByteSize_exact_witness:
  "ParseByteSize (to_string 512 @ ''mib'') = Some 536870912
   \<and> ParseByteSize (to_string 16777216 @ ''tib'') = None
   \<and> ParseByteSize (to_string (2 ^ 63) @ ''b'') = None"
proof -
  have "byte_size_power ''mib'' = Some 2" "byte_size_power ''tib'' = Some 4" "byte_size_power ''b'' = Some 0"
    by code_simp+
  from ParseByteSize_exact [OF _ this(1), of 512] ParseByteSize_exact [OF _ this(2), of 16777216]
    ParseByteSize_exact [OF _ this(3), of "2 ^ 63"]
  show ?thesis by simp
qed

text \<open>
  C29: quoting round trips. A value in double quotes with its quotes and backslashes escaped is read
  back as itself, and a list of arguments quoted one by one is split into the same arguments.
\<close>

theorem quoting_round_trip:
  "Unquote (quoted s) = s \<and> SplitArguments (join_quoted args) = Inr args"
  by (simp add: Unquote_quoted SplitArguments_join)

end
