(* ===== verification/Config_Keys.thy ===== *)
theory Config_Keys
  imports Config_Text Service_Config
begin

text \<open>
  The keys and sections of \<open>src/manager/src/ConfigParser.cpp\<close>: what each \<open>key = value\<close> does to the
  manager settings or to a service, what opens a section, and what one line does to the parse
  state. A function that fails returns the \<open>ConfigError\<close>; its partly updated output is discarded
  by the parser and is not modelled. Paths are POSIX paths: absolute means starting with a slash.
\<close>

datatype ConfigCode =
  CfgOk | Unreadable | Syntax | UnknownSection | UnknownKey | DuplicateKey | InvalidValue
  | MissingValue | InvalidName | DuplicateService | UnknownDependency | DependencyCycle

record ConfigError =
  ce_code :: ConfigCode
  ce_line :: int
  ce_message :: string

datatype Section = SectionNone | SectionManager | SectionDefaults | SectionService

record ParseState =
  ps_config :: Config
  ps_defaults :: ServiceConfig
  ps_section :: Section
  ps_current :: nat
  ps_seenKeys :: "string set"
  ps_managerSeen :: bool
  ps_defaultsSeen :: bool
  ps_serviceLines :: "int list"
  ps_dependencyLines :: "int list"

definition initial_ParseState :: ParseState where
  "initial_ParseState =
     \<lparr>ps_config = default_Config, ps_defaults = default_ServiceConfig, ps_section = SectionNone,
      ps_current = 0, ps_seenKeys = {}, ps_managerSeen = False, ps_defaultsSeen = False,
      ps_serviceLines = [], ps_dependencyLines = []\<rparr>"

definition max_duration_ms :: int where "max_duration_ms = 86400000"
definition max_window_s :: int where "max_window_s = 86400"
definition max_count :: int where "max_count = 1000000"
definition min_publish_ms :: int where "min_publish_ms = 100"
definition max_publish_ms :: int where "max_publish_ms = 60000"

definition Fail :: "ConfigCode \<Rightarrow> int \<Rightarrow> string \<Rightarrow> ConfigError + 'a" where
  "Fail code line message = Inl \<lparr>ce_code = code, ce_line = line, ce_message = message\<rparr>"

abbreviation apostrophe :: string where "apostrophe \<equiv> [CHR 0x27]"

definition is_absolute :: "string \<Rightarrow> bool" where
  "is_absolute path \<longleftrightarrow> path \<noteq> [] \<and> hd path = CHR ''/''"

definition ReadNumber :: "string \<Rightarrow> string \<Rightarrow> int \<Rightarrow> int \<Rightarrow> int \<Rightarrow> ConfigError + int" where
  "ReadNumber key value line minimum maximum =
     (case ParseInteger value of
        Some n \<Rightarrow>
          (if n < minimum \<or> n > maximum
           then Fail InvalidValue line (key @ '' must be a whole number from '' @ to_string minimum
                  @ '' to '' @ to_string maximum)
           else Inr n)
      | None \<Rightarrow> Fail InvalidValue line (key @ '' must be a whole number from '' @ to_string minimum
                  @ '' to '' @ to_string maximum))"

definition map_result :: "('a \<Rightarrow> 'b) \<Rightarrow> ConfigError + 'a \<Rightarrow> ConfigError + 'b" where
  "map_result f r = (case r of Inl e \<Rightarrow> Inl e | Inr a \<Rightarrow> Inr (f a))"

definition ApplyManagerKey ::
  "ManagerSettings \<Rightarrow> string \<Rightarrow> string \<Rightarrow> int \<Rightarrow> ConfigError + ManagerSettings" where
  "ApplyManagerKey m key value line =
     (if key = ''health_endpoint'' \<or> key = ''report_endpoint'' \<or> key = ''command_endpoint'' then
        (let endpoint = Unquote value
         in if endpoint = [] then Fail MissingValue line (key @ '' needs an endpoint'')
            else if key = ''health_endpoint'' then Inr (m\<lparr>ms_healthEndpoint := endpoint\<rparr>)
            else if key = ''report_endpoint'' then Inr (m\<lparr>ms_reportEndpoint := endpoint\<rparr>)
            else Inr (m\<lparr>ms_commandEndpoint := endpoint\<rparr>))
      else if key = ''publish_interval_ms'' then
        map_result (\<lambda>ms. m\<lparr>ms_publishInterval := ms\<rparr>)
          (ReadNumber key value line min_publish_ms max_publish_ms)
      else if key = ''log_level'' then
        (case ParseLogLevel value of
           None \<Rightarrow> Fail InvalidValue line ''log_level must be error, warning, info or debug''
         | Some l \<Rightarrow> Inr (m\<lparr>ms_logLevel := l\<rparr>))
      else if key = ''cgroups'' then
        (if value = ''auto'' then Inr (m\<lparr>ms_cgroups := CM_Auto\<rparr>)
         else if value = ''off'' then Inr (m\<lparr>ms_cgroups := CM_Off\<rparr>)
         else if value = ''required'' then Inr (m\<lparr>ms_cgroups := CM_Required\<rparr>)
         else Fail InvalidValue line ''cgroups must be auto, off or required'')
      else if key = ''gpu'' then
        (if value = ''auto'' then Inr (m\<lparr>ms_gpu := GM_Auto\<rparr>)
         else if value = ''off'' then Inr (m\<lparr>ms_gpu := GM_Off\<rparr>)
         else Fail InvalidValue line ''gpu must be auto or off'')
      else Fail UnknownKey line (''unknown key '' @ apostrophe @ key @ apostrophe @ '' in [manager]''))"

definition ApplyOutput :: "ServiceConfig \<Rightarrow> string \<Rightarrow> int \<Rightarrow> ConfigError + ServiceConfig" where
  "ApplyOutput s value line =
     (if value = ''auto'' then Inr (s\<lparr>sc_output := OM_Auto\<rparr>)
      else if value = ''journal'' then Inr (s\<lparr>sc_output := OM_Journal\<rparr>)
      else if value = ''inherit'' then Inr (s\<lparr>sc_output := OM_Inherit\<rparr>)
      else if value = ''null'' then Inr (s\<lparr>sc_output := OM_Null\<rparr>)
      else let path = Unquote value
      in if path = [] \<or> \<not> is_absolute path
         then Fail InvalidValue line
                ''output must be auto, journal, inherit, null or an absolute file path''
         else Inr (s\<lparr>sc_output := OM_File, sc_outputPath := path\<rparr>))"

definition ApplyDuration :: "string \<Rightarrow> string \<Rightarrow> int \<Rightarrow> ConfigError + millis" where
  "ApplyDuration key value line = ReadNumber key value line 0 max_duration_ms"

text \<open>The result carries the line of \<open>depends_on\<close> beside the service, as the code's out parameter.\<close>

definition apply_env :: "ServiceConfig \<Rightarrow> string \<Rightarrow> int \<Rightarrow> ConfigError + ServiceConfig" where
  "apply_env s value line =
     (let before = takeWhile (\<lambda>c. c \<noteq> CHR ''='') value;
          from = dropWhile (\<lambda>c. c \<noteq> CHR ''='') value;
          n = Trim before
      in if from = [] \<or> n = [] then Fail InvalidValue line ''env must look like NAME=value''
         else Inr (s\<lparr>sc_environment :=
                sc_environment s @ [\<lparr>ev_name = n, ev_value = Unquote (Trim (tl from))\<rparr>]\<rparr>))"

definition ApplyServiceKey ::
  "ServiceConfig \<Rightarrow> bool \<Rightarrow> string \<Rightarrow> string \<Rightarrow> int \<Rightarrow> int \<Rightarrow> ConfigError + (ServiceConfig \<times> int)" where
  "ApplyServiceKey s defaults key value line dependencyLine =
     (let location = (if defaults then ''[defaults]'' else ''[service '' @ sc_name s @ '']'');
          keep = (\<lambda>r. map_result (\<lambda>s'. (s', dependencyLine)) r)
      in if defaults \<and> (key = ''binary'' \<or> key = ''args'' \<or> key = ''description''
                        \<or> key = ''depends_on'')
         then Fail UnknownKey line (key @ '' belongs in a [service] section'')
      else if key = ''description'' then keep (Inr (s\<lparr>sc_description := Unquote value\<rparr>))
      else if key = ''binary'' then
        (if Unquote value = [] then Fail MissingValue line ''binary needs a path''
         else keep (Inr (s\<lparr>sc_binary := Unquote value\<rparr>)))
      else if key = ''args'' then
        (case SplitArguments value of
           Inl e \<Rightarrow> Fail InvalidValue line ''args has an unterminated quote''
         | Inr arguments \<Rightarrow> keep (Inr (s\<lparr>sc_arguments := arguments\<rparr>)))
      else if key = ''working_dir'' then
        (let directory = Unquote value
         in if directory \<noteq> [] \<and> \<not> is_absolute directory
            then Fail InvalidValue line ''working_dir must be an absolute path''
            else keep (Inr (s\<lparr>sc_workingDirectory := directory\<rparr>)))
      else if key = ''env'' then keep (apply_env s value line)
      else if key = ''autostart'' then
        (case ParseBool value of
           None \<Rightarrow> Fail InvalidValue line ''autostart must be true or false''
         | Some flag \<Rightarrow> keep (Inr (s\<lparr>sc_autostart := flag\<rparr>)))
      else if key = ''restart'' then
        (case ParseRestartMode value of
           None \<Rightarrow> Fail InvalidValue line ''restart must be never, on-failure or always''
         | Some mode \<Rightarrow> keep (Inr (s\<lparr>sc_restart := mode\<rparr>)))
      else if key = ''restart_delay_ms'' then
        keep (map_result (\<lambda>d. s\<lparr>sc_restartDelay := d\<rparr>) (ApplyDuration key value line))
      else if key = ''restart_delay_max_ms'' then
        keep (map_result (\<lambda>d. s\<lparr>sc_restartDelayMax := d\<rparr>) (ApplyDuration key value line))
      else if key = ''start_grace_ms'' then
        keep (map_result (\<lambda>d. s\<lparr>sc_startGrace := d\<rparr>) (ApplyDuration key value line))
      else if key = ''stop_timeout_ms'' then
        keep (map_result (\<lambda>d. s\<lparr>sc_stopTimeout := d\<rparr>) (ApplyDuration key value line))
      else if key = ''heartbeat_interval_ms'' then
        keep (map_result (\<lambda>d. s\<lparr>sc_heartbeatInterval := d\<rparr>) (ApplyDuration key value line))
      else if key = ''max_restarts'' then
        keep (map_result (\<lambda>n. s\<lparr>sc_maxRestarts := n\<rparr>) (ReadNumber key value line 0 max_count))
      else if key = ''restart_window_s'' then
        keep (map_result (\<lambda>n. s\<lparr>sc_restartWindow := n\<rparr>) (ReadNumber key value line 1 max_window_s))
      else if key = ''heartbeat_tolerance'' then
        keep (map_result (\<lambda>n. s\<lparr>sc_heartbeatTolerance := n\<rparr>)
                (ReadNumber key value line 1 max_count))
      else if key = ''stop_signal'' then
        (case ParseStopSignal value of
           None \<Rightarrow> Fail InvalidValue line
                     ''stop_signal must be TERM, INT, HUP, QUIT, KILL, USR1 or USR2''
         | Some sig \<Rightarrow> keep (Inr (s\<lparr>sc_stopSignal := sig\<rparr>)))
      else if key = ''unhealthy_action'' then
        (if value = ''none'' then keep (Inr (s\<lparr>sc_unhealthyAction := UA_None\<rparr>))
         else if value = ''restart'' then keep (Inr (s\<lparr>sc_unhealthyAction := UA_Restart\<rparr>))
         else Fail InvalidValue line ''unhealthy_action must be none or restart'')
      else if key = ''depends_on'' then Inr (s\<lparr>sc_dependsOn := SplitList value\<rparr>, line)
      else if key = ''output'' then keep (ApplyOutput s value line)
      else if key = ''memory_max'' then
        (if value = ''none'' then keep (Inr (s\<lparr>sc_memoryMax := 0\<rparr>))
         else case ParseByteSize value of
           None \<Rightarrow> Fail InvalidValue line ''memory_max must be a size such as 512M, or none''
         | Some b \<Rightarrow> keep (Inr (s\<lparr>sc_memoryMax := b\<rparr>)))
      else if key = ''cpu_max'' then
        (if value = ''none'' then keep (Inr (s\<lparr>sc_cpuMaxPercent := 0\<rparr>))
         else case ParsePercent value of
           None \<Rightarrow> Fail InvalidValue line
                     ''cpu_max must be a percentage of one core such as 150%, or none''
         | Some p \<Rightarrow> keep (Inr (s\<lparr>sc_cpuMaxPercent := p\<rparr>)))
      else Fail UnknownKey line
             (''unknown key '' @ apostrophe @ key @ apostrophe @ '' in '' @ location))"

definition OpenSection :: "ParseState \<Rightarrow> string \<Rightarrow> int \<Rightarrow> ConfigError + ParseState" where
  "OpenSection state inner line =
     (let state = state\<lparr>ps_seenKeys := {}\<rparr>
      in if inner = ''manager'' then
        (if ps_managerSeen state then Fail DuplicateKey line ''[manager] appears twice''
         else Inr (state\<lparr>ps_managerSeen := True, ps_section := SectionManager\<rparr>))
      else if inner = ''defaults'' then
        (if cf_services (ps_config state) \<noteq> []
         then Fail Syntax line ''[defaults] must come before the first [service]''
         else if ps_defaultsSeen state then Fail DuplicateKey line ''[defaults] appears twice''
         else Inr (state\<lparr>ps_defaultsSeen := True, ps_section := SectionDefaults\<rparr>))
      else if length inner > 7 \<and> take 7 inner = ''service'' \<and> IsBlank (inner ! 7) then
        (let n = Trim (drop 7 inner)
         in if \<not> IsValidServiceName n
            then Fail InvalidName line (''service name '' @ apostrophe @ n @ apostrophe
                   @ '' must be 1 to 31 of A-Z a-z 0-9 _ . -'')
            else if FindService (ps_config state) n \<noteq> None
            then Fail DuplicateService line (''service '' @ apostrophe @ n @ apostrophe
                   @ '' is defined twice'')
            else let services = cf_services (ps_config state) @ [(ps_defaults state)\<lparr>sc_name := n\<rparr>]
            in Inr (state\<lparr>ps_config := (ps_config state)\<lparr>cf_services := services\<rparr>,
                 ps_serviceLines := ps_serviceLines state @ [line],
                 ps_dependencyLines := ps_dependencyLines state @ [0],
                 ps_current := length services - 1, ps_section := SectionService\<rparr>))
      else Fail UnknownSection line (''unknown section ['' @ inner
             @ '']; expected [manager], [defaults] or [service NAME]''))"

text \<open>Where a parsed key goes: the settings, the defaults or the current service.\<close>

definition apply_key :: "ParseState \<Rightarrow> string \<Rightarrow> string \<Rightarrow> int \<Rightarrow> ConfigError + ParseState" where
  "apply_key state key value line =
     (case ps_section state of
        SectionManager \<Rightarrow>
          map_result (\<lambda>m. state\<lparr>ps_config := (ps_config state)\<lparr>cf_manager := m\<rparr>\<rparr>)
            (ApplyManagerKey (cf_manager (ps_config state)) key value line)
      | SectionDefaults \<Rightarrow>
          map_result (\<lambda>(s, ignored). state\<lparr>ps_defaults := s\<rparr>)
            (ApplyServiceKey (ps_defaults state) True key value line 0)
      | _ \<Rightarrow>
          (let i = ps_current state; services = cf_services (ps_config state)
           in map_result (\<lambda>(s, dl).
                state\<lparr>ps_config := (ps_config state)\<lparr>cf_services := services[i := s]\<rparr>,
                      ps_dependencyLines := (ps_dependencyLines state)[i := dl]\<rparr>)
              (ApplyServiceKey (services ! i) False key value line (ps_dependencyLines state ! i))))"

definition ParseLine :: "ParseState \<Rightarrow> string \<Rightarrow> int \<Rightarrow> ConfigError + ParseState" where
  "ParseLine state raw line =
     (let s = Trim raw
      in if s = [] \<or> hd s = CHR ''#'' \<or> hd s = CHR '';'' then Inr state
      else if hd s = CHR ''['' then
        (let header = Trim (StripInlineComment s False)
         in if last header \<noteq> CHR '']'' then Fail Syntax line ''section header must end with ]''
            else OpenSection state (Trim (butlast (tl header))) line)
      else if CHR ''='' \<notin> set s then Fail Syntax line ''expected key = value''
      else let key = Trim (takeWhile (\<lambda>c. c \<noteq> CHR ''='') s);
               shellQuotes = (key = ''args'' \<or> key = ''env'');
               value = Trim (StripInlineComment (tl (dropWhile (\<lambda>c. c \<noteq> CHR ''='') s)) shellQuotes)
      in if key = [] then Fail Syntax line ''missing key before =''
      else if ps_section state = SectionNone
        then Fail Syntax line (''key '' @ apostrophe @ key @ apostrophe @ '' is outside any section'')
      else if key \<noteq> ''env'' \<and> key \<in> ps_seenKeys state
        then Fail DuplicateKey line
               (''key '' @ apostrophe @ key @ apostrophe @ '' appears twice in this section'')
      else apply_key
             (if key = ''env'' then state else state\<lparr>ps_seenKeys := insert key (ps_seenKeys state)\<rparr>)
             key value line)"

section \<open>Results\<close>

lemma Fail_not_Inr [simp]: "Fail c l m \<noteq> Inr x" "Inr x \<noteq> Fail c l m"
  by (simp_all add: Fail_def)

lemma map_result_simps [simp]:
  "map_result f (Inl e) = Inl e" "map_result f (Inr a) = Inr (f a)"
  "map_result f (Fail c l m) = Fail c l m"
  by (simp_all add: map_result_def Fail_def)

lemma map_result_Inr [simp]: "map_result f r = Inr b \<longleftrightarrow> (\<exists>a. r = Inr a \<and> b = f a)"
  by (cases r) auto

lemma ReadNumber_range: "ReadNumber key value line lo hi = Inr n \<Longrightarrow> lo \<le> n \<and> n \<le> hi"
  by (auto simp: ReadNumber_def split: option.splits if_splits)

lemma ReadNumber_to_string:
  assumes "lo \<le> n" "n \<le> hi" "int64_min \<le> lo" "hi \<le> int64_max"
  shows "ReadNumber key (to_string n) line lo hi = Inr n"
  using assms by (simp add: ReadNumber_def ParseInteger_to_string)

end
