(* ===== verification/Config_Validate.thy ===== *)
theory Config_Validate
  imports Config_Keys
begin

text \<open>
  The checks of \<open>src/manager/src/ConfigParser.cpp\<close> that span services: \<open>VisitForCycle\<close>,
  \<open>FindCycle\<close> and \<open>Validate\<close>. The depth-first search carries fuel, one unit per nested call; the
  number of unvisited services is always enough. The lemmas show that it reports a cycle exactly
  when the dependency relation has one, and never runs out of fuel or of the index.
\<close>

section \<open>The depth-first search\<close>

text \<open>Why a search stops without an answer: out of fuel, or \<open>std::map::at\<close> finds no key.\<close>

datatype visit_error = OutOfFuel | OutOfRange

type_synonym marks = "nat list"
type_synonym visit_result = "visit_error + (string option \<times> marks \<times> string list)"

definition cycle_text :: "string list \<Rightarrow> string \<Rightarrow> string" where
  "cycle_text path dependency =
     concat (map (\<lambda>n. n @ '' -> '') (dropWhile (\<lambda>n. n \<noteq> dependency) path)) @ dependency"

fun VisitForCycle ::
  "nat \<Rightarrow> ServiceConfig list \<Rightarrow> (string \<rightharpoonup> nat) \<Rightarrow> nat \<Rightarrow> marks \<Rightarrow> string list \<Rightarrow> visit_result"
and visit_dependencies ::
  "nat \<Rightarrow> ServiceConfig list \<Rightarrow> (string \<rightharpoonup> nat) \<Rightarrow> nat \<Rightarrow> string list \<Rightarrow> marks \<Rightarrow> string list
   \<Rightarrow> visit_result"
where
  "VisitForCycle 0 services index node mark path = Inl OutOfFuel"
| "VisitForCycle (Suc fuel) services index node mark path =
     visit_dependencies fuel services index node (sc_dependsOn (services ! node)) (mark[node := 1])
       (path @ [sc_name (services ! node)])"
| "visit_dependencies fuel services index node [] mark path =
     Inr (None, mark[node := 2], butlast path)"
| "visit_dependencies fuel services index node (d # ds) mark path =
     (case index d of
        None \<Rightarrow> Inl OutOfRange
      | Some next \<Rightarrow>
          if mark ! next = 1 then Inr (Some (cycle_text path d), mark, path)
          else if mark ! next = 0 then
            (case VisitForCycle fuel services index next mark path of
               Inl e \<Rightarrow> Inl e
             | Inr (Some c, m, p) \<Rightarrow> Inr (Some c, m, p)
             | Inr (None, m, p) \<Rightarrow> visit_dependencies fuel services index node ds m p)
          else visit_dependencies fuel services index node ds mark path)"

fun find_cycle_loop ::
  "ServiceConfig list \<Rightarrow> (string \<rightharpoonup> nat) \<Rightarrow> nat list \<Rightarrow> marks \<Rightarrow> string list \<Rightarrow> visit_error + string option"
where
  "find_cycle_loop services index [] mark path = Inr None"
| "find_cycle_loop services index (i # is) mark path =
     (if mark ! i = 0 then
        (case VisitForCycle (length services) services index i mark path of
           Inl e \<Rightarrow> Inl e
         | Inr (Some c, m, p) \<Rightarrow> Inr (Some c)
         | Inr (None, m, p) \<Rightarrow> find_cycle_loop services index is m p)
      else find_cycle_loop services index is mark path)"

definition FindCycle :: "ServiceConfig list \<Rightarrow> (string \<rightharpoonup> nat) \<Rightarrow> visit_error + string option" where
  "FindCycle services index =
     find_cycle_loop services index [0..<length services] (replicate (length services) 0) []"

section \<open>Validate\<close>

definition service_index :: "ServiceConfig list \<Rightarrow> string \<rightharpoonup> nat" where
  "service_index services =
     fold (\<lambda>i m. m(sc_name (services ! i) \<mapsto> i)) [0..<length services] Map.empty"

fun check_dependencies ::
  "(string \<rightharpoonup> nat) \<Rightarrow> string \<Rightarrow> int \<Rightarrow> string list \<Rightarrow> ConfigError + unit" where
  "check_dependencies index n line [] = Inr ()"
| "check_dependencies index n line (d # ds) =
     (if d = n then Fail DependencyCycle line
        (''service '' @ apostrophe @ n @ apostrophe @ '' depends on itself'')
      else if index d = None then Fail UnknownDependency line
        (''service '' @ apostrophe @ n @ apostrophe @ '' depends on unknown service '' @ apostrophe
           @ d @ apostrophe)
      else check_dependencies index n line ds)"

definition check_service :: "(string \<rightharpoonup> nat) \<Rightarrow> ParseState \<Rightarrow> nat \<Rightarrow> ConfigError + unit" where
  "check_service index state i =
     (let s = cf_services (ps_config state) ! i; line = ps_serviceLines state ! i;
          dline = ps_dependencyLines state ! i
      in if sc_binary s = [] then Fail MissingValue line
           (''service '' @ apostrophe @ sc_name s @ apostrophe @ '' has no binary'')
         else if sc_restartDelayMax s < sc_restartDelay s then Fail InvalidValue line
           (''service '' @ apostrophe @ sc_name s @ apostrophe
              @ '': restart_delay_max_ms is below restart_delay_ms'')
         else check_dependencies index (sc_name s) (if dline \<noteq> 0 then dline else line)
                (sc_dependsOn s))"

fun check_services :: "(string \<rightharpoonup> nat) \<Rightarrow> ParseState \<Rightarrow> nat list \<Rightarrow> ConfigError + unit" where
  "check_services index state [] = Inr ()"
| "check_services index state (i # is) =
     (case check_service index state i of
        Inl e \<Rightarrow> Inl e
      | Inr _ \<Rightarrow> check_services index state is)"

text \<open>
  \<open>None\<close> stands for a search without an answer, an exception or an endless recursion of the code;
  \<open>Validate_answers\<close> shows that it does not occur.
\<close>

definition Validate :: "ParseState \<Rightarrow> (ConfigError + unit) option" where
  "Validate state =
     (let services = cf_services (ps_config state); index = service_index services
      in case check_services index state [0..<length services] of
           Inl e \<Rightarrow> Some (Inl e)
         | Inr _ \<Rightarrow>
             (case FindCycle services index of
                Inl e \<Rightarrow> None
              | Inr (Some c) \<Rightarrow> Some (Fail DependencyCycle 0 (''dependency cycle: '' @ c))
              | Inr None \<Rightarrow>
                  (let m = cf_manager (ps_config state)
                   in if ms_healthEndpoint m = ms_reportEndpoint m
                         \<or> ms_healthEndpoint m = ms_commandEndpoint m
                         \<or> ms_reportEndpoint m = ms_commandEndpoint m
                      then Some (Fail InvalidValue 0
                        ''health_endpoint, report_endpoint and command_endpoint must all differ'')
                      else Some (Inr ()))))"

section \<open>The dependency relation\<close>

text \<open>Service \<open>i\<close> depends on service \<open>j\<close>.\<close>

definition depends :: "ServiceConfig list \<Rightarrow> (string \<rightharpoonup> nat) \<Rightarrow> (nat \<times> nat) set" where
  "depends services index =
     {(i, j). i < length services \<and> (\<exists>d \<in> set (sc_dependsOn (services ! i)). index d = Some j)}"

definition index_ok :: "ServiceConfig list \<Rightarrow> (string \<rightharpoonup> nat) \<Rightarrow> bool" where
  "index_ok services index \<longleftrightarrow>
     (\<forall>d i. index d = Some i \<longrightarrow> i < length services)
     \<and> (\<forall>s \<in> set services. \<forall>d \<in> set (sc_dependsOn s). index d \<noteq> None)"

text \<open>
  The marks of the search: \<open>gl\<close> lists the services on the current path, a chain of dependencies;
  a finished service depends on finished services only, and these have no cycle.
\<close>

definition chain :: "('a \<times> 'a) set \<Rightarrow> 'a list \<Rightarrow> bool" where
  "chain E xs \<longleftrightarrow> (\<forall>k. Suc k < length xs \<longrightarrow> (xs ! k, xs ! Suc k) \<in> E)"

definition finished :: "marks \<Rightarrow> nat set" where
  "finished mark = {i. i < length mark \<and> mark ! i = 2}"

definition dfs_inv :: "(nat \<times> nat) set \<Rightarrow> nat \<Rightarrow> nat list \<Rightarrow> marks \<Rightarrow> bool" where
  "dfs_inv E n gl mark \<longleftrightarrow>
     length mark = n \<and> (\<forall>x \<in> set mark. x \<le> 2) \<and> distinct gl \<and> set gl = {i. i < n \<and> mark ! i = 1} \<and> chain E gl
     \<and> E `` finished mark \<subseteq> finished mark \<and> acyclic (E \<inter> finished mark \<times> UNIV)"

definition unvisited :: "marks \<Rightarrow> nat" where
  "unvisited mark = card {i. i < length mark \<and> mark ! i = 0}"

lemma chain_snoc: "chain E (xs @ [y]) \<longleftrightarrow> chain E xs \<and> (xs = [] \<or> (last xs, y) \<in> E)"
proof (cases xs rule: rev_cases)
  case (snoc ys z)
  show ?thesis
    unfolding snoc chain_def
    by (auto simp: nth_append less_Suc_eq)
qed (simp add: chain_def)

lemma chain_trancl:
  assumes "chain E xs" and "i < j" and "j < length xs"
  shows "(xs ! i, xs ! j) \<in> E\<^sup>+"
  using assms(2,3)
proof (induction j)
  case (Suc j)
  have e: "(xs ! j, xs ! Suc j) \<in> E" using assms(1) Suc.prems by (simp add: chain_def)
  show ?case
  proof (cases "i = j")
    case False
    with Suc have "(xs ! i, xs ! j) \<in> E\<^sup>+" by simp
    then show ?thesis using e by (rule trancl_into_trancl)
  qed (use e in auto)
qed simp

lemma chain_cycle:
  assumes "chain E xs" and "x \<in> set xs" and "(last xs, x) \<in> E"
  shows "\<not> acyclic E"
proof -
  from assms(2) obtain i where i: "i < length xs" "xs ! i = x" by (auto simp: in_set_conv_nth)
  have last: "last xs = xs ! (length xs - 1)" using i by (intro last_conv_nth) auto
  have "(x, x) \<in> E\<^sup>+"
  proof (cases "i = length xs - 1")
    case False
    with i have "(x, last xs) \<in> E\<^sup>+"
      using chain_trancl [OF assms(1), of i "length xs - 1"] last by auto
    with assms(3) show ?thesis by (simp add: trancl_into_trancl)
  qed (use assms(3) i last in auto)
  then show ?thesis by (auto simp: acyclic_def)
qed

text \<open>Finishing a service all of whose dependencies are finished adds no cycle.\<close>

lemma acyclic_finish:
  assumes ac: "acyclic (E \<inter> F \<times> UNIV)" and cl: "E `` F \<subseteq> F" and n: "n \<notin> F" and out: "E `` {n} \<subseteq> F"
  shows "acyclic (E \<inter> insert n F \<times> UNIV)"
proof -
  let ?A = "E \<inter> F \<times> UNIV" and ?B = "E \<inter> insert n F \<times> UNIV"
  have in_F: "(x, y) \<in> ?A\<^sup>+ \<and> y \<in> F" if "(x, y) \<in> ?B\<^sup>+" "x \<in> F" for x y
    using that
  proof (induction rule: trancl_induct)
    case (base y)
    with cl have "(x, y) \<in> ?A" "y \<in> F" by auto
    then show ?case by auto
  next
    case (step y z)
    then have "(x, y) \<in> ?A\<^sup>+" "y \<in> F" by auto
    moreover from step \<open>y \<in> F\<close> cl have "(y, z) \<in> ?A" "z \<in> F" by auto
    ultimately show ?case by (meson trancl_into_trancl)
  qed
  have "(x, x) \<notin> ?B\<^sup>+" for x
  proof
    assume cyc: "(x, x) \<in> ?B\<^sup>+"
    show False
    proof (cases "x \<in> F")
      case True
      with in_F [OF cyc] ac show False by (auto simp: acyclic_def)
    next
      case False
      from cyc obtain y where y: "(x, y) \<in> ?B" "(y, x) \<in> ?B\<^sup>*" by (meson tranclD)
      with False have "x = n" "y \<in> F" using out by auto
      from y(2) show False
      proof (cases rule: rtranclE)
        case base
        with \<open>y \<in> F\<close> False show False by simp
      next
        case (step z)
        then have "(y, x) \<in> ?B\<^sup>+" by (meson rtrancl_into_trancl1 y(2))
        with in_F \<open>y \<in> F\<close> False show False by blast
      qed
    qed
  qed
  then show ?thesis by (auto simp: acyclic_def)
qed

section \<open>The search is right\<close>

definition extends :: "marks \<Rightarrow> marks \<Rightarrow> bool" where
  "extends mark m \<longleftrightarrow> length m = length mark \<and> finished mark \<subseteq> finished m
     \<and> (\<forall>i < length mark. m ! i = 0 \<longrightarrow> mark ! i = 0)"

lemma extends_refl [simp]: "extends mark mark"
  by (simp add: extends_def)

lemma extends_trans: "extends a b \<Longrightarrow> extends b c \<Longrightarrow> extends a c"
  by (auto simp: extends_def)

lemma extends_unvisited: "extends mark m \<Longrightarrow> unvisited m \<le> unvisited mark"
  unfolding unvisited_def extends_def by (intro card_mono) auto

lemma unvisited_enter:
  assumes "node < length mark" and "mark ! node = 0"
  shows "unvisited (mark[node := 1]) < unvisited mark"
  unfolding unvisited_def
  by (rule psubset_card_mono) (use assms in \<open>auto simp: nth_list_update split: if_splits\<close>)

lemma dfs_enter:
  assumes "dfs_inv E n gl mark" and "node < n" and "mark ! node = 0" and "gl = [] \<or> (last gl, node) \<in> E"
  shows "dfs_inv E n (gl @ [node]) (mark[node := 1]) \<and> finished (mark[node := 1]) = finished mark"
proof -
  have len: "length mark = n" using assms(1) by (simp add: dfs_inv_def)
  then have "finished (mark[node := 1]) = finished mark"
    using assms by (auto simp: finished_def nth_list_update split: if_splits)
  moreover have "{i. i < n \<and> mark[node := 1] ! i = 1} = insert node {i. i < n \<and> mark ! i = 1}"
    using assms len by (auto simp: nth_list_update split: if_splits)
  moreover have "node \<notin> set gl" using assms by (auto simp: dfs_inv_def)
  moreover have "\<forall>x \<in> set (mark[node := 1]). x \<le> 2"
    using assms(1) set_update_subset_insert [of mark node 1] by (fastforce simp: dfs_inv_def)
  ultimately show ?thesis using assms by (simp add: dfs_inv_def chain_snoc)
qed

lemma dfs_leave:
  assumes inv: "dfs_inv E n (gl @ [node]) mark" and out: "E `` {node} \<subseteq> finished mark"
  shows "dfs_inv E n gl (mark[node := 2])" and "extends mark (mark[node := 2])"
    and "mark[node := 2] ! node = 2"
proof -
  have node: "node < length mark" "mark ! node = 1" "length mark = n" using inv by (auto simp: dfs_inv_def)
  then have nf: "node \<notin> finished mark" by (simp add: finished_def)
  have fin: "finished (mark[node := 2]) = insert node (finished mark)"
    using node by (auto simp: finished_def nth_list_update split: if_splits)
  have grey: "{i. i < n \<and> mark[node := 2] ! i = 1} = {i. i < n \<and> mark ! i = 1} - {node}"
    using node by (auto simp: nth_list_update split: if_splits)
  have "acyclic (E \<inter> insert node (finished mark) \<times> UNIV)"
    using inv out nf by (intro acyclic_finish) (auto simp: dfs_inv_def)
  moreover have "set gl = {i. i < n \<and> mark ! i = 1} - {node}" using inv by (auto simp: dfs_inv_def)
  moreover have "\<forall>x \<in> set (mark[node := 2]). x \<le> 2"
    using inv set_update_subset_insert [of mark node 2] by (fastforce simp: dfs_inv_def)
  ultimately show "dfs_inv E n gl (mark[node := 2])"
    using inv out unfolding dfs_inv_def fin grey by (auto simp: chain_snoc)
  show "extends mark (mark[node := 2])" "mark[node := 2] ! node = 2"
    using node fin by (auto simp: extends_def nth_list_update split: if_splits)
qed

text \<open>What a visit returns: a cycle that exists, or the marks with this service finished.\<close>

definition visit_ok ::
  "(nat \<times> nat) set \<Rightarrow> nat \<Rightarrow> nat list \<Rightarrow> nat \<Rightarrow> marks \<Rightarrow> string list \<Rightarrow> visit_result \<Rightarrow> bool" where
  "visit_ok E n gl node mark path r \<longleftrightarrow>
     (\<exists>c m p. r = Inr (Some c, m, p) \<and> \<not> acyclic E)
     \<or> (\<exists>m. r = Inr (None, m, path) \<and> dfs_inv E n gl m \<and> m ! node = 2 \<and> extends mark m)"

lemma visit_ok_extends:
  "visit_ok E n gl node m path r \<Longrightarrow> extends mark m \<Longrightarrow> visit_ok E n gl node mark path r"
  unfolding visit_ok_def using extends_trans by blast

lemma visit_ok_cases:
  assumes "visit_ok E n gl node mark path r"
  obtains (cycle) c m p where "r = Inr (Some c, m, p)" and "\<not> acyclic E"
  | (finished) m where "r = Inr (None, m, path)" and "dfs_inv E n gl m" and "m ! node = 2"
      and "extends mark m"
  using assms by (auto simp: visit_ok_def)

lemma visit_correct:
  assumes "index_ok services index" and "E = depends services index" and "n = length services"
  shows "dfs_inv E n gl mark \<Longrightarrow> node < n \<Longrightarrow> mark ! node = 0 \<Longrightarrow> gl = [] \<or> (last gl, node) \<in> E \<Longrightarrow>
      unvisited mark \<le> fuel \<Longrightarrow>
      visit_ok E n gl node mark path (VisitForCycle fuel services index node mark path)"
    and "dfs_inv E n (gl @ [node]) mark \<Longrightarrow> set ds \<subseteq> set (sc_dependsOn (services ! node)) \<Longrightarrow>
      E `` {node} \<subseteq> finished mark \<union> {j. \<exists>d \<in> set ds. index d = Some j} \<Longrightarrow>
      unvisited mark \<le> fuel \<Longrightarrow> path = pre @ [x] \<Longrightarrow>
      visit_ok E n gl node mark pre (visit_dependencies fuel services index node ds mark path)"
  using assms
proof (induction fuel services index node mark path and fuel services index node ds mark path
    arbitrary: gl and gl pre x rule: VisitForCycle_visit_dependencies.induct)
  case (1 services index node mark path)
  then have "node \<in> {i. i < length mark \<and> mark ! i = 0}" by (simp add: dfs_inv_def)
  then have "0 < unvisited mark" unfolding unvisited_def by (subst card_gt_0_iff) auto
  with 1 show ?case by simp
next
  case (2 fuel services index node mark path)
  let ?m = "mark[node := 1]"
  have len: "length mark = n" using 2 by (simp add: dfs_inv_def)
  have enter: "dfs_inv E n (gl @ [node]) ?m" "finished ?m = finished mark"
    using dfs_enter [OF "2.prems"(1-4)] by auto
  have "visit_ok E n gl node ?m path (VisitForCycle (Suc fuel) services index node mark path)"
    unfolding VisitForCycle.simps
  proof (rule "2.IH" [OF enter(1)])
    show "E `` {node} \<subseteq> finished ?m \<union> {j. \<exists>d\<in>set (sc_dependsOn (services ! node)). index d = Some j}"
      using "2.prems" by (auto simp: depends_def)
    show "unvisited ?m \<le> fuel"
      using unvisited_enter [of node mark] "2.prems" len by simp
  qed (use "2.prems" in auto)
  moreover have "extends mark ?m"
    using enter(2) len "2.prems"(2) by (auto simp: extends_def nth_list_update split: if_splits)
  ultimately show ?case by (rule visit_ok_extends)
next
  case (3 fuel services index node mark path)
  have "E `` {node} \<subseteq> finished mark" using "3.prems"(3) by simp
  from dfs_leave [OF "3.prems"(1) this] "3.prems"(5) show ?case by (auto simp: visit_ok_def)
next
  case (4 fuel services index node d ds mark path)
  have node: "node < n" using "4.prems"(1) by (auto simp: dfs_inv_def)
  then have "services ! node \<in> set services" using "4.prems" by simp
  moreover have "d \<in> set (sc_dependsOn (services ! node))" using "4.prems"(2) by simp
  ultimately obtain j where j: "index d = Some j" "j < n"
    using "4.prems" unfolding index_ok_def by blast
  then have edge: "(node, j) \<in> E"
    using node \<open>d \<in> _\<close> "4.prems" by (auto simp: depends_def)
  have len: "length mark = n" using "4.prems" by (simp add: dfs_inv_def)
  consider (grey) "mark ! j = 1" | (white) "mark ! j = 0" | (black) "mark ! j \<noteq> 1" "mark ! j \<noteq> 0" by blast
  then show ?case
  proof cases
    case grey
    with j "4.prems"(1) have "j \<in> set (gl @ [node])" by (simp add: dfs_inv_def)
    with edge "4.prems"(1) have "\<not> acyclic E"
      by (intro chain_cycle [of E "gl @ [node]" j]) (auto simp: dfs_inv_def)
    with grey j show ?thesis by (auto simp: visit_ok_def)
  next
    case white
    have "visit_ok E n (gl @ [node]) j mark path (VisitForCycle fuel services index j mark path)"
      using "4.prems" white j edge by (intro "4.IH"(1)) auto
    then show ?thesis
    proof (cases rule: visit_ok_cases)
      case (cycle c m p)
      with white j show ?thesis by (auto simp: visit_ok_def)
    next
      case (finished m)
      have "visit_ok E n gl node m pre (visit_dependencies fuel services index node ds m path)"
      proof (rule "4.IH"(2) [OF j(1) _ white finished(1) refl refl refl])
        show "E `` {node} \<subseteq> Config_Validate.finished m \<union> {j. \<exists>d\<in>set ds. index d = Some j}"
          using "4.prems"(3) finished j len by (auto simp: extends_def finished_def)
        show "unvisited m \<le> fuel" using extends_unvisited [OF finished(4)] "4.prems" by simp
      qed (use "4.prems" finished white in auto)
      with finished white j show ?thesis by (simp add: visit_ok_extends)
    qed
  next
    case black
    with j len "4.prems"(1) have "mark ! j \<le> 2" by (simp add: dfs_inv_def)
    with black have "mark ! j = 2" by simp
    then have "j \<in> finished mark" using j len by (simp add: finished_def)
    then have "visit_ok E n gl node mark pre (visit_dependencies fuel services index node ds mark path)"
      using "4.prems" j by (intro "4.IH"(3) [OF j(1) black]) auto
    with black j show ?thesis by simp
  qed
qed

lemma unvisited_le: "unvisited mark \<le> length mark"
  unfolding unvisited_def by (rule order_trans [OF card_mono [of "{..<length mark}"]]) auto

lemma find_cycle_loop_correct:
  assumes ok: "index_ok services index" and E: "E = depends services index" and n: "n = length services"
  shows "dfs_inv E n [] mark \<Longrightarrow> set ks \<subseteq> {..<n} \<Longrightarrow> {..<n} \<subseteq> finished mark \<union> set ks \<Longrightarrow>
    (\<exists>c. find_cycle_loop services index ks mark path = Inr (Some c) \<and> \<not> acyclic E)
    \<or> (find_cycle_loop services index ks mark path = Inr None \<and> acyclic E)"
proof (induction ks arbitrary: mark path)
  case Nil
  then have "E \<inter> finished mark \<times> UNIV = E" using E n by (auto simp: depends_def)
  with Nil show ?case by (simp add: dfs_inv_def)
next
  case (Cons i ks)
  have i: "i < n" "length mark = n" using Cons.prems by (auto simp: dfs_inv_def)
  show ?case
  proof (cases "mark ! i = 0")
    case True
    have "visit_ok E n [] i mark path (VisitForCycle n services index i mark path)"
      using Cons.prems i True unvisited_le [of mark] by (intro visit_correct(1) [OF ok E n]) auto
    then show ?thesis
    proof (cases rule: visit_ok_cases)
      case (cycle c m p)
      with True n show ?thesis by simp
    next
      case (finished m)
      have "{..<n} \<subseteq> Config_Validate.finished m \<union> set ks"
        using Cons.prems(3) finished i by (auto simp: extends_def finished_def)
      with Cons.IH [OF finished(2)] Cons.prems(2) finished True n show ?thesis by simp
    qed
  next
    case False
    have "mark ! i \<le> 2" "mark ! i \<noteq> 1" using Cons.prems(1) i by (auto simp: dfs_inv_def)
    with False have "mark ! i = 2" by linarith
    with i have "i \<in> finished mark" by (simp add: finished_def)
    then have "{..<n} \<subseteq> finished mark \<union> set ks" using Cons.prems(3) by auto
    with Cons.IH [OF Cons.prems(1)] Cons.prems(2) False show ?thesis by simp
  qed
qed

lemma finished_replicate [simp]: "finished (replicate k 0) = {}"
  by (simp add: finished_def)

lemma FindCycle_correct:
  assumes "index_ok services index"
  shows "(\<exists>c. FindCycle services index = Inr (Some c) \<and> \<not> acyclic (depends services index))
    \<or> (FindCycle services index = Inr None \<and> acyclic (depends services index))"
  unfolding FindCycle_def
proof (rule find_cycle_loop_correct [OF assms refl refl])
  show "dfs_inv (depends services index) (length services) [] (replicate (length services) 0)"
    by (auto simp: dfs_inv_def finished_replicate chain_def acyclic_def)
  show "{..<length services} \<subseteq> finished (replicate (length services) 0) \<union> set [0..<length services]"
    by auto
qed auto

section \<open>What Validate accepts\<close>

lemma service_index_Some:
  assumes "service_index services d = Some i"
  shows "i < length services \<and> sc_name (services ! i) = d"
proof -
  have "fold (\<lambda>i m. m(sc_name (services ! i) \<mapsto> i)) ks m d = Some i \<Longrightarrow>
      m d = Some i \<or> i \<in> set ks \<and> sc_name (services ! i) = d" for ks m
  proof (induction ks arbitrary: m)
    case (Cons k ks)
    from Cons.prems have "(m(sc_name (services ! k) \<mapsto> k)) d = Some i
        \<or> i \<in> set ks \<and> sc_name (services ! i) = d"
      by (intro Cons.IH) simp
    then show ?case by (auto split: if_splits)
  qed simp
  from this [of "[0..<length services]" Map.empty] assms show ?thesis
    by (simp add: service_index_def)
qed

lemma service_index_None: "service_index services d = None \<longleftrightarrow> d \<notin> sc_name ` set services"
proof -
  have "fold (\<lambda>i m. m(sc_name (services ! i) \<mapsto> i)) ks m d = None \<longleftrightarrow>
      m d = None \<and> d \<notin> (\<lambda>i. sc_name (services ! i)) ` set ks" for ks m
    by (induction ks arbitrary: m) auto
  moreover have "(\<lambda>i. sc_name (services ! i)) ` {0..<length services} = sc_name ` set services"
    using nth_image [of "length services" services] by (simp flip: image_image)
  ultimately show ?thesis by (simp add: service_index_def)
qed

definition dependencies_known :: "ServiceConfig list \<Rightarrow> bool" where
  "dependencies_known services \<longleftrightarrow>
     (\<forall>s \<in> set services. set (sc_dependsOn s) \<subseteq> sc_name ` set services)"

lemma service_index_ok: "dependencies_known services \<Longrightarrow> index_ok services (service_index services)"
  unfolding dependencies_known_def index_ok_def
  by (metis service_index_Some service_index_None subsetD)

text \<open>The dependency relation between names.\<close>

definition depends_names :: "ServiceConfig list \<Rightarrow> (string \<times> string) set" where
  "depends_names services = {(sc_name s, d) | s d. s \<in> set services \<and> d \<in> set (sc_dependsOn s)}"

lemma depends_names_index:
  assumes "distinct (map sc_name services)" and "dependencies_known services"
  shows "depends_names services
    = (\<lambda>(i, j). (sc_name (services ! i), sc_name (services ! j))) ` depends services (service_index services)"
proof -
  have named: "\<exists>j. service_index services d = Some j \<and> sc_name (services ! j) = d"
    if "s \<in> set services" "d \<in> set (sc_dependsOn s)" for s d
    using that assms(2) service_index_None [of services d] service_index_Some [of services d]
    by (auto simp: dependencies_known_def)
  show ?thesis
  proof (intro set_eqI iffI)
    fix x assume "x \<in> depends_names services"
    then obtain s d where s: "s \<in> set services" "d \<in> set (sc_dependsOn s)" "x = (sc_name s, d)"
      by (auto simp: depends_names_def)
    then obtain i where i: "i < length services" "s = services ! i" by (auto simp: in_set_conv_nth)
    from named [OF s(1,2)] obtain j where "service_index services d = Some j" "sc_name (services ! j) = d"
      by blast
    with s i show "x \<in> (\<lambda>(i, j). (sc_name (services ! i), sc_name (services ! j)))
        ` depends services (service_index services)"
      by (intro image_eqI [of _ _ "(i, j)"]) (auto simp: depends_def)
  next
    fix x assume "x \<in> (\<lambda>(i, j). (sc_name (services ! i), sc_name (services ! j)))
        ` depends services (service_index services)"
    then obtain i j d where x: "x = (sc_name (services ! i), sc_name (services ! j))"
      and "i < length services" "d \<in> set (sc_dependsOn (services ! i))"
      and "service_index services d = Some j"
      by (auto simp: depends_def)
    moreover from this have "sc_name (services ! j) = d" by (simp add: service_index_Some)
    ultimately show "x \<in> depends_names services" by (auto simp: depends_names_def)
  qed
qed

lemma acyclic_depends_names:
  assumes dist: "distinct (map sc_name services)" and known: "dependencies_known services"
  shows "acyclic (depends_names services) \<longleftrightarrow> acyclic (depends services (service_index services))"
proof -
  let ?E = "depends services (service_index services)" and ?N = "depends_names services"
  let ?f = "\<lambda>i. sc_name (services ! i)"
  have inj: "inj_on ?f {..<length services}"
    using dist by (auto simp: inj_on_def distinct_conv_nth)
  have dom: "i < length services \<and> j < length services" if "(i, j) \<in> ?E" for i j
    using that by (auto simp: depends_def dest: service_index_Some)
  have up: "(?f i, ?f j) \<in> ?N\<^sup>+" if "(i, j) \<in> ?E\<^sup>+" for i j
    using that
    by (induction rule: trancl_induct)
      (auto simp: depends_names_index [OF dist known] intro: r_into_trancl trancl_into_trancl)
  have down: "\<exists>i j. x = ?f i \<and> y = ?f j \<and> (i, j) \<in> ?E\<^sup>+" if "(x, y) \<in> ?N\<^sup>+" for x y
    using that
  proof (induction rule: trancl_induct)
    case (base y)
    then show ?case by (auto simp: depends_names_index [OF dist known])
  next
    case (step y z)
    then obtain i j where ij: "x = ?f i" "y = ?f j" "(i, j) \<in> ?E\<^sup>+" by blast
    from step(2) obtain j' k where jk: "y = ?f j'" "z = ?f k" "(j', k) \<in> ?E"
      by (auto simp: depends_names_index [OF dist known])
    have "j < length services" using ij(3) dom by (auto elim: tranclE)
    with ij jk dom inj have "j = j'" by (metis inj_onD lessThan_iff)
    with ij jk show ?case by (blast intro: trancl_into_trancl)
  qed
  show ?thesis
  proof
    assume "acyclic ?N" then show "acyclic ?E" using up by (force simp: acyclic_def)
  next
    assume ac: "acyclic ?E"
    show "acyclic ?N"
      unfolding acyclic_def
    proof (intro allI notI)
      fix x assume "(x, x) \<in> ?N\<^sup>+"
      then obtain i j where ij: "x = ?f i" "x = ?f j" "(i, j) \<in> ?E\<^sup>+" using down by blast
      have "i < length services" using ij(3) dom by (meson tranclD)
      moreover have "j < length services" using ij(3) dom by (auto elim: tranclE)
      ultimately have "i = j" using ij inj by (metis inj_onD lessThan_iff)
      with ij ac show False by (auto simp: acyclic_def)
    qed
  qed
qed

lemma check_dependencies_ok:
  "check_dependencies index n line ds = Inr () \<longleftrightarrow> n \<notin> set ds \<and> (\<forall>d \<in> set ds. index d \<noteq> None)"
  by (induction ds) auto

lemma check_services_ok:
  "check_services index state ks = Inr () \<longleftrightarrow> (\<forall>i \<in> set ks. check_service index state i = Inr ())"
  by (induction ks) (auto split: sum.splits)

text \<open>The services alone are acceptable.\<close>

definition service_valid :: "ServiceConfig list \<Rightarrow> ServiceConfig \<Rightarrow> bool" where
  "service_valid services s \<longleftrightarrow> sc_binary s \<noteq> [] \<and> sc_restartDelay s \<le> sc_restartDelayMax s
     \<and> sc_name s \<notin> set (sc_dependsOn s) \<and> set (sc_dependsOn s) \<subseteq> sc_name ` set services"

definition endpoints_differ :: "ManagerSettings \<Rightarrow> bool" where
  "endpoints_differ m \<longleftrightarrow>
     distinct [ms_healthEndpoint m, ms_reportEndpoint m, ms_commandEndpoint m]"

lemma check_service_ok:
  "check_service (service_index (cf_services (ps_config state))) state i = Inr () \<longleftrightarrow>
   service_valid (cf_services (ps_config state)) (cf_services (ps_config state) ! i)"
  by (auto simp: check_service_def service_valid_def Let_def check_dependencies_ok service_index_None)

lemma services_valid_iff:
  "check_services (service_index services) state [0..<length services] = Inr () \<longleftrightarrow>
   (\<forall>s \<in> set services. service_valid services s)"
  if "services = cf_services (ps_config state)"
  unfolding that check_services_ok check_service_ok by (auto simp: all_set_conv_all_nth)

lemma valid_known: "\<forall>s \<in> set services. service_valid services s \<Longrightarrow> dependencies_known services"
  by (auto simp: service_valid_def dependencies_known_def)

lemma Validate_ok:
  assumes "distinct (map sc_name (cf_services (ps_config state)))"
  shows "Validate state = Some (Inr ()) \<longleftrightarrow>
    (\<forall>s \<in> set (cf_services (ps_config state)). service_valid (cf_services (ps_config state)) s)
    \<and> acyclic (depends_names (cf_services (ps_config state)))
    \<and> endpoints_differ (cf_manager (ps_config state))"
proof (cases "check_services (service_index (cf_services (ps_config state))) state
      [0..<length (cf_services (ps_config state))]")
  case (Inl e)
  then show ?thesis using services_valid_iff [OF refl, of state] by (auto simp: Validate_def)
next
  case (Inr u)
  then have valid: "\<forall>s \<in> set (cf_services (ps_config state)). service_valid (cf_services (ps_config state)) s"
    using services_valid_iff [OF refl, of state] by simp
  note known = valid_known [OF valid]
  from FindCycle_correct [OF service_index_ok [OF known]] show ?thesis
    using Inr valid acyclic_depends_names [OF assms known]
    by (auto simp: Validate_def Let_def endpoints_differ_def)
qed

lemma Validate_answers: "Validate state \<noteq> None"
proof (cases "check_services (service_index (cf_services (ps_config state))) state
      [0..<length (cf_services (ps_config state))]")
  case (Inl e)
  then show ?thesis by (simp add: Validate_def)
next
  case (Inr u)
  then have "\<forall>s \<in> set (cf_services (ps_config state)). service_valid (cf_services (ps_config state)) s"
    using services_valid_iff [OF refl, of state] by simp
  from FindCycle_correct [OF service_index_ok [OF valid_known [OF this]]] show ?thesis
    using Inr by (auto simp: Validate_def Let_def)
qed

section \<open>Properties\<close>

text \<open>
  C19: the depth-first search for dependency cycles is right. It always ends with an answer, never
  looks up an unknown name, and reports a cycle exactly when the dependency relation has one.
\<close>

theorem FindCycle_decides:
  assumes "dependencies_known services"
  shows "\<exists>answer. FindCycle services (service_index services) = Inr answer
    \<and> (answer = None \<longleftrightarrow> acyclic (depends services (service_index services)))"
  using FindCycle_correct [OF service_index_ok [OF assms]] by auto

definition two_services :: "ServiceConfig list" where
  "two_services = [default_ServiceConfig\<lparr>sc_name := ''a'', sc_dependsOn := [''b'']\<rparr>,
     default_ServiceConfig\<lparr>sc_name := ''b'', sc_dependsOn := [''a'']\<rparr>]"

theorem FindCycle_decides_witness:
  "FindCycle two_services (service_index two_services) = Inr (Some ''a -> b -> a'')
   \<and> \<not> acyclic (depends two_services (service_index two_services))"
proof -
  have "dependencies_known two_services"
    by (simp add: dependencies_known_def two_services_def default_ServiceConfig_def)
  from FindCycle_decides [OF this] obtain answer where
    answer: "FindCycle two_services (service_index two_services) = Inr answer"
    "answer = None \<longleftrightarrow> acyclic (depends two_services (service_index two_services))" by blast
  moreover have run: "FindCycle two_services (service_index two_services) = Inr (Some ''a -> b -> a'')"
    by code_simp
  ultimately show ?thesis by auto
qed

text \<open>
  C18: validation accepts a parsed configuration exactly when every service has a binary, an ordered
  pair of restart delays and dependencies on other listed services, the dependency relation between
  names is acyclic, and the three endpoints differ.
\<close>

theorem Validate_accepts_iff:
  assumes "distinct (map sc_name (cf_services (ps_config state)))"
  shows "Validate state = Some (Inr ()) \<longleftrightarrow>
    (\<forall>s \<in> set (cf_services (ps_config state)). service_valid (cf_services (ps_config state)) s)
    \<and> acyclic (depends_names (cf_services (ps_config state)))
    \<and> endpoints_differ (cf_manager (ps_config state))"
  using assms by (rule Validate_ok)

theorem Validate_accepts_iff_witness:
  "Validate initial_ParseState = Some (Inr ())"
proof -
  have "distinct (map sc_name (cf_services (ps_config initial_ParseState)))"
    by (simp add: initial_ParseState_def default_Config_def)
  from Validate_accepts_iff [OF this] show ?thesis
    by (simp add: initial_ParseState_def default_Config_def endpoints_differ_def
        default_ManagerSettings_def depends_names_def acyclic_def)
qed

end
