(* ===== verification/Config_Parser.thy ===== *)
theory Config_Parser
  imports Config_Validate
begin

text \<open>
  \<open>ConfigParser::ParseText\<close> and \<open>ParseFile\<close> (\<open>src/manager/src/ConfigParser.cpp\<close>): the loop over the
  lines, then \<open>Validate\<close>. The main result is the contract of the parser: what it returns has valid
  and distinct names, values in their ranges, dependencies that exist and have no cycle, and
  three different endpoints. It rests on an invariant of the parse state, kept by every line.
\<close>

definition utf8_bom :: string where
  "utf8_bom = [CHR 0xEF, CHR 0xBB, CHR 0xBF]"

definition strip_bom :: "string \<Rightarrow> string" where
  "strip_bom s = (if take (length utf8_bom) s = utf8_bom then drop (length utf8_bom) s else s)"

function ParseLoop :: "ParseState \<Rightarrow> int \<Rightarrow> string \<Rightarrow> ConfigError + ParseState" where
  "ParseLoop state line s =
     (case ParseLine state (takeWhile (\<lambda>c. c \<noteq> newline) s) (line + 1) of
        Inl e \<Rightarrow> Inl e
      | Inr state' \<Rightarrow>
          (case dropWhile (\<lambda>c. c \<noteq> newline) s of
             [] \<Rightarrow> Inr state'
           | c # rest \<Rightarrow> ParseLoop state' (line + 1) rest))"
  by pat_completeness auto
termination
proof (relation "measure (\<lambda>(state, line, s). length s)")
  fix s :: string and c rest
  assume "dropWhile (\<lambda>c. c \<noteq> newline) s = c # rest"
  then show "((st', ln', rest), (st, ln, s)) \<in> measure (\<lambda>(state, line, s). length s)" for st' ln' st ln
    using length_dropWhile_le [of "\<lambda>c. c \<noteq> newline" s] by simp
qed simp

declare ParseLoop.simps [simp del]

text \<open>\<open>None\<close> is a call that does not return; \<open>ParseText_answers\<close> shows that there is none.\<close>

definition ParseText :: "string \<Rightarrow> (ConfigError + Config) option" where
  "ParseText s =
     (case ParseLoop initial_ParseState 0 (strip_bom s) of
        Inl e \<Rightarrow> Some (Inl e)
      | Inr state \<Rightarrow>
          (case Validate state of
             None \<Rightarrow> None
           | Some (Inl e) \<Rightarrow> Some (Inl e)
           | Some (Inr _) \<Rightarrow> Some (Inr (ps_config state))))"

text \<open>The file system is a function from paths to contents.\<close>

definition ParseFile :: "(string \<Rightarrow> string option) \<Rightarrow> string \<Rightarrow> (ConfigError + Config) option" where
  "ParseFile ReadTextFile path =
     (case ReadTextFile path of
        None \<Rightarrow> Some (Fail Unreadable 0 (''cannot read '' @ path))
      | Some contents \<Rightarrow> map_option (map_result (\<lambda>c. c\<lparr>cf_path := path\<rparr>)) (ParseText contents))"

section \<open>The invariant of the parse state\<close>

definition service_bounds :: "ServiceConfig \<Rightarrow> bool" where
  "service_bounds s \<longleftrightarrow>
     0 \<le> sc_restartDelay s \<and> sc_restartDelay s \<le> max_duration_ms
     \<and> 0 \<le> sc_restartDelayMax s \<and> sc_restartDelayMax s \<le> max_duration_ms
     \<and> 0 \<le> sc_startGrace s \<and> sc_startGrace s \<le> max_duration_ms
     \<and> 0 \<le> sc_stopTimeout s \<and> sc_stopTimeout s \<le> max_duration_ms
     \<and> 0 \<le> sc_heartbeatInterval s \<and> sc_heartbeatInterval s \<le> max_duration_ms
     \<and> 0 \<le> sc_maxRestarts s \<and> sc_maxRestarts s \<le> max_count
     \<and> 1 \<le> sc_restartWindow s \<and> sc_restartWindow s \<le> max_window_s
     \<and> 1 \<le> sc_heartbeatTolerance s \<and> sc_heartbeatTolerance s \<le> max_count
     \<and> uint (sc_cpuMaxPercent s) \<le> max_cpu_percent
     \<and> (sc_output s = OM_File \<longrightarrow> is_absolute (sc_outputPath s))
     \<and> (sc_workingDirectory s = [] \<or> is_absolute (sc_workingDirectory s))
     \<and> list_all (\<lambda>v. ev_name v \<noteq> []) (sc_environment s)"

definition manager_bounds :: "ManagerSettings \<Rightarrow> bool" where
  "manager_bounds m \<longleftrightarrow> ms_healthEndpoint m \<noteq> [] \<and> ms_reportEndpoint m \<noteq> []
     \<and> ms_commandEndpoint m \<noteq> []
     \<and> min_publish_ms \<le> ms_publishInterval m \<and> ms_publishInterval m \<le> max_publish_ms"

definition services_ok :: "ServiceConfig list \<Rightarrow> bool" where
  "services_ok ss \<longleftrightarrow> distinct (map sc_name ss)
     \<and> (\<forall>s \<in> set ss. IsValidServiceName (sc_name s) \<and> service_bounds s)"

definition state_ok :: "ParseState \<Rightarrow> bool" where
  "state_ok st \<longleftrightarrow>
     services_ok (cf_services (ps_config st)) \<and> manager_bounds (cf_manager (ps_config st))
     \<and> service_bounds (ps_defaults st)
     \<and> (ps_section st = SectionService \<longrightarrow> ps_current st < length (cf_services (ps_config st)))
     \<and> length (ps_serviceLines st) = length (cf_services (ps_config st))
     \<and> length (ps_dependencyLines st) = length (cf_services (ps_config st))"

lemma default_service_bounds [simp]: "service_bounds default_ServiceConfig"
  by (simp add: service_bounds_def default_ServiceConfig_def max_duration_ms_def max_count_def
      max_window_s_def max_cpu_percent_def)

lemma initial_state_ok: "state_ok initial_ParseState"
  by (simp add: state_ok_def initial_ParseState_def default_Config_def services_ok_def
      manager_bounds_def default_ManagerSettings_def min_publish_ms_def max_publish_ms_def)

lemma service_bounds_name [simp]: "service_bounds (s\<lparr>sc_name := n\<rparr>) \<longleftrightarrow> service_bounds s"
  by (simp add: service_bounds_def)

lemma ApplyManagerKey_bounds:
  "ApplyManagerKey m key value line = Inr m' \<Longrightarrow> manager_bounds m \<Longrightarrow> manager_bounds m'"
  unfolding ApplyManagerKey_def manager_bounds_def Let_def
  by (auto split: if_splits option.splits dest!: ReadNumber_range)

lemma ApplyOutput_bounds:
  "ApplyOutput s value line = Inr s' \<Longrightarrow> service_bounds s \<Longrightarrow>
   service_bounds s' \<and> sc_name s' = sc_name s"
  unfolding ApplyOutput_def Let_def by (auto simp: service_bounds_def split: if_splits)

lemma apply_env_bounds:
  "apply_env s value line = Inr s' \<Longrightarrow> service_bounds s \<Longrightarrow>
   service_bounds s' \<and> sc_name s' = sc_name s"
  unfolding apply_env_def Let_def by (auto simp: service_bounds_def split: if_splits)

text \<open>One update of a service that keeps it within bounds.\<close>

lemma bounds_updates:
  assumes "service_bounds s"
  shows "service_bounds (s\<lparr>sc_description := x\<rparr>)" "service_bounds (s\<lparr>sc_binary := x\<rparr>)"
    "service_bounds (s\<lparr>sc_arguments := xs\<rparr>)" "service_bounds (s\<lparr>sc_autostart := b\<rparr>)"
    "service_bounds (s\<lparr>sc_restart := mode\<rparr>)" "service_bounds (s\<lparr>sc_stopSignal := sig\<rparr>)"
    "service_bounds (s\<lparr>sc_unhealthyAction := act\<rparr>)" "service_bounds (s\<lparr>sc_dependsOn := xs\<rparr>)"
    "service_bounds (s\<lparr>sc_memoryMax := w\<rparr>)"
    "x = [] \<or> is_absolute x \<Longrightarrow> service_bounds (s\<lparr>sc_workingDirectory := x\<rparr>)"
    "0 \<le> d \<Longrightarrow> d \<le> max_duration_ms \<Longrightarrow> service_bounds (s\<lparr>sc_restartDelay := d\<rparr>)"
    "0 \<le> d \<Longrightarrow> d \<le> max_duration_ms \<Longrightarrow> service_bounds (s\<lparr>sc_restartDelayMax := d\<rparr>)"
    "0 \<le> d \<Longrightarrow> d \<le> max_duration_ms \<Longrightarrow> service_bounds (s\<lparr>sc_startGrace := d\<rparr>)"
    "0 \<le> d \<Longrightarrow> d \<le> max_duration_ms \<Longrightarrow> service_bounds (s\<lparr>sc_stopTimeout := d\<rparr>)"
    "0 \<le> d \<Longrightarrow> d \<le> max_duration_ms \<Longrightarrow> service_bounds (s\<lparr>sc_heartbeatInterval := d\<rparr>)"
    "0 \<le> d \<Longrightarrow> d \<le> max_count \<Longrightarrow> service_bounds (s\<lparr>sc_maxRestarts := d\<rparr>)"
    "1 \<le> d \<Longrightarrow> d \<le> max_window_s \<Longrightarrow> service_bounds (s\<lparr>sc_restartWindow := d\<rparr>)"
    "1 \<le> d \<Longrightarrow> d \<le> max_count \<Longrightarrow> service_bounds (s\<lparr>sc_heartbeatTolerance := d\<rparr>)"
    "uint p \<le> max_cpu_percent \<Longrightarrow> service_bounds (s\<lparr>sc_cpuMaxPercent := p\<rparr>)"
  using assms by (simp_all add: service_bounds_def)

lemma max_cpu_percent_nonneg [simp]: "0 \<le> max_cpu_percent"
  by (simp add: max_cpu_percent_def)

lemma ApplyServiceKey_bounds:
  assumes "ApplyServiceKey s defaults key value line dl = Inr (s', dl')" and "service_bounds s"
  shows "service_bounds s' \<and> sc_name s' = sc_name s"
  using assms(1)
  unfolding ApplyServiceKey_def Let_def ApplyDuration_def
  by (auto intro!: bounds_updates [OF assms(2)]
      dest!: ReadNumber_range ParsePercent_bound ApplyOutput_bounds [OF _ assms(2)] apply_env_bounds [OF _ assms(2)]
      split: if_splits option.splits sum.splits)

lemma services_ok_update:
  assumes "services_ok ss" and "i < length ss" and "sc_name s = sc_name (ss ! i)" and "service_bounds s"
  shows "services_ok (ss[i := s])"
proof -
  have "map sc_name (ss[i := s]) = map sc_name ss"
    using assms(2,3) by (simp add: map_update list_update_same_conv)
  moreover have "\<forall>x \<in> set (ss[i := s]). IsValidServiceName (sc_name x) \<and> service_bounds x"
  proof
    fix x assume "x \<in> set (ss[i := s])"
    then have "x = s \<or> x \<in> set ss" using set_update_subset_insert by fastforce
    then show "IsValidServiceName (sc_name x) \<and> service_bounds x"
      using assms by (auto simp: services_ok_def)
  qed
  ultimately show ?thesis using assms(1) by (simp add: services_ok_def)
qed

lemma OpenSection_ok:
  "OpenSection st inner line = Inr st' \<Longrightarrow> state_ok st \<Longrightarrow> state_ok st'"
  unfolding OpenSection_def Let_def
  by (auto simp: state_ok_def services_ok_def FindService_None split: if_splits)

lemma apply_key_ok:
  assumes "apply_key st key value line = Inr st'" and "state_ok st" and "ps_section st \<noteq> SectionNone"
  shows "state_ok st'"
proof (cases "ps_section st")
  case SectionManager
  with assms show ?thesis
    by (auto simp: apply_key_def state_ok_def dest: ApplyManagerKey_bounds)
next
  case SectionDefaults
  with assms show ?thesis
    by (auto simp: apply_key_def state_ok_def dest: ApplyServiceKey_bounds)
next
  case SectionService
  let ?ss = "cf_services (ps_config st)" and ?i = "ps_current st"
  have i: "?i < length ?ss" using assms SectionService by (simp add: state_ok_def)
  then have "?ss ! ?i \<in> set ?ss" by simp
  with assms(2) have b: "service_bounds (?ss ! ?i)" by (simp add: state_ok_def services_ok_def)
  from assms SectionService obtain s dl where
    s: "ApplyServiceKey (?ss ! ?i) False key value line (ps_dependencyLines st ! ?i) = Inr (s, dl)"
    and st': "st' = st\<lparr>ps_config := (ps_config st)\<lparr>cf_services := ?ss[?i := s]\<rparr>,
                    ps_dependencyLines := (ps_dependencyLines st)[?i := dl]\<rparr>"
    by (auto simp: apply_key_def Let_def)
  from ApplyServiceKey_bounds [OF s b] i assms(2) have "services_ok (?ss[?i := s])"
    by (auto simp: state_ok_def intro!: services_ok_update)
  with assms(2) st' show ?thesis by (simp add: state_ok_def)
qed (use assms in simp)

lemma state_ok_seen [simp]: "state_ok (st\<lparr>ps_seenKeys := K\<rparr>) \<longleftrightarrow> state_ok st"
  by (simp add: state_ok_def)

lemma ParseLine_ok:
  assumes "ParseLine st raw line = Inr st'" and "state_ok st"
  shows "state_ok st'"
  using assms unfolding ParseLine_def Let_def
  by (auto split: if_splits intro: OpenSection_ok apply_key_ok)

lemma ParseLoop_ok: "ParseLoop st line s = Inr st' \<Longrightarrow> state_ok st \<Longrightarrow> state_ok st'"
proof (induction st line s rule: ParseLoop.induct)
  case (1 st line s)
  from "1.prems"(1) obtain st1 where st1: "ParseLine st (takeWhile (\<lambda>c. c \<noteq> newline) s) (line + 1) = Inr st1"
    by (subst (asm) ParseLoop.simps) (auto split: sum.splits)
  then have "state_ok st1" using "1.prems"(2) by (rule ParseLine_ok)
  with 1 st1 show ?case
    by (subst (asm) (2) ParseLoop.simps) (auto split: list.splits)
qed

section \<open>The contract of the parser\<close>

definition config_ok :: "Config \<Rightarrow> bool" where
  "config_ok c \<longleftrightarrow>
     services_ok (cf_services c) \<and> manager_bounds (cf_manager c)
     \<and> (\<forall>s \<in> set (cf_services c). service_valid (cf_services c) s)
     \<and> acyclic (depends_names (cf_services c)) \<and> endpoints_differ (cf_manager c)"

lemma ParseText_config_ok: "ParseText s = Some (Inr c) \<Longrightarrow> config_ok c"
proof -
  assume "ParseText s = Some (Inr c)"
  then obtain st where st: "ParseLoop initial_ParseState 0 (strip_bom s) = Inr st"
    and v: "Validate st = Some (Inr ())" and c: "c = ps_config st"
    by (auto simp: ParseText_def split: sum.splits option.splits)
  from st initial_state_ok have "state_ok st" by (rule ParseLoop_ok)
  then have "services_ok (cf_services c)" "manager_bounds (cf_manager c)"
    using c by (auto simp: state_ok_def)
  with v c show ?thesis by (simp add: config_ok_def Validate_ok services_ok_def)
qed

lemma ParseText_total: "ParseText s \<noteq> None"
  by (simp add: ParseText_def Validate_answers split: sum.splits option.splits)

lemma ParseFile_ok:
  "ParseFile files path = Some (Inr c) \<Longrightarrow> cf_path c = path \<and> config_ok c"
  by (auto simp: ParseFile_def config_ok_def map_option_case split: option.splits
      dest!: ParseText_config_ok)

section \<open>Properties\<close>

text \<open>
  C17: parsing a configuration always ends with a result, and a configuration it accepts meets its
  contract: valid and distinct service names, every duration, count and percentage within its
  bounds, a binary for each service, known dependencies without a cycle, endpoints that differ.
\<close>

theorem ParseText_contract:
  "ParseText s \<noteq> None \<and> (\<forall>c. ParseText s = Some (Inr c) \<longrightarrow> config_ok c)"
  using ParseText_total [of s] ParseText_config_ok [of s] by blast

definition sample_text :: string where
  "sample_text = ''[service a]'' @ [CHR 0x0A] @ ''binary=b''"

theorem ParseText_contract_witness:
  "\<exists>c. ParseText sample_text = Some (Inr c) \<and> config_ok c
     \<and> map sc_binary (cf_services c) = [''b'']"
proof -
  have "(case ParseText sample_text of
       Some (Inr c) \<Rightarrow> map sc_binary (cf_services c) = [''b''] | _ \<Rightarrow> False)"
    unfolding sample_text_def by code_simp
  then obtain c where c: "ParseText sample_text = Some (Inr c)" "map sc_binary (cf_services c) = [''b'']"
    by (auto split: option.splits sum.splits)
  from ParseText_contract [of sample_text] have "\<forall>c. ParseText sample_text = Some (Inr c) \<longrightarrow> config_ok c"
    by (rule conjunct2)
  then have "ParseText sample_text = Some (Inr c) \<longrightarrow> config_ok c" by (rule spec)
  then have "config_ok c" using c(1) by (rule mp)
  with c show ?thesis by (intro exI [of _ c] conjI)
qed

end
