(* ===== verification/Process_Table.thy ===== *)
theory Process_Table
  imports Prelude
begin

text \<open>
  The process snapshot (\<open>src/manager/include/ProcessTable.hpp\<close>, \<open>src/ProcessTable.cpp\<close>). The hash
  map is a list of entries with distinct process IDs; its iteration order is the list's, and the
  result of \<open>Members\<close> is shown not to depend on it: it is the set of live processes in the
  leader's session with all their live descendants. The worklist loop terminates although a
  process may be pushed more than once.
\<close>

record ProcessEntry =
  pe_pid :: int
  pe_parentPid :: int
  pe_processGroup :: int
  pe_session :: int
  pe_cpuTimeUsec :: "64 word"
  pe_childCpuTimeUsec :: "64 word"
  pe_rssBytes :: "64 word"
  pe_threads :: int
  pe_zombie :: bool

type_synonym ProcessTable = "ProcessEntry list"

fun ProcessTable_Add :: "ProcessEntry \<Rightarrow> ProcessTable \<Rightarrow> ProcessTable" where
  "ProcessTable_Add e [] = [e]"
| "ProcessTable_Add e (x # xs) = (if pe_pid x = pe_pid e then e # xs else x # ProcessTable_Add e xs)"

definition ProcessTable_Find :: "ProcessTable \<Rightarrow> int \<Rightarrow> ProcessEntry option" where
  "ProcessTable_Find t pid = find (\<lambda>e. pe_pid e = pid) t"

definition ProcessTable_Size :: "ProcessTable \<Rightarrow> nat" where
  "ProcessTable_Size t = length t"

text \<open>The live children of a process, as the map \<open>children\<close> lists them.\<close>

definition live_children :: "ProcessTable \<Rightarrow> int \<Rightarrow> int list" where
  "live_children t pid =
     map pe_pid (filter (\<lambda>e. \<not> pe_zombie e \<and> pe_parentPid e = pid) t)"

definition live_session :: "ProcessTable \<Rightarrow> int \<Rightarrow> int set" where
  "live_session t leader = pe_pid ` set (filter (\<lambda>e. \<not> pe_zombie e \<and> pe_session e = leader) t)"

text \<open>The worklist; the last element is the next one.\<close>

function members_loop :: "ProcessTable \<Rightarrow> int set \<Rightarrow> int list \<Rightarrow> int set" where
  "members_loop t found pending =
     (if pending = [] then found
      else let pid = last pending;
               found' = insert pid found;
               kids = filter (\<lambda>c. c \<notin> found') (live_children t pid)
           in members_loop t found' (butlast pending @ kids))"
  by pat_completeness auto

definition universe :: "ProcessTable \<Rightarrow> int list \<Rightarrow> int set" where
  "universe t pending = pe_pid ` set t \<union> set pending"

definition todo :: "ProcessTable \<Rightarrow> int set \<Rightarrow> int list \<Rightarrow> nat" where
  "todo t found pending = card (universe t pending - found)"

lemma universe_step:
  "universe t (butlast pending @ filter P (live_children t pid)) \<subseteq> universe t pending"
  by (auto simp: universe_def live_children_def dest: in_set_butlastD)

lemma finite_universe [simp]: "finite (universe t pending)"
  by (simp add: universe_def)

termination members_loop
proof (relation "measures [\<lambda>(t, found, pending). todo t found pending,
    \<lambda>(t, found, pending). if pending \<noteq> [] \<and> last pending \<in> found then 1 + length pending else 0]")
  fix t found and pending :: "int list" and pid found' kids
  assume ne: "pending \<noteq> []" and pid: "pid = last pending" and found': "found' = insert pid found"
    and kids: "kids = filter (\<lambda>c. c \<notin> found') (live_children t pid)"
  let ?p = "butlast pending @ kids"
  have sub: "universe t ?p - found' \<subseteq> universe t pending - found"
    using universe_step [of t pending] found' kids by blast
  show "((t, found', ?p), (t, found, pending)) \<in> measures [\<lambda>(t, found, pending). todo t found pending,
    \<lambda>(t, found, pending). if pending \<noteq> [] \<and> last pending \<in> found then 1 + length pending else 0]"
  proof (cases "pid \<in> found")
    case False
    have "pid \<in> universe t pending - found" "pid \<notin> universe t ?p - found'"
      using False pid ne found' by (auto simp: universe_def)
    with sub have "universe t ?p - found' \<subset> universe t pending - found" by blast
    then show ?thesis by (simp add: todo_def psubset_card_mono)
  next
    case True
    have le: "todo t found' ?p \<le> todo t found pending"
      unfolding todo_def using sub by (intro card_mono) auto
    have "(if ?p \<noteq> [] \<and> last ?p \<in> found' then 1 + length ?p else 0) < 1 + length pending"
    proof (cases "kids = []")
      case False
      then have "last kids \<in> set kids" by simp
      with kids have "last kids \<notin> found'" by simp
      with False show ?thesis by simp
    qed (use ne in auto)
    with le True ne pid show ?thesis by (simp add: le_less)
  qed
qed simp

declare members_loop.simps [simp del]

definition ProcessTable_Members :: "ProcessTable \<Rightarrow> int \<Rightarrow> int list" where
  "ProcessTable_Members t leader =
     (if leader \<le> 0 then []
      else let found = live_session t leader;
               main = (case ProcessTable_Find t leader of
                         Some e \<Rightarrow> if pe_zombie e then [] else [leader]
                       | None \<Rightarrow> [])
           in sorted_list_of_set (members_loop t found (main @ sorted_list_of_set found)))"

section \<open>What Members returns\<close>

definition table_ok :: "ProcessTable \<Rightarrow> bool" where
  "table_ok t \<longleftrightarrow> distinct (map pe_pid t)"

definition parent_of :: "ProcessTable \<Rightarrow> (int \<times> int) set" where
  "parent_of t = {(pe_parentPid e, pe_pid e) | e. e \<in> set t \<and> \<not> pe_zombie e}"

definition live_pids :: "ProcessTable \<Rightarrow> int set" where
  "live_pids t = {pe_pid e | e. e \<in> set t \<and> \<not> pe_zombie e}"

text \<open>The processes of a service: its live leader, its live session and all live descendants.\<close>

definition service_processes :: "ProcessTable \<Rightarrow> int \<Rightarrow> int set" where
  "service_processes t leader =
     (parent_of t)\<^sup>* `` (live_session t leader \<union> ({leader} \<inter> live_pids t))"

lemma live_children_parent: "c \<in> set (live_children t pid) \<longleftrightarrow> (pid, c) \<in> parent_of t"
  by (auto simp: live_children_def parent_of_def)

lemma members_loop_correct:
  assumes "found \<subseteq> R" and "set pending \<subseteq> R" and "parent_of t `` R \<subseteq> R"
    and "parent_of t `` (found - set pending) \<subseteq> found \<union> set pending"
  shows "members_loop t found pending \<subseteq> R \<and> found \<union> set pending \<subseteq> members_loop t found pending
    \<and> parent_of t `` members_loop t found pending \<subseteq> members_loop t found pending"
  using assms
proof (induction t found pending rule: members_loop.induct)
  case (1 t found pending)
  show ?case
  proof (cases "pending = []")
    case True
    with "1.prems" show ?thesis by (simp add: members_loop.simps)
  next
    case False
    let ?pid = "last pending"
    let ?found = "insert ?pid found"
    let ?kids = "filter (\<lambda>c. c \<notin> ?found) (live_children t ?pid)"
    let ?p = "butlast pending @ ?kids"
    have split: "set pending = insert ?pid (set (butlast pending))"
      using False by (metis append_butlast_last_id list.simps(15) rotate1.simps(2) set_rotate1)
    have kids: "set ?kids = parent_of t `` {?pid} - ?found"
      by (auto simp: live_children_parent)
    have "members_loop t ?found ?p \<subseteq> R \<and> ?found \<union> set ?p \<subseteq> members_loop t ?found ?p
      \<and> parent_of t `` members_loop t ?found ?p \<subseteq> members_loop t ?found ?p"
    proof (rule "1.IH" [OF False refl refl refl])
      show "?found \<subseteq> R" using "1.prems" split by auto
      show "set ?p \<subseteq> R" using "1.prems" split kids by auto
      show "parent_of t `` R \<subseteq> R" by (rule "1.prems")
      show "parent_of t `` (?found - set ?p) \<subseteq> ?found \<union> set ?p"
        using "1.prems"(4) split kids by (auto simp: Image_iff)
    qed
    with split False show ?thesis by (subst (1 2 3 4) members_loop.simps) (auto simp: Let_def)
  qed
qed

lemma finite_live_session [simp]: "finite (live_session t leader)"
proof -
  have "live_session t leader \<subseteq> pe_pid ` set t" by (auto simp: live_session_def)
  then show ?thesis by (rule finite_subset) simp
qed

lemma service_processes_subset: "service_processes t leader \<subseteq> live_pids t"
proof
  fix x assume "x \<in> service_processes t leader"
  then obtain y where "(y, x) \<in> (parent_of t)\<^sup>*" "y \<in> live_session t leader \<union> ({leader} \<inter> live_pids t)"
    by (auto simp: service_processes_def)
  then show "x \<in> live_pids t"
    by (induction rule: rtrancl_induct) (auto simp: live_session_def live_pids_def parent_of_def)
qed

lemma finite_service_processes [simp]: "finite (service_processes t leader)"
proof (rule finite_subset [OF service_processes_subset])
  have "live_pids t \<subseteq> pe_pid ` set t" by (auto simp: live_pids_def)
  then show "finite (live_pids t)" by (rule finite_subset) simp
qed

lemma find_live:
  "table_ok t \<Longrightarrow> (\<exists>e. ProcessTable_Find t pid = Some e \<and> \<not> pe_zombie e) \<longleftrightarrow> pid \<in> live_pids t"
proof (induction t)
  case (Cons e t)
  then show ?case
    by (auto simp: table_ok_def ProcessTable_Find_def live_pids_def)
qed (simp add: ProcessTable_Find_def live_pids_def)

lemma Members_correct:
  assumes ok: "table_ok t" and pos: "0 < leader"
  shows "ProcessTable_Members t leader = sorted_list_of_set (service_processes t leader)"
proof -
  let ?S = "live_session t leader" and ?R = "service_processes t leader"
  let ?main = "case ProcessTable_Find t leader of Some e \<Rightarrow> if pe_zombie e then [] else [leader] | None \<Rightarrow> []"
  let ?p = "?main @ sorted_list_of_set ?S"
  have main: "set ?main = {leader} \<inter> live_pids t"
    using find_live [OF ok, of leader] by (auto split: option.splits)
  then have p: "set ?p = ?S \<union> ({leader} \<inter> live_pids t)" by auto
  let ?M = "members_loop t ?S ?p"
  have base: "?S \<union> ({leader} \<inter> live_pids t) \<subseteq> ?R" unfolding service_processes_def by auto
  have closed: "parent_of t `` ?R \<subseteq> ?R"
    unfolding service_processes_def by (auto intro: rtrancl_into_rtrancl)
  have all: "?M \<subseteq> ?R \<and> ?S \<union> set ?p \<subseteq> ?M \<and> parent_of t `` ?M \<subseteq> ?M"
    by (rule members_loop_correct) (use base closed p in auto)
  from all [unfolded p] have M: "?M \<subseteq> ?R" "?S \<union> ({leader} \<inter> live_pids t) \<subseteq> ?M"
    "parent_of t `` ?M \<subseteq> ?M" by blast+
  have "?R \<subseteq> ?M"
  proof
    fix x assume "x \<in> ?R"
    then obtain y where yx: "(y, x) \<in> (parent_of t)\<^sup>*" and y: "y \<in> ?S \<union> ({leader} \<inter> live_pids t)"
      by (auto simp: service_processes_def)
    from yx show "x \<in> ?M"
    proof (induction rule: rtrancl_induct)
      case base
      then show ?case using M(2) y by blast
    next
      case (step u v)
      then show ?case using M(3) by blast
    qed
  qed
  with M(1) have "?M = ?R" by blast
  with pos show ?thesis by (simp add: ProcessTable_Members_def Let_def)
qed

lemma table_ok_Add: "table_ok t \<Longrightarrow> table_ok (ProcessTable_Add e t)"
proof -
  have "set (map pe_pid (ProcessTable_Add e t)) = insert (pe_pid e) (pe_pid ` set t)" for t
    by (induction t) auto
  then show "table_ok t \<Longrightarrow> table_ok (ProcessTable_Add e t)"
    unfolding table_ok_def by (induction t) (auto simp: image_iff)
qed

lemma Find_Add:
  "ProcessTable_Find (ProcessTable_Add e t) pid
    = (if pid = pe_pid e then Some e else ProcessTable_Find t pid)"
  by (induction t) (auto simp: ProcessTable_Find_def)

section \<open>Properties\<close>

text \<open>
  C38: the processes of a service are its live main process, every live process of its session and
  all their live descendants, listed once each in ascending order, however the hash map orders its
  entries; the worklist loop always ends.
\<close>

theorem Members_are_service_processes:
  assumes "table_ok t" and "0 < leader"
  shows "ProcessTable_Members t leader = sorted_list_of_set (service_processes t leader)"
  using assms by (rule Members_correct)

definition sample_entry :: "int \<Rightarrow> int \<Rightarrow> int \<Rightarrow> ProcessEntry" where
  "sample_entry pid parent session =
     \<lparr>pe_pid = pid, pe_parentPid = parent, pe_processGroup = pid, pe_session = session,
      pe_cpuTimeUsec = 0, pe_childCpuTimeUsec = 0, pe_rssBytes = 0, pe_threads = 1, pe_zombie = False\<rparr>"

text \<open>Process 12 left the session of 10 but descends from it; 20 does not belong to it.\<close>

theorem Members_are_service_processes_witness:
  "sorted_list_of_set (service_processes
      [sample_entry 12 11 12, sample_entry 20 1 20, sample_entry 11 10 10, sample_entry 10 1 10] 10)
   = [10, 11, 12]"
proof -
  let ?t = "[sample_entry 12 11 12, sample_entry 20 1 20, sample_entry 11 10 10, sample_entry 10 1 10]"
  have "table_ok ?t" by (simp add: table_ok_def sample_entry_def)
  from Members_are_service_processes [OF this, of 10]
  have "sorted_list_of_set (service_processes ?t 10) = ProcessTable_Members ?t 10" by simp
  also have "\<dots> = [10, 11, 12]" by code_simp
  finally show ?thesis .
qed

end
