(* ===== verification/Float64.thy ===== *)
theory Float64
  imports Prelude Complex_Main
begin

text \<open>
  The \<open>double\<close> arithmetic the manager uses, on the 64 bits of IEEE 754 binary64: conversion from
  integers, addition, multiplication, division and comparison, each the exact result rounded to
  nearest, ties to even. The lemmas relate a double to the rational it stands for.
\<close>

section \<open>Decoding\<close>

datatype fp = FNaN | FInf bool | FFin bool nat int

definition two52 :: nat where "two52 = 4503599627370496"

text \<open>\<open>FFin s m e\<close> is the number \<open>m * 2 ^ e\<close>, negative when \<open>s\<close>.\<close>

definition fp_of :: "double \<Rightarrow> fp" where
  "fp_of d =
     (let n = unat d; sign = (n \<ge> 2 ^ 63); ex = (n div two52) mod 2048; frac = n mod two52
      in if ex = 2047 then (if frac = 0 then FInf sign else FNaN)
         else if ex = 0 then FFin sign frac (- 1074)
         else FFin sign (frac + two52) (int ex - 1075))"

definition scale_pair :: "nat \<Rightarrow> nat \<Rightarrow> int \<Rightarrow> nat \<times> nat" where
  "scale_pair num den e = (if e \<ge> 0 then (num, den * 2 ^ nat e) else (num * 2 ^ nat (- e), den))"

fun bit_length :: "nat \<Rightarrow> nat" where
  "bit_length n = (if n = 0 then 0 else Suc (bit_length (n div 2)))"

declare bit_length.simps [simp del]

definition round_div :: "nat \<Rightarrow> nat \<Rightarrow> nat" where
  "round_div a b =
     (let q = a div b; r = a mod b
      in if 2 * r > b \<or> (2 * r = b \<and> odd q) then q + 1 else q)"

section \<open>Rounding\<close>

definition sign_bit :: "bool \<Rightarrow> double" where
  "sign_bit s = (if s then 0x8000000000000000 else 0)"

definition double_inf :: double where "double_inf = 0x7FF0000000000000"
definition double_nan :: double where "double_nan = 0x7FF8000000000000"

text \<open>The double next to \<open>num / den\<close>.\<close>

definition round_ratio :: "bool \<Rightarrow> nat \<Rightarrow> nat \<Rightarrow> double" where
  "round_ratio sign num den =
     (if num = 0 then sign_bit sign
      else let e0 = max (int (bit_length num) - int (bit_length den) - 53) (- 1074);
               q0 = (case scale_pair num den e0 of (a, b) \<Rightarrow> a div b);
               e = (if q0 \<ge> 2 * two52 then e0 + 1 else e0);
               n = (case scale_pair num den e of (a, b) \<Rightarrow> round_div a b);
               bits = nat (e + 1074) * two52 + n
           in if bits \<ge> 2047 * two52 then sign_bit sign + double_inf
              else sign_bit sign + word_of_nat bits)"

definition round_scaled :: "bool \<Rightarrow> nat \<Rightarrow> int \<Rightarrow> double" where
  "round_scaled sign m e =
     (if e \<ge> 0 then round_ratio sign (m * 2 ^ nat e) 1 else round_ratio sign m (2 ^ nat (- e)))"

definition double_of_int :: "int \<Rightarrow> double" where
  "double_of_int i = round_ratio (i < 0) (nat \<bar>i\<bar>) 1"

definition double_of_word :: "'a :: len word \<Rightarrow> double" where
  "double_of_word w = round_ratio False (unat w) 1"

section \<open>Arithmetic\<close>

definition signed_mantissa :: "bool \<Rightarrow> nat \<Rightarrow> int \<Rightarrow> int \<Rightarrow> int" where
  "signed_mantissa s m e low = (if s then - 1 else 1) * int m * 2 ^ nat (e - low)"

definition fp_add :: "double \<Rightarrow> double \<Rightarrow> double" where
  "fp_add x y =
     (case (fp_of x, fp_of y) of
        (FNaN, _) \<Rightarrow> double_nan
      | (_, FNaN) \<Rightarrow> double_nan
      | (FInf s, FInf t) \<Rightarrow> (if s = t then sign_bit s + double_inf else double_nan)
      | (FInf s, _) \<Rightarrow> sign_bit s + double_inf
      | (_, FInf t) \<Rightarrow> sign_bit t + double_inf
      | (FFin s m e, FFin t n f) \<Rightarrow>
          (let low = min e f; v = signed_mantissa s m e low + signed_mantissa t n f low
           in if v = 0 then sign_bit (s \<and> t \<and> m = 0 \<and> n = 0)
              else round_scaled (v < 0) (nat \<bar>v\<bar>) low))"

definition fp_mul :: "double \<Rightarrow> double \<Rightarrow> double" where
  "fp_mul x y =
     (case (fp_of x, fp_of y) of
        (FNaN, _) \<Rightarrow> double_nan
      | (_, FNaN) \<Rightarrow> double_nan
      | (FInf s, FInf t) \<Rightarrow> sign_bit (s \<noteq> t) + double_inf
      | (FInf s, FFin t n f) \<Rightarrow> (if n = 0 then double_nan else sign_bit (s \<noteq> t) + double_inf)
      | (FFin s m e, FInf t) \<Rightarrow> (if m = 0 then double_nan else sign_bit (s \<noteq> t) + double_inf)
      | (FFin s m e, FFin t n f) \<Rightarrow> round_scaled (s \<noteq> t) (m * n) (e + f))"

definition fp_div :: "double \<Rightarrow> double \<Rightarrow> double" where
  "fp_div x y =
     (case (fp_of x, fp_of y) of
        (FNaN, _) \<Rightarrow> double_nan
      | (_, FNaN) \<Rightarrow> double_nan
      | (FInf s, FInf t) \<Rightarrow> double_nan
      | (FInf s, FFin t n f) \<Rightarrow> sign_bit (s \<noteq> t) + double_inf
      | (FFin s m e, FInf t) \<Rightarrow> sign_bit (s \<noteq> t)
      | (FFin s m e, FFin t n f) \<Rightarrow>
          (if n = 0 then (if m = 0 then double_nan else sign_bit (s \<noteq> t) + double_inf)
           else case scale_pair m n (f - e) of (a, b) \<Rightarrow> round_ratio (s \<noteq> t) a b))"

text \<open>Comparison; false whenever an operand is not a number.\<close>

definition fp_compare :: "double \<Rightarrow> double \<Rightarrow> int option" where
  "fp_compare x y =
     (case (fp_of x, fp_of y) of
        (FNaN, _) \<Rightarrow> None
      | (_, FNaN) \<Rightarrow> None
      | (FInf s, FInf t) \<Rightarrow> Some ((if s then - 1 else 1) - (if t then - 1 else 1))
      | (FInf s, _) \<Rightarrow> Some (if s then - 1 else 1)
      | (_, FInf t) \<Rightarrow> Some (if t then 1 else - 1)
      | (FFin s m e, FFin t n f) \<Rightarrow>
          (let low = min e f in Some (signed_mantissa s m e low - signed_mantissa t n f low)))"

definition fp_less :: "double \<Rightarrow> double \<Rightarrow> bool" where
  "fp_less x y \<longleftrightarrow> (case fp_compare x y of Some c \<Rightarrow> c < 0 | None \<Rightarrow> False)"

definition fp_leq :: "double \<Rightarrow> double \<Rightarrow> bool" where
  "fp_leq x y \<longleftrightarrow> (case fp_compare x y of Some c \<Rightarrow> c \<le> 0 | None \<Rightarrow> False)"

definition fp_is_nan :: "double \<Rightarrow> bool" where
  "fp_is_nan x \<longleftrightarrow> fp_of x = FNaN"

section \<open>Values\<close>

text \<open>The rational a finite double stands for.\<close>

definition fin_value :: "bool \<Rightarrow> nat \<Rightarrow> int \<Rightarrow> real" where
  "fin_value s m e = (if s then - 1 else 1) * real m * 2 powi e"

definition is_finite :: "double \<Rightarrow> bool" where
  "is_finite d \<longleftrightarrow> (case fp_of d of FFin s m e \<Rightarrow> True | _ \<Rightarrow> False)"

definition double_value :: "double \<Rightarrow> real" where
  "double_value d = (case fp_of d of FFin s m e \<Rightarrow> fin_value s m e | _ \<Rightarrow> 0)"

lemma signed_mantissa_value:
  assumes "low \<le> e"
  shows "real_of_int (signed_mantissa s m e low) * 2 powi low = fin_value s m e"
proof -
  have "(2 :: real) ^ nat (e - low) = 2 powi (e - low)" using assms by (simp add: power_int_def)
  then have "(2 :: real) ^ nat (e - low) * 2 powi low = 2 powi e" by (simp flip: power_int_add)
  then show ?thesis by (simp add: signed_mantissa_def fin_value_def mult.assoc)
qed

end
