(* ===== verification/Instant.thy ===== *)
theory Instant
  imports Prelude
begin

text \<open>
  One moment on both clocks (\<open>src/manager/include/Instant.hpp\<close>, \<open>Instant.cpp\<close>). Both readings are
  integers of nanoseconds; reading the clocks (\<open>Now\<close>) is left to the caller.
\<close>

record Instant =
  in_steady :: nanos
  in_wallNs :: int

definition Advance :: "Instant \<Rightarrow> millis \<Rightarrow> Instant" where
  "Advance now delta =
     \<lparr>in_steady = in_steady now + ns_of_ms delta, in_wallNs = in_wallNs now + ns_of_ms delta\<rparr>"

definition WallTimeOf :: "Instant \<Rightarrow> nanos \<Rightarrow> int" where
  "WallTimeOf reference at = in_wallNs reference + (at - in_steady reference)"

lemma WallTimeOf_Advance: "WallTimeOf now (in_steady (Advance now d)) = in_wallNs (Advance now d)"
  by (simp add: WallTimeOf_def Advance_def)

lemma Advance_back: "Advance (Advance now d) (- d) = now"
  by (simp add: Advance_def ns_of_ms_def)

end
