(* ===== verification/Process_Launcher.thy ===== *)
theory Process_Launcher
  imports Service_Config Process_Table
begin

text \<open>
  The launcher interface (\<open>src/manager/include/ProcessLauncher.hpp\<close>, \<open>ProcessLauncher.cpp\<close>). A
  \<open>ChildProcess\<close> object is a handle, the address its \<open>unique_ptr\<close> holds; the virtual functions of
  \<open>ProcessLauncher\<close> and \<open>ChildProcess\<close> are the fields of a \<open>launcher\<close> record over the type of
  the outside world. The locale \<open>process_launcher\<close> is the ownership contract between the launcher
  and the services: which handles are alive, and which calls change that.
\<close>

definition kill_grace :: millis where "kill_grace = 5000"

record ExitStatus =
  ex_code :: int
  ex_signal :: int

record UsageSample =
  us_cpuTimeUsec :: "64 word"
  us_memoryBytes :: "64 word"
  us_memoryPeakBytes :: "64 word"
  us_ioReadBytes :: "64 word"
  us_ioWriteBytes :: "64 word"
  us_oomKills :: "32 word"
  us_processCount :: int
  us_threadCount :: int
  us_openFiles :: int
  us_cgroup :: bool

definition default_UsageSample :: UsageSample where
  "default_UsageSample =
     \<lparr>us_cpuTimeUsec = 0, us_memoryBytes = 0, us_memoryPeakBytes = 0, us_ioReadBytes = 0,
      us_ioWriteBytes = 0, us_oomKills = 0, us_processCount = 0, us_threadCount = 0,
      us_openFiles = - 1, us_cgroup = False\<rparr>"

record LaunchRequest =
  lr_serviceName :: string
  lr_binary :: string
  lr_arguments :: "string list"
  lr_workingDirectory :: string
  lr_environment :: "EnvironmentVariable list"
  lr_output :: OutputMode
  lr_outputPath :: string
  lr_memoryMax :: "64 word"
  lr_cpuMaxPercent :: "32 word"

datatype LaunchCode = BinaryNotFound | WorkingDirectoryMissing | OutputFailed | SpawnFailed

type_synonym handle = nat

text \<open>The result of \<open>Launch\<close> is the failed step with a reason, or the child.\<close>

record 'w launcher =
  l_Launch :: "LaunchRequest \<Rightarrow> 'w \<Rightarrow> ((LaunchCode \<times> string) + handle) \<times> 'w"
  l_Pid :: "handle \<Rightarrow> 'w \<Rightarrow> int"
  l_Poll :: "handle \<Rightarrow> 'w \<Rightarrow> ExitStatus option \<times> 'w"
  l_RequestStop :: "handle \<Rightarrow> StopSignal \<Rightarrow> 'w \<Rightarrow> 'w"
  l_Kill :: "handle \<Rightarrow> 'w \<Rightarrow> 'w"
  l_Sample :: "handle \<Rightarrow> ProcessTable \<Rightarrow> 'w \<Rightarrow> UsageSample \<times> 'w"
  l_MemberPids :: "handle \<Rightarrow> ProcessTable \<Rightarrow> 'w \<Rightarrow> int list"
  l_Destroy :: "handle \<Rightarrow> 'w \<Rightarrow> 'w"

definition ExitedCleanly :: "ExitStatus \<Rightarrow> bool" where
  "ExitedCleanly status \<longleftrightarrow> ex_code status = 0 \<and> ex_signal status = 0"

definition WireExitCode :: "ExitStatus \<Rightarrow> int" where
  "WireExitCode status = (if ex_signal status \<noteq> 0 then - ex_signal status else ex_code status)"

definition max_signal_number :: int where "max_signal_number = 64"

text \<open>A null pointer is \<open>None\<close>.\<close>

definition SignalName :: "int \<Rightarrow> string option" where
  "SignalName sig =
     map_of [(1, ''HUP''), (2, ''INT''), (3, ''QUIT''), (4, ''ILL''), (6, ''ABRT''), (7, ''BUS''),
             (8, ''FPE''), (9, ''KILL''), (11, ''SEGV''), (13, ''PIPE''), (14, ''ALRM''),
             (15, ''TERM'')] sig"

definition hex_digit :: "nat \<Rightarrow> char" where
  "hex_digit d = ''0123456789ABCDEF'' ! d"

text \<open>\<open>%08X\<close> of a 32-bit value.\<close>

definition hex8 :: "32 word \<Rightarrow> string" where
  "hex8 w = map (\<lambda>i. hex_digit (unat (drop_bit (28 - 4 * i) w) mod 16)) [0..<8]"

definition DescribeExit :: "int \<Rightarrow> bool \<Rightarrow> string" where
  "DescribeExit wireCode signals =
     (if wireCode \<ge> 0 then ''exit '' @ to_string wireCode
      else if signals \<and> wireCode \<ge> - max_signal_number then
        ''signal '' @ to_string (- wireCode)
          @ (case SignalName (- wireCode) of Some n \<Rightarrow> '' ('' @ n @ '')'' | None \<Rightarrow> '''')
      else ''exit 0x'' @ hex8 (word_of_int wireCode))"

definition DescribeExitStatus :: "ExitStatus \<Rightarrow> string" where
  "DescribeExitStatus status =
     (if ex_signal status \<noteq> 0 then DescribeExit (- ex_signal status) True
      else DescribeExit (ex_code status) False)"

section \<open>The ownership contract\<close>

text \<open>\<open>live w\<close> is the set of child objects that exist in the world \<open>w\<close>.\<close>

locale process_launcher =
  fixes L :: "'w launcher" and live :: "'w \<Rightarrow> handle set"
  assumes launch_Inr: "l_Launch L rq w = (Inr h, w') \<Longrightarrow> h \<notin> live w \<and> live w' = insert h (live w)"
    and launch_Inl: "l_Launch L rq w = (Inl e, w') \<Longrightarrow> live w' = live w"
    and poll_live: "live (snd (l_Poll L h w)) = live w"
    and request_live: "live (l_RequestStop L h sig w) = live w"
    and kill_live: "live (l_Kill L h w) = live w"
    and sample_live: "live (snd (l_Sample L h t w)) = live w"
    and destroy_live: "live (l_Destroy L h w) = live w - {h}"
begin

lemmas keeps_live = poll_live request_live kill_live sample_live

lemma poll_live': "l_Poll L h w = (r, w') \<Longrightarrow> live w' = live w"
  using poll_live [of h w] by simp

lemma sample_live': "l_Sample L h t w = (r, w') \<Longrightarrow> live w' = live w"
  using sample_live [of h t w] by simp

end

text \<open>A clean exit is exactly wire code zero, so the code on the wire decides a restart.\<close>

lemma ExitedCleanly_wire: "ExitedCleanly status \<longleftrightarrow> WireExitCode status = 0"
  by (auto simp: ExitedCleanly_def WireExitCode_def)

lemma DescribeExitStatus_wire:
  assumes "0 \<le> ex_signal status" and "ex_signal status \<le> max_signal_number"
    and "ex_signal status = 0 \<longrightarrow> 0 \<le> ex_code status"
  shows "DescribeExitStatus status = DescribeExit (WireExitCode status) True"
  using assms by (auto simp: DescribeExitStatus_def WireExitCode_def DescribeExit_def)

end
