(* ===== verification/Service.thy ===== *)
theory Service
  imports Process_Launcher Command_Message Service_State Instant Float64
begin

text \<open>
  One supervised service (\<open>src/manager/include/Service.hpp\<close>, \<open>Service.cpp\<close>): its state and every
  operation on it. An operation takes the launcher and the pair of the outside world and the
  service, and returns the new pair, with the result and the message where the code has them.
  Log lines are not modelled. The ghost field \<open>sv_fault\<close> is set where the code would call
  through a null \<open>child\<close>; \<open>Service_Props\<close> shows that it never is.
\<close>

section \<open>State\<close>

record ServiceStatus =
  st_name :: string
  st_description :: string
  st_binary :: string
  st_restartMode :: RestartMode
  st_autostart :: bool
  st_heartbeat :: bool
  st_removing :: bool
  st_memoryLimitBytes :: "64 word"
  st_cpuLimitPercent :: "32 word"
  st_state :: ServiceState
  st_pid :: int
  st_startTime :: int
  st_lastSeen :: int
  st_lastExitTime :: int
  st_nextRestartTime :: int
  st_lastExitCode :: int
  st_restartCount :: int
  st_missedBeats :: int
  st_usageValid :: bool
  st_usage :: UsageSample
  st_cpuPercent :: double
  st_gpuValid :: bool
  st_gpuPercent :: double
  st_gpuMemoryBytes :: "64 word"
  st_lastError :: string

record Service =
  sv_config :: ServiceConfig
  sv_managerEnvironment :: "EnvironmentVariable list"
  sv_child :: "handle option"
  sv_state :: ServiceState
  sv_restartCount :: int
  sv_missedBeats :: int
  sv_pendingStart :: bool
  sv_pendingStartIsRestart :: bool
  sv_restartAfterStop :: bool
  sv_killSent :: bool
  sv_stuckReported :: bool
  sv_removing :: bool
  sv_launchedAt :: nanos
  sv_lastBeat :: nanos
  sv_stopDeadline :: nanos
  sv_killDeadline :: nanos
  sv_restartAt :: nanos
  sv_restartHistory :: "nanos list"
  sv_startTime :: int
  sv_lastSeen :: int
  sv_lastExitTime :: int
  sv_nextRestartTime :: int
  sv_lastExitCode :: int
  sv_lastError :: string
  sv_usage :: UsageSample
  sv_usageValid :: bool
  sv_cpuPercent :: double
  sv_previousCpu :: "64 word"
  sv_previousSampleAt :: nanos
  sv_hasPreviousSample :: bool
  sv_gpuValid :: bool
  sv_gpuPercent :: double
  sv_gpuMemoryBytes :: "64 word"
  sv_fault :: bool

definition new_Service :: "ServiceConfig \<Rightarrow> EnvironmentVariable list \<Rightarrow> Service" where
  "new_Service config managerEnvironment =
     \<lparr>sv_config = config, sv_managerEnvironment = managerEnvironment, sv_child = None,
      sv_state = Stopped, sv_restartCount = 0, sv_missedBeats = 0, sv_pendingStart = False,
      sv_pendingStartIsRestart = False, sv_restartAfterStop = False, sv_killSent = False,
      sv_stuckReported = False, sv_removing = False, sv_launchedAt = 0, sv_lastBeat = 0,
      sv_stopDeadline = 0, sv_killDeadline = 0, sv_restartAt = 0, sv_restartHistory = [],
      sv_startTime = 0, sv_lastSeen = 0, sv_lastExitTime = 0, sv_nextRestartTime = 0,
      sv_lastExitCode = 0, sv_lastError = '''', sv_usage = default_UsageSample,
      sv_usageValid = False, sv_cpuPercent = double_minus_one, sv_previousCpu = 0,
      sv_previousSampleAt = 0, sv_hasPreviousSample = False, sv_gpuValid = False,
      sv_gpuPercent = double_minus_one, sv_gpuMemoryBytes = 0, sv_fault = False\<rparr>"

abbreviation Service_Name :: "Service \<Rightarrow> string" where
  "Service_Name s \<equiv> sc_name (sv_config s)"

definition HeartbeatEnabled :: "Service \<Rightarrow> bool" where
  "HeartbeatEnabled s \<longleftrightarrow> sc_heartbeatInterval (sv_config s) > 0"

definition Seconds :: "millis \<Rightarrow> string" where
  "Seconds delay =
     (let tenths = cdiv (delay + 50) 100
      in to_string (cdiv tenths 10) @ ''.'' @ to_string (tenths - 10 * cdiv tenths 10) @ '' s'')"

text \<open>The loop that doubles the delay at most \<open>n\<close> times, while it is below the maximum.\<close>

fun backoff_loop :: "nat \<Rightarrow> millis \<Rightarrow> millis \<Rightarrow> millis" where
  "backoff_loop 0 delay maxDelay = delay"
| "backoff_loop (Suc n) delay maxDelay =
     (if delay < maxDelay then backoff_loop n (delay * 2) maxDelay else delay)"

definition BackoffDelay :: "ServiceConfig \<Rightarrow> nat \<Rightarrow> millis" where
  "BackoffDelay config previousRestarts =
     (let delay = backoff_loop previousRestarts (sc_restartDelay config) (sc_restartDelayMax config)
      in if delay < sc_restartDelayMax config then delay else sc_restartDelayMax config)"

definition Service_Status :: "'w launcher \<Rightarrow> 'w \<Rightarrow> Service \<Rightarrow> ServiceStatus" where
  "Service_Status L w s =
     \<lparr>st_name = sc_name (sv_config s), st_description = sc_description (sv_config s),
      st_binary = sc_binary (sv_config s), st_restartMode = sc_restart (sv_config s),
      st_autostart = sc_autostart (sv_config s), st_heartbeat = HeartbeatEnabled s,
      st_removing = sv_removing s, st_memoryLimitBytes = sc_memoryMax (sv_config s),
      st_cpuLimitPercent = sc_cpuMaxPercent (sv_config s), st_state = sv_state s,
      st_pid = (case sv_child s of Some h \<Rightarrow> l_Pid L h w | None \<Rightarrow> 0),
      st_startTime = sv_startTime s, st_lastSeen = sv_lastSeen s,
      st_lastExitTime = sv_lastExitTime s,
      st_nextRestartTime = (if sv_state s = Backoff then sv_nextRestartTime s else 0),
      st_lastExitCode = sv_lastExitCode s, st_restartCount = sv_restartCount s,
      st_missedBeats = sv_missedBeats s, st_usageValid = sv_usageValid s, st_usage = sv_usage s,
      st_cpuPercent = sv_cpuPercent s, st_gpuValid = sv_gpuValid s,
      st_gpuPercent = sv_gpuPercent s, st_gpuMemoryBytes = sv_gpuMemoryBytes s,
      st_lastError = sv_lastError s\<rparr>"

definition BuildRequest :: "Service \<Rightarrow> LaunchRequest" where
  "BuildRequest s =
     (let config = sv_config s
      in \<lparr>lr_serviceName = sc_name config, lr_binary = sc_binary config,
          lr_arguments = sc_arguments config, lr_workingDirectory = sc_workingDirectory config,
          lr_environment = sv_managerEnvironment s
            @ [\<lparr>ev_name = ''BPM_SERVICE_NAME'', ev_value = sc_name config\<rparr>]
            @ (if HeartbeatEnabled s
               then [\<lparr>ev_name = ''BPM_HEARTBEAT_INTERVAL_MS'',
                      ev_value = to_string (sc_heartbeatInterval config)\<rparr>] else [])
            @ sc_environment config,
          lr_output = sc_output config, lr_outputPath = sc_outputPath config,
          lr_memoryMax = sc_memoryMax config, lr_cpuMaxPercent = sc_cpuMaxPercent config\<rparr>)"

section \<open>Restarts\<close>

fun prune_history :: "nanos \<Rightarrow> nanos \<Rightarrow> nanos list \<Rightarrow> nanos list" where
  "prune_history now window [] = []"
| "prune_history now window (t # ts) =
     (if now - t > window then prune_history now window ts else t # ts)"

definition ScheduleRestart :: "Instant \<Rightarrow> Service \<Rightarrow> Service" where
  "ScheduleRestart now s =
     (let config = sv_config s;
          history = prune_history (in_steady now) (ns_of_s (sc_restartWindow config)) (sv_restartHistory s)
      in if sc_maxRestarts config > 0 \<and> int (length history) \<ge> sc_maxRestarts config
         then s\<lparr>sv_restartHistory := history, sv_state := Failed\<rparr>
         else let delay = BackoffDelay config (length history)
         in s\<lparr>sv_restartHistory := history @ [in_steady now],
              sv_restartAt := in_steady now + ns_of_ms delay,
              sv_nextRestartTime := in_wallNs (Advance now delay),
              sv_state := Backoff\<rparr>)"

definition ApplyRestartPolicy :: "Instant \<Rightarrow> bool \<Rightarrow> Service \<Rightarrow> Service" where
  "ApplyRestartPolicy now cleanExit s =
     (let mode = sc_restart (sv_config s)
      in if \<not> (mode = Always \<or> (mode = OnFailure \<and> \<not> cleanExit))
         then s\<lparr>sv_state := (if cleanExit then Stopped else Failed)\<rparr>
         else ScheduleRestart now s)"

section \<open>Launching and stopping\<close>

text \<open>A call through \<open>child\<close>; without a child it would be undefined behaviour.\<close>

definition child_call :: "(handle \<Rightarrow> 'w \<Rightarrow> 'w) \<Rightarrow> 'w \<times> Service \<Rightarrow> 'w \<times> Service" where
  "child_call f ws =
     (case sv_child (snd ws) of
        Some h \<Rightarrow> (f h (fst ws), snd ws)
      | None \<Rightarrow> (fst ws, (snd ws)\<lparr>sv_fault := True\<rparr>))"

text \<open>Assigning to or resetting \<open>child\<close> destroys the object it held.\<close>

definition destroy_child :: "'w launcher \<Rightarrow> Service \<Rightarrow> 'w \<Rightarrow> 'w" where
  "destroy_child L s w = (case sv_child s of Some h \<Rightarrow> l_Destroy L h w | None \<Rightarrow> w)"

definition Service_Launch ::
  "'w launcher \<Rightarrow> Instant \<Rightarrow> 'w \<times> Service \<Rightarrow> (CommandResult \<times> string) \<times> 'w \<times> Service" where
  "Service_Launch L now ws =
     (let w = fst ws; s = snd ws
      in case l_Launch L (BuildRequest s) w of
           (Inl (code, error), w') \<Rightarrow>
             ((CR_LaunchFailed, error), w',
              ApplyRestartPolicy now False
                (s\<lparr>sv_lastError := error, sv_lastExitCode := 127, sv_lastExitTime := in_wallNs now\<rparr>))
         | (Inr h, w') \<Rightarrow>
             (let w'' = destroy_child L s w'
              in ((CR_Ok, ''started, pid '' @ to_string (l_Pid L h w'')), w'',
                  s\<lparr>sv_child := Some h, sv_state := Starting, sv_launchedAt := in_steady now,
                    sv_lastBeat := in_steady now, sv_startTime := in_wallNs now,
                    sv_lastSeen := in_wallNs now, sv_missedBeats := 0, sv_killSent := False,
                    sv_stuckReported := False, sv_nextRestartTime := 0, sv_lastError := '''',
                    sv_hasPreviousSample := False, sv_usageValid := False,
                    sv_cpuPercent := double_minus_one\<rparr>)))"

definition Relaunch :: "'w launcher \<Rightarrow> Instant \<Rightarrow> bool \<Rightarrow> 'w \<times> Service \<Rightarrow> 'w \<times> Service" where
  "Relaunch L now dependenciesReady ws =
     (if \<not> dependenciesReady then (fst ws, (snd ws)\<lparr>sv_state := Waiting\<rparr>)
      else snd (Service_Launch L now ws))"

definition BeginStop :: "'w launcher \<Rightarrow> Instant \<Rightarrow> 'w \<times> Service \<Rightarrow> 'w \<times> Service" where
  "BeginStop L now ws =
     (let config = sv_config (snd ws)
      in child_call (\<lambda>h. l_RequestStop L h (sc_stopSignal config))
           (fst ws, (snd ws)\<lparr>sv_state := Stopping, sv_pendingStart := False,
              sv_restartAfterStop := False,
              sv_stopDeadline := in_steady now + ns_of_ms (sc_stopTimeout config),
              sv_killSent := (sc_stopSignal config = SS_Kill),
              sv_killDeadline := in_steady now + ns_of_ms kill_grace, sv_stuckReported := False\<rparr>))"

definition Service_Start ::
  "'w launcher \<Rightarrow> Instant \<Rightarrow> bool \<Rightarrow> 'w \<times> Service \<Rightarrow> (CommandResult \<times> string) \<times> 'w \<times> Service" where
  "Service_Start L now dependenciesReady ws =
     (let w = fst ws; s = snd ws;
          launch = (\<lambda>s. if \<not> dependenciesReady
                        then ((CR_Ok, ''waiting for its dependencies''), w, s\<lparr>sv_state := Waiting\<rparr>)
                        else Service_Launch L now (w, s))
      in case sv_state s of
           Starting \<Rightarrow> ((CR_AlreadyInState, ''already running''), w, s)
         | Running \<Rightarrow> ((CR_AlreadyInState, ''already running''), w, s)
         | Unhealthy \<Rightarrow> ((CR_AlreadyInState, ''already running''), w, s)
         | Stopping \<Rightarrow>
             ((CR_Ok, ''starts again once it has stopped''), w,
              s\<lparr>sv_pendingStart := True, sv_pendingStartIsRestart := False,
                sv_restartAfterStop := False\<rparr>)
         | Waiting \<Rightarrow> launch s
         | Stopped \<Rightarrow> launch (s\<lparr>sv_restartHistory := []\<rparr>)
         | Failed \<Rightarrow> launch (s\<lparr>sv_restartHistory := []\<rparr>)
         | Backoff \<Rightarrow> launch (s\<lparr>sv_restartHistory := []\<rparr>))"

definition Service_Stop ::
  "'w launcher \<Rightarrow> Instant \<Rightarrow> 'w \<times> Service \<Rightarrow> (CommandResult \<times> string) \<times> 'w \<times> Service" where
  "Service_Stop L now ws =
     (let w = fst ws; s = snd ws
      in case sv_state s of
           Starting \<Rightarrow> ((CR_Ok, ''stopping''), BeginStop L now ws)
         | Running \<Rightarrow> ((CR_Ok, ''stopping''), BeginStop L now ws)
         | Unhealthy \<Rightarrow> ((CR_Ok, ''stopping''), BeginStop L now ws)
         | Stopping \<Rightarrow>
             ((CR_AlreadyInState, ''already stopping''), w,
              s\<lparr>sv_pendingStart := False, sv_restartAfterStop := False\<rparr>)
         | Waiting \<Rightarrow> ((CR_Ok, ''stopped''), w, s\<lparr>sv_state := Stopped\<rparr>)
         | Backoff \<Rightarrow> ((CR_Ok, ''stopped''), w, s\<lparr>sv_state := Stopped\<rparr>)
         | Failed \<Rightarrow> ((CR_Ok, ''stopped''), w, s\<lparr>sv_state := Stopped\<rparr>)
         | Stopped \<Rightarrow> ((CR_AlreadyInState, ''already stopped''), w, s))"

definition Service_Restart ::
  "'w launcher \<Rightarrow> Instant \<Rightarrow> bool \<Rightarrow> 'w \<times> Service \<Rightarrow> (CommandResult \<times> string) \<times> 'w \<times> Service" where
  "Service_Restart L now dependenciesReady ws =
     (let s = snd ws;
          again = (let ws' = BeginStop L now ws
                   in ((CR_Ok, ''restarting''), fst ws',
                       (snd ws')\<lparr>sv_pendingStart := True, sv_pendingStartIsRestart := True\<rparr>))
      in case sv_state s of
           Starting \<Rightarrow> again
         | Running \<Rightarrow> again
         | Unhealthy \<Rightarrow> again
         | Stopping \<Rightarrow>
             ((CR_Ok, ''starts again once it has stopped''), fst ws,
              s\<lparr>sv_pendingStart := True, sv_pendingStartIsRestart := True,
                sv_restartAfterStop := False\<rparr>)
         | _ \<Rightarrow> Service_Start L now dependenciesReady ws)"

definition Service_Kill :: "'w launcher \<Rightarrow> Instant \<Rightarrow> 'w \<times> Service \<Rightarrow> 'w \<times> Service" where
  "Service_Kill L now ws =
     (let s = (snd ws)\<lparr>sv_pendingStart := False, sv_restartAfterStop := False\<rparr>
      in case sv_child s of
           None \<Rightarrow> (fst ws, if sv_state s \<noteq> Stopped then s\<lparr>sv_state := Stopped\<rparr> else s)
         | Some h \<Rightarrow>
             (l_Kill L h (fst ws),
              s\<lparr>sv_state := Stopping, sv_stopDeadline := in_steady now, sv_killSent := True,
                sv_killDeadline := in_steady now + ns_of_ms kill_grace\<rparr>))"

section \<open>Heartbeats\<close>

definition Service_Heartbeat :: "Instant \<Rightarrow> Service \<Rightarrow> (CommandResult \<times> string) \<times> Service" where
  "Service_Heartbeat now s =
     (if sv_state s \<noteq> Starting \<and> sv_state s \<noteq> Running \<and> sv_state s \<noteq> Unhealthy
      then ((CR_InvalidState, ''not running''), s)
      else ((CR_Ok, ''ok''),
            s\<lparr>sv_lastBeat := in_steady now, sv_lastSeen := in_wallNs now, sv_missedBeats := 0,
              sv_state := Running\<rparr>))"

definition missed_beats :: "Instant \<Rightarrow> Service \<Rightarrow> int" where
  "missed_beats now s =
     to_int32 (cdiv (cdiv (in_steady now - sv_lastBeat s) 1000000) (sc_heartbeatInterval (sv_config s)))"

definition CheckHeartbeat :: "'w launcher \<Rightarrow> Instant \<Rightarrow> 'w \<times> Service \<Rightarrow> 'w \<times> Service" where
  "CheckHeartbeat L now ws =
     (let s = (snd ws)\<lparr>sv_missedBeats := missed_beats now (snd ws)\<rparr>
      in if sv_missedBeats s < sc_heartbeatTolerance (sv_config s) \<or> sv_state s = Unhealthy
         then (fst ws, s)
         else let s = s\<lparr>sv_state := Unhealthy\<rparr>
         in if sc_unhealthyAction (sv_config s) = UA_Restart
            then (let ws' = BeginStop L now (fst ws, s)
                  in (fst ws', (snd ws')\<lparr>sv_restartAfterStop := True\<rparr>))
            else (fst ws, s))"

section \<open>The tick\<close>

definition HandleExit ::
  "'w launcher \<Rightarrow> Instant \<Rightarrow> ExitStatus \<Rightarrow> bool \<Rightarrow> bool \<Rightarrow> 'w \<times> Service \<Rightarrow> 'w \<times> Service" where
  "HandleExit L now status launchAllowed dependenciesReady ws =
     (let w = destroy_child L (snd ws) (fst ws);
          s = (snd ws)\<lparr>sv_child := None, sv_lastExitCode := WireExitCode status,
                sv_lastExitTime := in_wallNs now, sv_usage := default_UsageSample,
                sv_usageValid := False, sv_cpuPercent := double_minus_one,
                sv_hasPreviousSample := False\<rparr>
      in if sv_state s = Stopping then
           (let restartDue = sv_restartAfterStop s; startDue = sv_pendingStart s;
                s = s\<lparr>sv_state := Stopped, sv_pendingStart := False, sv_restartAfterStop := False\<rparr>
            in if \<not> launchAllowed then (w, s)
               else if restartDue then (w, ScheduleRestart now s)
               else if startDue then
                 Relaunch L now dependenciesReady
                   (w, if sv_pendingStartIsRestart s
                       then s\<lparr>sv_restartCount := sv_restartCount s + 1\<rparr> else s)
               else (w, s))
         else (w, ApplyRestartPolicy now (ExitedCleanly status) s))"

definition poll_child ::
  "'w launcher \<Rightarrow> Instant \<Rightarrow> bool \<Rightarrow> bool \<Rightarrow> 'w \<times> Service \<Rightarrow> 'w \<times> Service" where
  "poll_child L now launchAllowed dependenciesReady ws =
     (case sv_child (snd ws) of
        None \<Rightarrow> ws
      | Some h \<Rightarrow>
          (case l_Poll L h (fst ws) of
             (None, w') \<Rightarrow> (w', snd ws)
           | (Some status, w') \<Rightarrow>
               HandleExit L now status launchAllowed dependenciesReady (w', snd ws)))"

definition tick_state ::
  "'w launcher \<Rightarrow> Instant \<Rightarrow> bool \<Rightarrow> bool \<Rightarrow> 'w \<times> Service \<Rightarrow> 'w \<times> Service" where
  "tick_state L now launchAllowed dependenciesReady ws =
     (let w = fst ws; s = snd ws
      in case sv_state s of
           Starting \<Rightarrow>
             (if HeartbeatEnabled s then CheckHeartbeat L now ws
              else let s = s\<lparr>sv_lastSeen := in_wallNs now\<rparr>
              in (w, if in_steady now - sv_launchedAt s \<ge> ns_of_ms (sc_startGrace (sv_config s))
                     then s\<lparr>sv_state := Running\<rparr> else s))
         | Running \<Rightarrow>
             (if HeartbeatEnabled s then CheckHeartbeat L now ws
              else (w, s\<lparr>sv_state := Running, sv_missedBeats := 0, sv_lastSeen := in_wallNs now\<rparr>))
         | Unhealthy \<Rightarrow>
             (if HeartbeatEnabled s then CheckHeartbeat L now ws
              else (w, s\<lparr>sv_state := Running, sv_missedBeats := 0, sv_lastSeen := in_wallNs now\<rparr>))
         | Stopping \<Rightarrow>
             (if \<not> sv_killSent s \<and> in_steady now \<ge> sv_stopDeadline s then
                (let ws' = child_call (l_Kill L) ws
                 in (fst ws', (snd ws')\<lparr>sv_killSent := True,
                       sv_killDeadline := in_steady now + ns_of_ms kill_grace\<rparr>))
              else if sv_killSent s \<and> \<not> sv_stuckReported s \<and> in_steady now \<ge> sv_killDeadline s
              then (w, s\<lparr>sv_stuckReported := True\<rparr>)
              else ws)
         | Backoff \<Rightarrow>
             (if launchAllowed \<and> in_steady now \<ge> sv_restartAt s
              then Relaunch L now dependenciesReady (w, s\<lparr>sv_restartCount := sv_restartCount s + 1\<rparr>)
              else ws)
         | Stopped \<Rightarrow> ws
         | Waiting \<Rightarrow> ws
         | Failed \<Rightarrow> ws)"

definition Service_Tick ::
  "'w launcher \<Rightarrow> Instant \<Rightarrow> bool \<Rightarrow> bool \<Rightarrow> 'w \<times> Service \<Rightarrow> 'w \<times> Service" where
  "Service_Tick L now launchAllowed dependenciesReady ws =
     tick_state L now launchAllowed dependenciesReady
       (poll_child L now launchAllowed dependenciesReady ws)"

definition Service_Abandon :: "string \<Rightarrow> Service \<Rightarrow> Service" where
  "Service_Abandon reason s =
     (if sv_state s \<noteq> Waiting then s else s\<lparr>sv_lastError := reason, sv_state := Failed\<rparr>)"

section \<open>Measuring and reloading\<close>

definition cpu_percent :: "64 word \<Rightarrow> nanos \<Rightarrow> double" where
  "cpu_percent usec elapsedNs =
     fp_mul (fp_div (double_of_word usec) (fp_div (double_of_int elapsedNs) (double_of_int 1000)))
       (double_of_int 100)"

definition Service_Sample :: "'w launcher \<Rightarrow> Instant \<Rightarrow> ProcessTable \<Rightarrow> 'w \<times> Service \<Rightarrow> 'w \<times> Service" where
  "Service_Sample L now table ws =
     (let s = snd ws
      in case sv_child s of
           None \<Rightarrow>
             (fst ws, s\<lparr>sv_usage := default_UsageSample, sv_usageValid := False,
                        sv_cpuPercent := double_minus_one, sv_hasPreviousSample := False\<rparr>)
         | Some h \<Rightarrow>
             (let (sample, w') = l_Sample L h table (fst ws);
                  percent =
                    (if sv_hasPreviousSample s \<and> us_cpuTimeUsec sample \<ge> sv_previousCpu s
                        \<and> in_steady now > sv_previousSampleAt s
                     then cpu_percent (us_cpuTimeUsec sample - sv_previousCpu s)
                            (in_steady now - sv_previousSampleAt s)
                     else double_minus_one)
              in (w', s\<lparr>sv_cpuPercent := percent, sv_previousCpu := us_cpuTimeUsec sample,
                        sv_previousSampleAt := in_steady now, sv_hasPreviousSample := True,
                        sv_usage := sample, sv_usageValid := True\<rparr>)))"

definition SetGpuUsage :: "bool \<Rightarrow> double \<Rightarrow> 64 word \<Rightarrow> Service \<Rightarrow> Service" where
  "SetGpuUsage valid percent memoryBytes s =
     s\<lparr>sv_gpuValid := valid, sv_gpuPercent := (if valid then percent else double_minus_one),
       sv_gpuMemoryBytes := (if valid then memoryBytes else 0)\<rparr>"

definition Service_MemberPids :: "'w launcher \<Rightarrow> ProcessTable \<Rightarrow> 'w \<Rightarrow> Service \<Rightarrow> int list" where
  "Service_MemberPids L table w s =
     (case sv_child s of None \<Rightarrow> [] | Some h \<Rightarrow> l_MemberPids L h table w)"

definition Service_Replace :: "ServiceConfig \<Rightarrow> Service \<Rightarrow> Service" where
  "Service_Replace config s = s\<lparr>sv_config := config\<rparr>"

definition SetRemoving :: "bool \<Rightarrow> Service \<Rightarrow> Service" where
  "SetRemoving removing s = s\<lparr>sv_removing := removing\<rparr>"

end
