(* ===== verification/Service_Props.thy ===== *)
theory Service_Props
  imports Service
begin

text \<open>
  What holds of one service under every operation of \<open>Service.cpp\<close>: the invariant that ties the
  child process to the state (so that no null child is called), the abstract state machine all
  operations refine, the ownership of child objects under the contract of the launcher, the
  restart budget and the backoff, and the deadlines of a stop.
\<close>

section \<open>Frames of the restart policy\<close>

lemma ScheduleRestart_frame [simp]:
  "sv_child (ScheduleRestart now s) = sv_child s"
  "sv_config (ScheduleRestart now s) = sv_config s"
  "sv_pendingStart (ScheduleRestart now s) = sv_pendingStart s"
  "sv_restartAfterStop (ScheduleRestart now s) = sv_restartAfterStop s"
  "sv_fault (ScheduleRestart now s) = sv_fault s"
  "sv_removing (ScheduleRestart now s) = sv_removing s"
  "sv_lastExitCode (ScheduleRestart now s) = sv_lastExitCode s"
  "sv_restartCount (ScheduleRestart now s) = sv_restartCount s"
  by (simp_all add: ScheduleRestart_def Let_def)

lemma ScheduleRestart_state:
  "sv_state (ScheduleRestart now s) = Failed \<or> sv_state (ScheduleRestart now s) = Backoff"
  by (simp add: ScheduleRestart_def Let_def)

lemma ApplyRestartPolicy_frame [simp]:
  "sv_child (ApplyRestartPolicy now c s) = sv_child s"
  "sv_config (ApplyRestartPolicy now c s) = sv_config s"
  "sv_pendingStart (ApplyRestartPolicy now c s) = sv_pendingStart s"
  "sv_restartAfterStop (ApplyRestartPolicy now c s) = sv_restartAfterStop s"
  "sv_fault (ApplyRestartPolicy now c s) = sv_fault s"
  "sv_removing (ApplyRestartPolicy now c s) = sv_removing s"
  "sv_lastExitCode (ApplyRestartPolicy now c s) = sv_lastExitCode s"
  by (simp_all add: ApplyRestartPolicy_def Let_def)

lemma ApplyRestartPolicy_state:
  "sv_state (ApplyRestartPolicy now c s) \<in> {Stopped, Failed, Backoff}"
  "sv_state (ApplyRestartPolicy now False s) \<in> {Failed, Backoff}"
  using ScheduleRestart_state [of now s] by (auto simp: ApplyRestartPolicy_def Let_def)

section \<open>The invariant\<close>

definition service_inv :: "Service \<Rightarrow> bool" where
  "service_inv s \<longleftrightarrow>
     (sv_child s \<noteq> None \<longleftrightarrow> IsAlive (sv_state s))
     \<and> (sv_pendingStart s \<or> sv_restartAfterStop s \<longrightarrow> sv_state s = Stopping)
     \<and> \<not> (sv_pendingStart s \<and> sv_restartAfterStop s)
     \<and> \<not> sv_fault s"

lemma service_inv_new: "service_inv (new_Service config env)"
  by (simp add: service_inv_def new_Service_def)

lemma not_alive_child: "service_inv s \<Longrightarrow> \<not> IsAlive (sv_state s) \<Longrightarrow> sv_child s = None"
  by (simp add: service_inv_def)

lemma alive_child: "service_inv s \<Longrightarrow> IsAlive (sv_state s) \<Longrightarrow> \<exists>h. sv_child s = Some h"
  by (auto simp: service_inv_def)

lemma idle_flags:
  "service_inv s \<Longrightarrow> sv_state s \<noteq> Stopping \<Longrightarrow> \<not> sv_pendingStart s \<and> \<not> sv_restartAfterStop s"
  by (auto simp: service_inv_def)

text \<open>A restart policy on a service without a child.\<close>

definition idle :: "Service \<Rightarrow> bool" where
  "idle s \<longleftrightarrow> sv_child s = None \<and> \<not> sv_pendingStart s \<and> \<not> sv_restartAfterStop s \<and> \<not> sv_fault s"

lemma idle_inv: "idle s \<Longrightarrow> \<not> IsAlive (sv_state s) \<Longrightarrow> service_inv s"
  by (simp add: idle_def service_inv_def)

lemma inv_idle: "service_inv s \<Longrightarrow> \<not> IsAlive (sv_state s) \<Longrightarrow> idle s"
  by (auto simp: idle_def service_inv_def)

lemma idle_updates [simp]:
  "idle (s\<lparr>sv_state := st\<rparr>) = idle s" "idle (s\<lparr>sv_restartHistory := h\<rparr>) = idle s"
  "idle (s\<lparr>sv_restartCount := k\<rparr>) = idle s" "idle (s\<lparr>sv_lastError := e\<rparr>) = idle s"
  "idle (s\<lparr>sv_lastExitCode := c\<rparr>) = idle s" "idle (s\<lparr>sv_lastExitTime := t\<rparr>) = idle s"
  by (simp_all add: idle_def)

lemma inv_ScheduleRestart: "idle s \<Longrightarrow> service_inv (ScheduleRestart now s)"
  using ScheduleRestart_state [of now s] by (auto simp: idle_def service_inv_def)

lemma inv_ApplyRestartPolicy: "idle s \<Longrightarrow> service_inv (ApplyRestartPolicy now c s)"
  using ApplyRestartPolicy_state(1) [of now c s] by (auto simp: idle_def service_inv_def)

lemma inv_Launch: "idle s \<Longrightarrow> service_inv (snd (snd (Service_Launch L now (w, s))))"
  by (auto simp: Service_Launch_def Let_def destroy_child_def inv_ApplyRestartPolicy
      split: prod.splits sum.splits) (auto simp: idle_def service_inv_def)

lemma inv_Relaunch: "idle s \<Longrightarrow> service_inv (snd (Relaunch L now ready (w, s)))"
  by (simp add: Relaunch_def inv_Launch idle_inv)

lemma inv_BeginStop:
  "service_inv s \<Longrightarrow> IsAlive (sv_state s) \<Longrightarrow> service_inv (snd (BeginStop L now (w, s)))"
  by (auto simp: BeginStop_def Let_def child_call_def service_inv_def split: option.splits)

lemma inv_Start: "service_inv s \<Longrightarrow> service_inv (snd (snd (Service_Start L now ready (w, s))))"
  by (cases "sv_state s")
    (auto simp: Service_Start_def Let_def inv_Launch inv_idle intro: idle_inv; simp add: service_inv_def)+

lemma inv_Stop: "service_inv s \<Longrightarrow> service_inv (snd (snd (Service_Stop L now (w, s))))"
  by (cases "sv_state s")
    (auto simp: Service_Stop_def Let_def inv_BeginStop; simp add: service_inv_def)+

lemma BeginStop_state [simp]:
  "sv_state (snd (BeginStop L now ws)) = Stopping"
  "\<not> sv_pendingStart (snd (BeginStop L now ws))"
  "\<not> sv_restartAfterStop (snd (BeginStop L now ws))"
  "sv_config (snd (BeginStop L now ws)) = sv_config (snd ws)"
  "sv_child (snd (BeginStop L now ws)) = sv_child (snd ws)"
  "sv_restartHistory (snd (BeginStop L now ws)) = sv_restartHistory (snd ws)"
  "sv_missedBeats (snd (BeginStop L now ws)) = sv_missedBeats (snd ws)"
  by (auto simp: BeginStop_def Let_def child_call_def split: option.splits)

lemma inv_flags:
  "service_inv s \<Longrightarrow> sv_state s = Stopping \<Longrightarrow> \<not> (p \<and> r) \<Longrightarrow>
   service_inv (s\<lparr>sv_pendingStart := p, sv_restartAfterStop := r\<rparr>)"
  by (simp add: service_inv_def)

lemma inv_pending:
  "service_inv s \<Longrightarrow> sv_state s = Stopping \<Longrightarrow> \<not> sv_restartAfterStop s \<Longrightarrow>
   service_inv (s\<lparr>sv_pendingStart := p, sv_pendingStartIsRestart := q\<rparr>)"
  by (simp add: service_inv_def)

lemma inv_Restart: "service_inv s \<Longrightarrow> service_inv (snd (snd (Service_Restart L now ready (w, s))))"
  by (cases "sv_state s")
    (auto simp: Service_Restart_def Let_def inv_Start inv_BeginStop intro!: inv_pending;
     simp add: service_inv_def)+

lemma inv_Kill: "service_inv s \<Longrightarrow> service_inv (snd (Service_Kill L now (w, s)))"
  by (auto simp: Service_Kill_def Let_def service_inv_def split: option.splits)

lemma inv_Heartbeat: "service_inv s \<Longrightarrow> service_inv (snd (Service_Heartbeat now s))"
  by (auto simp: Service_Heartbeat_def service_inv_def)

lemma inv_CheckHeartbeat:
  assumes "service_inv s" and "sv_state s \<in> {Starting, Running, Unhealthy}"
  shows "service_inv (snd (CheckHeartbeat L now (w, s)))"
proof -
  let ?s = "s\<lparr>sv_missedBeats := missed_beats now s, sv_state := Unhealthy\<rparr>"
  have inv: "service_inv ?s" using assms by (auto simp: service_inv_def)
  then have "service_inv (snd (BeginStop L now (w, ?s)))" by (rule inv_BeginStop) simp
  then have "service_inv ((snd (BeginStop L now (w, ?s)))\<lparr>sv_restartAfterStop := True\<rparr>)"
    by (simp add: service_inv_def)
  with inv assms(1) show ?thesis
    by (auto simp: CheckHeartbeat_def Let_def) (auto simp: service_inv_def)
qed

text \<open>What \<open>HandleExit\<close> clears first, and what it leaves when the service was stopping.\<close>

definition exited :: "Instant \<Rightarrow> ExitStatus \<Rightarrow> Service \<Rightarrow> Service" where
  "exited now status s = s\<lparr>sv_child := None, sv_lastExitCode := WireExitCode status,
     sv_lastExitTime := in_wallNs now, sv_usage := default_UsageSample, sv_usageValid := False,
     sv_cpuPercent := double_minus_one, sv_hasPreviousSample := False\<rparr>"

definition stopped :: "Instant \<Rightarrow> ExitStatus \<Rightarrow> Service \<Rightarrow> Service" where
  "stopped now status s = (exited now status s)\<lparr>sv_state := Stopped, sv_pendingStart := False,
     sv_restartAfterStop := False\<rparr>"

lemma exited_fields [simp]:
  "sv_state (exited now status s) = sv_state s" "sv_config (exited now status s) = sv_config s"
  "sv_child (exited now status s) = None" "sv_restartHistory (exited now status s) = sv_restartHistory s"
  "sv_restartCount (exited now status s) = sv_restartCount s"
  by (simp_all add: exited_def)

lemma stopped_fields [simp]:
  "sv_state (stopped now status s) = Stopped" "sv_config (stopped now status s) = sv_config s"
  "sv_child (stopped now status s) = None" "sv_restartHistory (stopped now status s) = sv_restartHistory s"
  "sv_restartCount (stopped now status s) = sv_restartCount s"
  by (simp_all add: stopped_def)

lemma HandleExit_unfold:
  "HandleExit L now status allowed ready ws =
     (let w = destroy_child L (snd ws) (fst ws); s = snd ws
      in if sv_state s = Stopping then
           (if \<not> allowed then (w, stopped now status s)
            else if sv_restartAfterStop s then (w, ScheduleRestart now (stopped now status s))
            else if sv_pendingStart s then
              Relaunch L now ready
                (w, if sv_pendingStartIsRestart s
                    then (stopped now status s)\<lparr>sv_restartCount := sv_restartCount s + 1\<rparr>
                    else stopped now status s)
            else (w, stopped now status s))
         else (w, ApplyRestartPolicy now (ExitedCleanly status) (exited now status s)))"
  by (simp add: HandleExit_def Let_def stopped_def exited_def)

lemma idle_stopped: "service_inv s \<Longrightarrow> idle (stopped now status s)"
  by (simp add: service_inv_def idle_def stopped_def exited_def)

lemma idle_exited: "service_inv s \<Longrightarrow> sv_state s \<noteq> Stopping \<Longrightarrow> idle (exited now status s)"
  by (simp add: service_inv_def idle_def exited_def)

lemma inv_HandleExit:
  assumes "service_inv s"
  shows "service_inv (snd (HandleExit L now status allowed ready (w, s)))"
  using idle_stopped [OF assms, of now status] idle_exited [OF assms, of now status]
  by (simp add: HandleExit_unfold Let_def inv_Relaunch inv_ScheduleRestart inv_ApplyRestartPolicy
      idle_inv)

lemma inv_poll_child:
  assumes "service_inv s"
  shows "service_inv (snd (poll_child L now allowed ready (w, s)))"
  using assms by (auto simp: poll_child_def inv_HandleExit split: option.splits prod.splits)

lemma inv_tick_state:
  assumes "service_inv s"
  shows "service_inv (snd (tick_state L now allowed ready (w, s)))"
proof (cases "sv_state s")
  case Stopping
  with assms show ?thesis
    by (auto simp: tick_state_def Let_def child_call_def service_inv_def split: option.splits)
next
  case Backoff
  with assms show ?thesis by (auto simp: tick_state_def Let_def inv_idle intro!: inv_Relaunch)
qed (use assms in \<open>auto simp: tick_state_def Let_def intro!: inv_CheckHeartbeat\<close>;
     simp add: service_inv_def)+

lemma inv_Tick: "service_inv s \<Longrightarrow> service_inv (snd (Service_Tick L now allowed ready (w, s)))"
  using inv_tick_state [OF inv_poll_child] by (metis Service_Tick_def prod.collapse)

lemma inv_Abandon: "service_inv s \<Longrightarrow> service_inv (Service_Abandon reason s)"
  by (auto simp: Service_Abandon_def service_inv_def)

lemma inv_Sample: "service_inv s \<Longrightarrow> service_inv (snd (Service_Sample L now table (w, s)))"
  by (auto simp: Service_Sample_def Let_def service_inv_def split: option.splits prod.splits)

lemma inv_small:
  "service_inv s \<Longrightarrow> service_inv (SetGpuUsage v p m s)"
  "service_inv s \<Longrightarrow> service_inv (Service_Replace c s)"
  "service_inv s \<Longrightarrow> service_inv (SetRemoving b s)"
  by (simp_all add: SetGpuUsage_def Service_Replace_def SetRemoving_def service_inv_def)

lemmas inv_operations = inv_Start inv_Stop inv_Restart inv_Kill inv_Heartbeat inv_Tick inv_Abandon
  inv_Sample inv_small

section \<open>The state machine\<close>

text \<open>
  The elementary transitions; the flag says whether a launch is allowed. Every operation is a
  sequence of them, and one that is called without permission to launch uses none that launches.
\<close>

inductive svc_edge :: "bool \<Rightarrow> ServiceState \<Rightarrow> ServiceState \<Rightarrow> bool" for may where
  queue: "st \<in> {Stopped, Failed, Backoff} \<Longrightarrow> svc_edge may st Waiting"
| launch: "may \<Longrightarrow> st \<in> {Stopped, Waiting, Failed, Backoff} \<Longrightarrow> svc_edge may st Starting"
| launch_failed: "may \<Longrightarrow> st \<in> {Stopped, Waiting, Failed, Backoff} \<Longrightarrow> st' \<in> {Failed, Backoff} \<Longrightarrow>
    svc_edge may st st'"
| up: "st \<in> {Starting, Unhealthy} \<Longrightarrow> svc_edge may st Running"
| silent: "st \<in> {Starting, Running} \<Longrightarrow> svc_edge may st Unhealthy"
| stop: "st \<in> {Starting, Running, Unhealthy} \<Longrightarrow> svc_edge may st Stopping"
| cancel: "st \<in> {Waiting, Backoff, Failed} \<Longrightarrow> svc_edge may st Stopped"
| gone: "svc_edge may Stopping Stopped"
| crashed: "st \<in> {Starting, Running, Unhealthy} \<Longrightarrow> st' \<in> {Stopped, Failed, Backoff} \<Longrightarrow>
    svc_edge may st st'"
| again: "st' \<in> {Failed, Backoff} \<Longrightarrow> svc_edge may Stopped st'"
| abandon: "svc_edge may Waiting Failed"

inductive_simps svc_edge_simps: "svc_edge may st st'"
inductive_cases svc_edge_StartingE: "svc_edge may st Starting"

abbreviation svc_path :: "bool \<Rightarrow> ServiceState \<Rightarrow> ServiceState \<Rightarrow> bool" where
  "svc_path may \<equiv> (svc_edge may)\<^sup>*\<^sup>*"

lemma svc_edge_mono: "svc_edge False st st' \<Longrightarrow> svc_edge may st st'"
  by (auto simp: svc_edge_simps)

lemma svc_path_mono: "svc_path False st st' \<Longrightarrow> svc_path may st st'"
  by (induction rule: rtranclp_induct) (auto intro: svc_edge_mono rtranclp.rtrancl_into_rtrancl)

lemma path_edge: "svc_edge may st st' \<Longrightarrow> svc_path may st st'"
  by (rule r_into_rtranclp)

lemma path_Launch:
  "\<not> IsAlive (sv_state s) \<Longrightarrow>
   svc_edge True (sv_state s) (sv_state (snd (snd (Service_Launch L now (w, s)))))"
  using ApplyRestartPolicy_state(2)
  by (cases "sv_state s")
    (auto simp: Service_Launch_def Let_def svc_edge_simps split: prod.splits sum.splits)

lemma path_Relaunch:
  assumes "sv_state s = Stopped \<or> sv_state s = Backoff"
  shows "svc_edge ready (sv_state s) (sv_state (snd (Relaunch L now ready (w, s))))"
proof (cases ready)
  case True
  with assms path_Launch [of s L now w] show ?thesis by (auto simp: Relaunch_def)
next
  case False
  with assms show ?thesis by (auto simp: Relaunch_def svc_edge_simps)
qed

lemma path_Start:
  "svc_path ready (sv_state s) (sv_state (snd (snd (Service_Start L now ready (w, s)))))"
proof (cases ready)
  case True
  show ?thesis
    using path_Launch [of s L now w] path_Launch [of "s\<lparr>sv_restartHistory := []\<rparr>" L now w] True
    by (cases "sv_state s") (auto simp: Service_Start_def Let_def intro: path_edge)
next
  case False
  then show ?thesis
    by (cases "sv_state s") (auto simp: Service_Start_def Let_def svc_edge_simps intro!: path_edge)
qed

lemma path_Stop: "svc_path False (sv_state s) (sv_state (snd (snd (Service_Stop L now (w, s)))))"
  by (cases "sv_state s")
    (auto simp: Service_Stop_def Let_def svc_edge_simps intro!: path_edge)

lemma path_Restart:
  "svc_path ready (sv_state s) (sv_state (snd (snd (Service_Restart L now ready (w, s)))))"
  using path_Start [of ready s L now w]
  by (cases "sv_state s")
    (auto simp: Service_Restart_def Let_def svc_edge_simps intro!: path_edge)

lemma path_Kill:
  "service_inv s \<Longrightarrow> svc_path False (sv_state s) (sv_state (snd (Service_Kill L now (w, s))))"
  by (cases "sv_state s")
    (auto simp: Service_Kill_def Let_def svc_edge_simps service_inv_def split: option.splits
      intro!: path_edge)

lemma path_Heartbeat: "svc_path False (sv_state s) (sv_state (snd (Service_Heartbeat now s)))"
  by (cases "sv_state s") (auto simp: Service_Heartbeat_def svc_edge_simps intro!: path_edge)

lemma path_two: "svc_edge may a b \<Longrightarrow> svc_edge may b c \<Longrightarrow> svc_path may a c"
  by (meson rtranclp.rtrancl_into_rtrancl r_into_rtranclp)

lemma path_CheckHeartbeat:
  assumes "sv_state s \<in> {Starting, Running, Unhealthy}"
  shows "svc_path False (sv_state s) (sv_state (snd (CheckHeartbeat L now (w, s))))"
  using assms path_two [of False "sv_state s" Unhealthy Stopping]
  by (auto simp: CheckHeartbeat_def Let_def svc_edge_simps intro!: path_edge)

lemma path_HandleExit:
  assumes "IsAlive (sv_state s)"
  shows "svc_path (allowed \<and> ready) (sv_state s)
    (sv_state (snd (HandleExit L now status allowed ready (w, s))))"
proof (cases "sv_state s = Stopping")
  case True
  let ?s = "stopped now status s"
  let ?t = "?s\<lparr>sv_restartCount := sv_restartCount s + 1\<rparr>"
  let ?w = "destroy_child L s w"
  have gone: "svc_edge (allowed \<and> ready) Stopping Stopped" by (rule svc_edge.gone)
  have again: "svc_path (allowed \<and> ready) Stopping (sv_state (ScheduleRestart now ?s))"
    using ScheduleRestart_state [of now ?s] by (intro path_two [OF gone]) (auto simp: svc_edge_simps)
  have re: "svc_path (allowed \<and> ready) Stopping (sv_state (snd (Relaunch L now ready (?w, u))))"
    if "allowed" "sv_state u = Stopped" for u
    using path_Relaunch [of u ready L now ?w] that by (intro path_two [OF gone]) auto
  show ?thesis
    using True again re [of ?s] re [of ?t] path_edge [OF gone]
    by (cases allowed) (simp_all add: HandleExit_unfold Let_def)
next
  case False
  with assms ApplyRestartPolicy_state(1) [of now "ExitedCleanly status" "exited now status s"]
  show ?thesis
    by (intro path_edge) (auto simp: HandleExit_unfold Let_def svc_edge_simps IsAlive_def)
qed

lemma path_poll_child:
  assumes "service_inv s"
  shows "svc_path (allowed \<and> ready) (sv_state s)
    (sv_state (snd (poll_child L now allowed ready (w, s))))"
  using assms path_HandleExit [of s allowed ready L now]
  by (auto simp: poll_child_def service_inv_def split: option.splits prod.splits)

lemma path_tick_state:
  assumes "service_inv s"
  shows "svc_path (allowed \<and> ready) (sv_state s)
    (sv_state (snd (tick_state L now allowed ready (w, s))))"
proof (cases "sv_state s")
  case Backoff
  with path_Relaunch [of "s\<lparr>sv_restartCount := sv_restartCount s + 1\<rparr>" ready L now w] show ?thesis
    by (auto simp: tick_state_def Let_def intro!: path_edge)
next
  case Stopping
  with assms show ?thesis
    by (auto simp: tick_state_def Let_def child_call_def split: option.splits)
qed (use path_CheckHeartbeat [of s L now w, THEN svc_path_mono] in
     \<open>auto simp: tick_state_def Let_def svc_edge_simps intro!: path_edge\<close>)

lemma path_Tick:
  assumes "service_inv s"
  shows "svc_path (allowed \<and> ready) (sv_state s)
    (sv_state (snd (Service_Tick L now allowed ready (w, s))))"
proof -
  obtain w1 s1 where p: "poll_child L now allowed ready (w, s) = (w1, s1)" by fastforce
  have "service_inv s1" using inv_poll_child [OF assms, of L now allowed ready w] p by simp
  from path_tick_state [OF this]
  have "svc_path (allowed \<and> ready) (sv_state s1)
      (sv_state (snd (tick_state L now allowed ready (w1, s1))))" .
  moreover have "svc_path (allowed \<and> ready) (sv_state s) (sv_state s1)"
    using path_poll_child [OF assms, of allowed ready L now w] p by simp
  ultimately have "svc_path (allowed \<and> ready) (sv_state s)
      (sv_state (snd (tick_state L now allowed ready (w1, s1))))" by (rule rtranclp_trans [rotated])
  with p show ?thesis by (simp add: Service_Tick_def)
qed

lemma path_Abandon: "svc_path False (sv_state s) (sv_state (Service_Abandon reason s))"
  by (auto simp: Service_Abandon_def svc_edge_simps intro!: path_edge)

text \<open>Without permission to launch no path enters \<open>Starting\<close>.\<close>

lemma no_launch_no_Starting: "svc_path False st Starting \<Longrightarrow> st = Starting"
  by (erule rtranclp.cases) (auto elim: svc_edge_StartingE)

section \<open>Ownership of child objects\<close>

definition owned :: "Service \<Rightarrow> handle set" where
  "owned s = set_option (sv_child s)"

lemma owned_simps [simp]:
  "sv_child s = None \<Longrightarrow> owned s = {}" "sv_child s = Some h \<Longrightarrow> owned s = {h}"
  by (simp_all add: owned_def)

lemma owned_cong: "sv_child s' = sv_child s \<Longrightarrow> owned s' = owned s"
  by (simp add: owned_def)

context process_launcher
begin

text \<open>
  \<open>hands a b\<close>: from \<open>a\<close> to \<open>b\<close> the service ends up owning live objects only, and the objects of
  everyone else are the same ones. \<open>calm a b\<close>: no object is created.
\<close>

definition hands :: "'w \<times> Service \<Rightarrow> 'w \<times> Service \<Rightarrow> bool" where
  "hands a b \<longleftrightarrow> owned (snd b) \<subseteq> live (fst b)
     \<and> live (fst b) - owned (snd b) = live (fst a) - owned (snd a)"

definition calm :: "'w \<times> Service \<Rightarrow> 'w \<times> Service \<Rightarrow> bool" where
  "calm a b \<longleftrightarrow> live (fst b) \<subseteq> live (fst a)"

lemma hands_refl: "owned s \<subseteq> live w \<Longrightarrow> hands (w, s) (w, s)"
  by (simp add: hands_def)

lemma hands_trans: "hands a b \<Longrightarrow> hands b c \<Longrightarrow> hands a c"
  by (auto simp: hands_def)

lemma hands_same:
  "owned s \<subseteq> live w \<Longrightarrow> live w' = live w \<Longrightarrow> sv_child s' = sv_child s \<Longrightarrow> hands (w, s) (w', s')"
  by (simp add: hands_def owned_cong [of s' s])

lemma hands_live: "hands a b \<Longrightarrow> owned (snd b) \<subseteq> live (fst b)"
  by (simp add: hands_def)

lemma calm_trans: "calm a b \<Longrightarrow> calm b c \<Longrightarrow> calm a c"
  by (auto simp: calm_def)

lemma calm_same: "live w' = live w \<Longrightarrow> calm (w, s) (w', s')"
  by (simp add: calm_def)

lemma live_destroy_child: "live (destroy_child L s w) = live w - owned s"
  by (simp add: destroy_child_def owned_def destroy_live split: option.splits)

lemma hands_Launch: "owned s \<subseteq> live w \<Longrightarrow> hands (w, s) (snd (Service_Launch L now (w, s)))"
  by (auto simp: Service_Launch_def Let_def hands_def live_destroy_child owned_def
      dest!: launch_Inr launch_Inl split: prod.splits sum.splits)

lemma hands_Relaunch: "owned s \<subseteq> live w \<Longrightarrow> hands (w, s) (Relaunch L now ready (w, s))"
  by (auto simp: Relaunch_def hands_Launch intro: hands_same)

lemma calm_Relaunch: "calm (w, s) (Relaunch L now False (w, s))"
  by (simp add: Relaunch_def calm_def)

lemma live_child_call:
  "(\<And>h w. live (f h w) = live w) \<Longrightarrow> live (fst (child_call f ws)) = live (fst ws)"
  by (simp add: child_call_def split: option.splits)

lemma live_BeginStop [simp]: "live (fst (BeginStop L now ws)) = live (fst ws)"
  by (simp add: BeginStop_def Let_def live_child_call request_live)

lemma hands_BeginStop: "owned s \<subseteq> live w \<Longrightarrow> hands (w, s) (BeginStop L now (w, s))"
  using hands_same [of s w "fst (BeginStop L now (w, s))" "snd (BeginStop L now (w, s))"] by simp

lemma hands_Start:
  assumes "owned s \<subseteq> live w"
  shows "hands (w, s) (snd (Service_Start L now ready (w, s)))"
proof -
  let ?s = "s\<lparr>sv_restartHistory := []\<rparr>"
  have "owned ?s \<subseteq> live w" using assms by (simp add: owned_def)
  then have "hands (w, ?s) (snd (Service_Launch L now (w, ?s)))" by (rule hands_Launch)
  moreover have "hands (w, s) (w, ?s)" using assms by (simp add: hands_same)
  ultimately have "hands (w, s) (snd (Service_Launch L now (w, ?s)))" by (rule hands_trans [rotated])
  then show ?thesis
    using assms
    by (cases "sv_state s") (auto simp: Service_Start_def Let_def hands_Launch intro: hands_same)
qed

lemma calm_Start: "calm (w, s) (snd (Service_Start L now False (w, s)))"
  by (cases "sv_state s") (auto simp: Service_Start_def Let_def calm_def)

lemma live_Stop [simp]: "live (fst (snd (Service_Stop L now (w, s)))) = live w"
  by (cases "sv_state s") (auto simp: Service_Stop_def Let_def)

lemma child_Stop [simp]: "sv_child (snd (snd (Service_Stop L now (w, s)))) = sv_child s"
  by (cases "sv_state s") (auto simp: Service_Stop_def Let_def)

lemma hands_Stop: "owned s \<subseteq> live w \<Longrightarrow> hands (w, s) (snd (Service_Stop L now (w, s)))"
  using hands_same [of s w "fst (snd (Service_Stop L now (w, s)))" "snd (snd (Service_Stop L now (w, s)))"]
  by simp

lemma hands_Restart:
  "owned s \<subseteq> live w \<Longrightarrow> hands (w, s) (snd (Service_Restart L now ready (w, s)))"
  by (cases "sv_state s")
    (auto simp: Service_Restart_def Let_def hands_Start intro: hands_same)

lemma calm_Restart: "calm (w, s) (snd (Service_Restart L now False (w, s)))"
  by (cases "sv_state s") (auto simp: Service_Restart_def Let_def calm_Start intro: calm_same)

lemma live_Kill [simp]: "live (fst (Service_Kill L now (w, s))) = live w"
  by (auto simp: Service_Kill_def Let_def kill_live split: option.splits)

lemma hands_Kill: "owned s \<subseteq> live w \<Longrightarrow> hands (w, s) (Service_Kill L now (w, s))"
  by (auto simp: Service_Kill_def Let_def kill_live split: option.splits intro: hands_same)

lemma live_CheckHeartbeat [simp]: "live (fst (CheckHeartbeat L now ws)) = live (fst ws)"
  by (auto simp: CheckHeartbeat_def Let_def)

lemma child_CheckHeartbeat [simp]: "sv_child (snd (CheckHeartbeat L now ws)) = sv_child (snd ws)"
  by (auto simp: CheckHeartbeat_def Let_def)

lemma hands_HandleExit:
  "hands (w, s) (HandleExit L now status allowed ready (w, s))"
proof -
  let ?w = "destroy_child L s w"
  have base: "hands (w, s) (?w, u)" if "sv_child u = None" for u
    using that by (simp add: hands_def live_destroy_child)
  have "hands (w, s) (Relaunch L now ready (?w, u))" if "sv_child u = None" for u
    using base [OF that] by (rule hands_trans) (rule hands_Relaunch, simp add: that)
  with base show ?thesis by (simp add: HandleExit_unfold Let_def)
qed

lemma calm_HandleExit:
  assumes "\<not> (allowed \<and> ready)"
  shows "calm (w, s) (HandleExit L now status allowed ready (w, s))"
proof -
  let ?w = "destroy_child L s w"
  have base: "calm (w, s) (?w, u)" for u by (auto simp: calm_def live_destroy_child)
  have "calm (w, s) (Relaunch L now ready (?w, u))" if "\<not> ready" for u
    using base [of u] that by (auto simp: Relaunch_def calm_def)
  with base assms show ?thesis by (cases allowed) (simp_all add: HandleExit_unfold Let_def)
qed

lemma hands_poll_child:
  assumes "owned s \<subseteq> live w"
  shows "hands (w, s) (poll_child L now allowed ready (w, s))"
proof (cases "sv_child s")
  case None
  with assms show ?thesis by (simp add: poll_child_def hands_refl)
next
  case (Some h)
  obtain r w' where r: "l_Poll L h w = (r, w')" by fastforce
  with assms have poll: "hands (w, s) (w', s)" by (simp add: hands_same poll_live')
  show ?thesis
    using Some r poll hands_trans [OF poll hands_HandleExit]
    by (auto simp: poll_child_def split: option.splits)
qed

lemma calm_poll_child:
  assumes "\<not> (allowed \<and> ready)"
  shows "calm (w, s) (poll_child L now allowed ready (w, s))"
proof -
  have "calm (w, s) (HandleExit L now status allowed ready (w', s))" if "live w' = live w" for w' status
    using calm_HandleExit [OF assms, of w' s now status] that by (simp add: calm_def)
  then show ?thesis
    by (auto simp: poll_child_def poll_live' split: option.splits prod.splits intro: calm_same)
qed

lemma hands_tick_state:
  assumes "owned s \<subseteq> live w"
  shows "hands (w, s) (tick_state L now allowed ready (w, s))"
proof (cases "sv_state s")
  case Backoff
  let ?s = "s\<lparr>sv_restartCount := sv_restartCount s + 1\<rparr>"
  have "hands (w, s) (w, ?s)" using assms by (simp add: hands_same)
  moreover have "hands (w, ?s) (Relaunch L now ready (w, ?s))"
    using assms by (intro hands_Relaunch) (simp add: owned_def)
  ultimately have "hands (w, s) (Relaunch L now ready (w, ?s))" by (rule hands_trans)
  with Backoff assms show ?thesis by (simp add: tick_state_def Let_def hands_refl)
next
  case Stopping
  with assms show ?thesis
    by (auto simp: tick_state_def Let_def child_call_def kill_live split: option.splits
        intro!: hands_same)
qed (use assms hands_same [of s w "fst (CheckHeartbeat L now (w, s))" "snd (CheckHeartbeat L now (w, s))"]
     in \<open>auto simp: tick_state_def Let_def intro: hands_same\<close>)

lemma calm_tick_state:
  assumes "\<not> (allowed \<and> ready)"
  shows "calm (w, s) (tick_state L now allowed ready (w, s))"
proof (cases "sv_state s")
  case Backoff
  with assms show ?thesis by (auto simp: tick_state_def Let_def Relaunch_def calm_def)
next
  case Stopping
  then show ?thesis
    by (auto simp: tick_state_def Let_def child_call_def kill_live calm_def split: option.splits)
qed (auto simp: tick_state_def Let_def calm_def)

lemma hands_Tick:
  assumes "owned s \<subseteq> live w"
  shows "hands (w, s) (Service_Tick L now allowed ready (w, s))"
proof -
  obtain w1 s1 where p: "poll_child L now allowed ready (w, s) = (w1, s1)" by fastforce
  have h: "hands (w, s) (w1, s1)" using hands_poll_child [OF assms, of now allowed ready] p by simp
  then have "owned s1 \<subseteq> live w1" by (simp add: hands_def)
  from hands_trans [OF h hands_tick_state [OF this]] p show ?thesis by (simp add: Service_Tick_def)
qed

lemma calm_Tick:
  assumes "\<not> (allowed \<and> ready)"
  shows "calm (w, s) (Service_Tick L now allowed ready (w, s))"
proof -
  obtain w1 s1 where p: "poll_child L now allowed ready (w, s) = (w1, s1)" by fastforce
  have h: "calm (w, s) (w1, s1)" using calm_poll_child [OF assms, of w s now] p by simp
  from calm_trans [OF h calm_tick_state [OF assms]] p show ?thesis by (simp add: Service_Tick_def)
qed

lemma hands_Sample: "owned s \<subseteq> live w \<Longrightarrow> hands (w, s) (Service_Sample L now table (w, s))"
  by (auto simp: Service_Sample_def Let_def sample_live' split: option.splits prod.splits
      intro!: hands_same)

lemma live_Sample [simp]: "live (fst (Service_Sample L now table (w, s))) = live w"
  by (auto simp: Service_Sample_def Let_def sample_live' split: option.splits prod.splits)

end

end
