(* ===== verification/Service_Runs.thy ===== *)
theory Service_Runs
  imports Service_Props
begin

text \<open>
  The life of a service as a sequence of calls at non-decreasing times, with anything happening
  to the outside world in between: which states are reachable, the restart history and its
  budget, the backoff delay, and what a sequence of ticks does to a service that will not stop.
\<close>

section \<open>Calls\<close>

datatype service_op =
  Do_Start bool | Do_Stop | Do_Restart bool | Do_Kill | Do_Heartbeat | Do_Tick bool bool
  | Do_Abandon string | Do_Sample ProcessTable | Do_SetGpuUsage bool double "64 word"
  | Do_Replace ServiceConfig | Do_SetRemoving bool

fun perform :: "'w launcher \<Rightarrow> Instant \<Rightarrow> service_op \<Rightarrow> 'w \<times> Service \<Rightarrow> 'w \<times> Service" where
  "perform L now (Do_Start ready) ws = snd (Service_Start L now ready ws)"
| "perform L now Do_Stop ws = snd (Service_Stop L now ws)"
| "perform L now (Do_Restart ready) ws = snd (Service_Restart L now ready ws)"
| "perform L now Do_Kill ws = Service_Kill L now ws"
| "perform L now Do_Heartbeat ws = (fst ws, snd (Service_Heartbeat now (snd ws)))"
| "perform L now (Do_Tick allowed ready) ws = Service_Tick L now allowed ready ws"
| "perform L now (Do_Abandon reason) ws = (fst ws, Service_Abandon reason (snd ws))"
| "perform L now (Do_Sample table) ws = Service_Sample L now table ws"
| "perform L now (Do_SetGpuUsage v p m) ws = (fst ws, SetGpuUsage v p m (snd ws))"
| "perform L now (Do_Replace config) ws = (fst ws, Service_Replace config (snd ws))"
| "perform L now (Do_SetRemoving b) ws = (fst ws, SetRemoving b (snd ws))"

text \<open>Whether a call may launch the program.\<close>

fun may_launch :: "service_op \<Rightarrow> bool" where
  "may_launch (Do_Start ready) = ready"
| "may_launch (Do_Restart ready) = ready"
| "may_launch (Do_Tick allowed ready) = (allowed \<and> ready)"
| "may_launch _ = False"

text \<open>\<open>service_reach L t s\<close>: \<open>s\<close> is a service after some calls, the last one not after \<open>t\<close>.\<close>

inductive service_reach :: "'w launcher \<Rightarrow> nanos \<Rightarrow> Service \<Rightarrow> bool" for L where
  new: "service_reach L t (new_Service config env)"
| call: "service_reach L t s \<Longrightarrow> t \<le> in_steady now \<Longrightarrow>
    service_reach L (in_steady now) (snd (perform L now op (w, s)))"

lemma inv_perform: "service_inv s \<Longrightarrow> service_inv (snd (perform L now op (w, s)))"
  by (cases op) (auto simp: inv_operations)

lemma reach_inv: "service_reach L t s \<Longrightarrow> service_inv s"
  by (induction rule: service_reach.induct) (auto simp: inv_perform service_inv_new)

lemma path_perform:
  "service_inv s \<Longrightarrow>
   svc_path (may_launch op) (sv_state s) (sv_state (snd (perform L now op (w, s))))"
  by (cases op)
    (auto simp: path_Start path_Restart path_Stop path_Kill path_Heartbeat path_Tick path_Abandon
      Service_Sample_def SetGpuUsage_def Service_Replace_def SetRemoving_def Let_def
      split: option.splits prod.splits)

section \<open>The restart history\<close>

definition history_ok :: "nanos \<Rightarrow> nanos list \<Rightarrow> bool" where
  "history_ok t h \<longleftrightarrow> sorted h \<and> (\<forall>x \<in> set h. x \<le> t)"

lemma history_ok_Nil [simp]: "history_ok t []"
  by (simp add: history_ok_def)

lemma history_ok_later: "history_ok t h \<Longrightarrow> t \<le> t' \<Longrightarrow> history_ok t' h"
  by (force simp: history_ok_def)

lemma history_ok_snoc: "history_ok t h \<Longrightarrow> t \<le> now \<Longrightarrow> history_ok now (h @ [now])"
  by (force simp: history_ok_def sorted_append)

lemma prune_history_filter:
  "sorted h \<Longrightarrow> prune_history now window h = filter (\<lambda>t. now - t \<le> window) h"
proof (induction h)
  case (Cons t ts)
  show ?case
  proof (cases "now - t > window")
    case True
    with Cons show ?thesis by simp
  next
    case False
    with Cons.prems have "\<forall>x \<in> set (t # ts). now - x \<le> window" by force
    then have "filter (\<lambda>t. now - t \<le> window) (t # ts) = t # ts" by (simp only: filter_id_conv)
    with False show ?thesis by simp
  qed
qed simp

lemma history_ok_prune: "history_ok t h \<Longrightarrow> history_ok t (prune_history now window h)"
  using sorted_filter [of id h] by (simp add: history_ok_def prune_history_filter)

lemma prune_subset: "set (prune_history now window h) \<subseteq> set h"
  by (induction h) auto

abbreviation hist :: "Service \<Rightarrow> nanos list" where
  "hist s \<equiv> sv_restartHistory s"

lemma history_ScheduleRestart:
  "history_ok t (hist s) \<Longrightarrow> t \<le> in_steady now \<Longrightarrow>
   history_ok (in_steady now) (hist (ScheduleRestart now s))"
  by (auto simp: ScheduleRestart_def Let_def intro: history_ok_snoc history_ok_prune history_ok_later)

lemma history_ApplyRestartPolicy:
  "history_ok t (hist s) \<Longrightarrow> t \<le> in_steady now \<Longrightarrow>
   history_ok (in_steady now) (hist (ApplyRestartPolicy now c s))"
  by (auto simp: ApplyRestartPolicy_def Let_def intro: history_ScheduleRestart history_ok_later)

lemma history_Launch:
  "history_ok t (hist s) \<Longrightarrow> t \<le> in_steady now \<Longrightarrow>
   history_ok (in_steady now) (hist (snd (snd (Service_Launch L now (w, s)))))"
  by (auto simp: Service_Launch_def Let_def split: prod.splits sum.splits
      intro: history_ApplyRestartPolicy history_ok_later)

lemma history_Relaunch:
  "history_ok t (hist s) \<Longrightarrow> t \<le> in_steady now \<Longrightarrow>
   history_ok (in_steady now) (hist (snd (Relaunch L now ready (w, s))))"
  by (auto simp: Relaunch_def intro: history_Launch history_ok_later)

lemma history_Start:
  "history_ok t (hist s) \<Longrightarrow> t \<le> in_steady now \<Longrightarrow>
   history_ok (in_steady now) (hist (snd (snd (Service_Start L now ready (w, s)))))"
  by (cases "sv_state s")
    (auto simp: Service_Start_def Let_def intro: history_Launch history_ok_later)

lemma history_Stop: "hist (snd (snd (Service_Stop L now (w, s)))) = hist s"
  by (cases "sv_state s") (auto simp: Service_Stop_def Let_def)

lemma history_Restart:
  "history_ok t (hist s) \<Longrightarrow> t \<le> in_steady now \<Longrightarrow>
   history_ok (in_steady now) (hist (snd (snd (Service_Restart L now ready (w, s)))))"
  by (cases "sv_state s")
    (auto simp: Service_Restart_def Let_def intro: history_Start history_ok_later)

lemma history_Kill: "hist (snd (Service_Kill L now (w, s))) = hist s"
  by (auto simp: Service_Kill_def Let_def split: option.splits)

lemma history_Heartbeat: "hist (snd (Service_Heartbeat now s)) = hist s"
  by (auto simp: Service_Heartbeat_def)

lemma history_CheckHeartbeat: "hist (snd (CheckHeartbeat L now ws)) = hist (snd ws)"
  by (auto simp: CheckHeartbeat_def Let_def)

lemma history_HandleExit:
  assumes "history_ok t (hist s)" and "t \<le> in_steady now"
  shows "history_ok (in_steady now) (hist (snd (HandleExit L now status allowed ready (w, s))))"
  using assms
  by (auto simp: HandleExit_unfold Let_def intro!: history_Relaunch history_ScheduleRestart
      history_ApplyRestartPolicy history_ok_later [OF assms])

lemma history_poll_child:
  assumes "history_ok t (hist s)" and "t \<le> in_steady now"
  shows "history_ok (in_steady now) (hist (snd (poll_child L now allowed ready (w, s))))"
  using assms
  by (auto simp: poll_child_def split: option.splits prod.splits
      intro: history_ok_later history_HandleExit)

lemma history_tick_state:
  assumes "history_ok (in_steady now) (hist s)"
  shows "history_ok (in_steady now) (hist (snd (tick_state L now allowed ready (w, s))))"
proof (cases "sv_state s")
  case Backoff
  with assms show ?thesis by (auto simp: tick_state_def Let_def intro: history_Relaunch)
next
  case Stopping
  with assms show ?thesis
    by (auto simp: tick_state_def Let_def child_call_def split: option.splits)
qed (use assms in \<open>auto simp: tick_state_def Let_def history_CheckHeartbeat\<close>)

lemma history_Tick:
  assumes "history_ok t (hist s)" and "t \<le> in_steady now"
  shows "history_ok (in_steady now) (hist (snd (Service_Tick L now allowed ready (w, s))))"
  using history_tick_state [OF history_poll_child [OF assms]]
  by (metis Service_Tick_def prod.collapse)

lemma history_perform:
  assumes "history_ok t (hist s)" and "t \<le> in_steady now"
  shows "history_ok (in_steady now) (hist (snd (perform L now op (w, s))))"
  using assms
  by (cases op)
    (auto simp: history_Stop history_Kill history_Heartbeat Service_Abandon_def SetGpuUsage_def
      Service_Replace_def SetRemoving_def Service_Sample_def Let_def
      intro: history_Start history_Restart history_Tick history_ok_later
      split: option.splits prod.splits)

lemma reach_history: "service_reach L t s \<Longrightarrow> history_ok t (hist s)"
  by (induction rule: service_reach.induct) (auto simp: new_Service_def intro: history_perform)

section \<open>The budget and the backoff\<close>

definition recent :: "Instant \<Rightarrow> Service \<Rightarrow> nanos list" where
  "recent now s =
     filter (\<lambda>t. in_steady now - t \<le> ns_of_s (sc_restartWindow (sv_config s))) (hist s)"

lemma ScheduleRestart_budget:
  assumes "history_ok t (hist s)"
  shows "if sc_maxRestarts (sv_config s) > 0 \<and> sc_maxRestarts (sv_config s) \<le> int (length (recent now s))
    then sv_state (ScheduleRestart now s) = Failed
    else sv_state (ScheduleRestart now s) = Backoff
      \<and> hist (ScheduleRestart now s) = recent now s @ [in_steady now]
      \<and> sv_restartAt (ScheduleRestart now s)
          = in_steady now + ns_of_ms (BackoffDelay (sv_config s) (length (recent now s)))"
proof -
  have "sorted (hist s)" using assms by (simp add: history_ok_def)
  then show ?thesis by (simp add: ScheduleRestart_def Let_def prune_history_filter recent_def)
qed

lemma backoff_loop_min:
  assumes "0 \<le> d"
  shows "min (backoff_loop n d m) m = min (d * 2 ^ n) m"
  using assms
proof (induction n arbitrary: d)
  case (Suc n)
  show ?case
  proof (cases "d < m")
    case True
    with Suc show ?thesis by (simp add: mult.assoc)
  next
    case False
    have "(1 :: int) \<le> 2 ^ Suc n" by (rule one_le_power) simp
    then have "d * 1 \<le> d * 2 ^ Suc n" using Suc.prems by (intro mult_left_mono)
    with False show ?thesis by simp
  qed
qed simp

lemma BackoffDelay_min:
  assumes "0 \<le> sc_restartDelay c"
  shows "BackoffDelay c n = min (sc_restartDelay c * 2 ^ n) (sc_restartDelayMax c)"
  using backoff_loop_min [OF assms, of n "sc_restartDelayMax c"]
  by (auto simp: BackoffDelay_def Let_def min_def split: if_splits)

section \<open>Stopping a service that does not exit\<close>

text \<open>A tick on a stopping service whose process is still there.\<close>

lemma Tick_Stopping:
  assumes "sv_state s = Stopping" and "sv_child s = Some h" and "l_Poll L h w = (None, w')"
  shows "Service_Tick L now allowed ready (w, s) =
    (if \<not> sv_killSent s \<and> sv_stopDeadline s \<le> in_steady now
     then (l_Kill L h w', s\<lparr>sv_killSent := True,
             sv_killDeadline := in_steady now + ns_of_ms kill_grace\<rparr>)
     else if sv_killSent s \<and> \<not> sv_stuckReported s \<and> sv_killDeadline s \<le> in_steady now
     then (w', s\<lparr>sv_stuckReported := True\<rparr>)
     else (w', s))"
  using assms by (simp add: Service_Tick_def poll_child_def tick_state_def child_call_def)

fun run_ticks :: "'w launcher \<Rightarrow> Instant list \<Rightarrow> 'w \<times> Service \<Rightarrow> 'w \<times> Service" where
  "run_ticks L [] ws = ws"
| "run_ticks L (now # nows) ws = run_ticks L nows (Service_Tick L now True True ws)"

lemma run_ticks_killed:
  assumes "\<And>w. l_Poll L h w = (None, w)"
  shows "sv_state s = Stopping \<Longrightarrow> sv_child s = Some h \<Longrightarrow> sv_killSent s \<Longrightarrow>
    fst (run_ticks L nows (w, s)) = w \<and> sv_state (snd (run_ticks L nows (w, s))) = Stopping"
proof (induction nows arbitrary: s)
  case (Cons now nows)
  note tick = Tick_Stopping [OF Cons.prems(1,2) assms, of now True True w]
  show ?case
    using Cons.IH [OF Cons.prems] Cons.IH [of "s\<lparr>sv_stuckReported := True\<rparr>"] Cons.prems
    by (simp add: tick)
qed simp

text \<open>
  However the ticks fall, the process is killed exactly once, by the first tick at or after the
  deadline, and not at all before it.
\<close>

lemma run_ticks_kill_once:
  assumes "\<And>w. l_Poll L h w = (None, w)"
  shows "sv_state s = Stopping \<Longrightarrow> sv_child s = Some h \<Longrightarrow> \<not> sv_killSent s \<Longrightarrow>
    fst (run_ticks L nows (w, s)) =
      (if \<exists>now \<in> set nows. sv_stopDeadline s \<le> in_steady now then l_Kill L h w else w)"
proof (induction nows arbitrary: s)
  case (Cons now nows)
  note tick = Tick_Stopping [OF Cons.prems(1,2) assms, of now True True w]
  show ?case
  proof (cases "sv_stopDeadline s \<le> in_steady now")
    case True
    let ?s = "s\<lparr>sv_killSent := True, sv_killDeadline := in_steady now + ns_of_ms kill_grace\<rparr>"
    have "fst (run_ticks L nows (l_Kill L h w, ?s)) = l_Kill L h w"
      using run_ticks_killed [OF assms, of ?s nows "l_Kill L h w"] Cons.prems by simp
    with True Cons.prems(3) show ?thesis by (simp add: tick)
  next
    case False
    with Cons.prems(3) Cons.IH [OF Cons.prems] show ?thesis by (simp add: tick)
  qed
qed simp

section \<open>Heartbeats\<close>

lemma missed_beats_div:
  assumes "sv_lastBeat s \<le> in_steady now" and "0 < sc_heartbeatInterval (sv_config s)"
    and "(in_steady now - sv_lastBeat s) div 1000000 div sc_heartbeatInterval (sv_config s) < 2 ^ 31"
  shows "missed_beats now s
    = (in_steady now - sv_lastBeat s) div 1000000 div sc_heartbeatInterval (sv_config s)"
proof -
  let ?q = "(in_steady now - sv_lastBeat s) div 1000000"
  have q: "0 \<le> ?q" using assms(1) by simp
  then have "0 \<le> ?q div sc_heartbeatInterval (sv_config s)" using assms(2)
    by (simp add: pos_imp_zdiv_nonneg_iff)
  with assms q show ?thesis by (simp add: missed_beats_def to_int32_id)
qed

text \<open>A tick on a running service that keeps running.\<close>

lemma Tick_alive_heartbeat:
  assumes "sv_state s = Running \<or> sv_state s = Starting" and "sv_child s = Some h"
    and "l_Poll L h w = (None, w')" and "HeartbeatEnabled s" and "sc_unhealthyAction (sv_config s) = UA_None"
  shows "Service_Tick L now allowed ready (w, s) =
    (w', if missed_beats now s < sc_heartbeatTolerance (sv_config s)
         then s\<lparr>sv_missedBeats := missed_beats now s\<rparr>
         else s\<lparr>sv_missedBeats := missed_beats now s, sv_state := Unhealthy\<rparr>)"
  using assms
  by (auto simp: Service_Tick_def poll_child_def tick_state_def CheckHeartbeat_def Let_def)

end
