(* ===== verification/Service_Table.thy ===== *)
theory Service_Table
  imports Service_Runs
begin

text \<open>
  The state machine of a service as a table: for each call, the states it may lead to from the state,
  the configuration and the pending requests of the service. \<open>Service.cpp\<close> implements it
  (\<open>perform_next\<close>). Before it, what each call leaves alone.
\<close>

section \<open>What a call leaves alone\<close>

lemma config_simps [simp]:
  "sv_config (snd (snd (Service_Launch L now ws))) = sv_config (snd ws)"
  "sv_config (snd (Relaunch L now ready ws)) = sv_config (snd ws)"
  by (auto simp: Service_Launch_def Relaunch_def Let_def split: prod.splits sum.splits)

lemma removing_simps [simp]:
  "sv_removing (snd (snd (Service_Launch L now ws))) = sv_removing (snd ws)"
  "sv_removing (snd (Relaunch L now ready ws)) = sv_removing (snd ws)"
  "sv_removing (snd (BeginStop L now ws)) = sv_removing (snd ws)"
  by (auto simp: Service_Launch_def Relaunch_def BeginStop_def child_call_def Let_def
      split: prod.splits sum.splits option.splits)

definition same_setup :: "Service \<Rightarrow> Service \<Rightarrow> bool" where
  "same_setup s s' \<longleftrightarrow> sv_config s' = sv_config s \<and> sv_removing s' = sv_removing s"

lemma setup_Start: "same_setup (snd ws) (snd (snd (Service_Start L now ready ws)))"
  by (cases "sv_state (snd ws)") (auto simp: Service_Start_def Let_def same_setup_def)

lemma setup_Stop: "same_setup (snd ws) (snd (snd (Service_Stop L now ws)))"
  by (cases "sv_state (snd ws)") (auto simp: Service_Stop_def Let_def same_setup_def)

lemma setup_Restart: "same_setup (snd ws) (snd (snd (Service_Restart L now ready ws)))"
  using setup_Start [of ws L now ready]
  by (cases "sv_state (snd ws)") (auto simp: Service_Restart_def Let_def same_setup_def)

lemma setup_Kill: "same_setup (snd ws) (snd (Service_Kill L now ws))"
  by (auto simp: Service_Kill_def Let_def same_setup_def split: option.splits)

lemma setup_Heartbeat: "same_setup s (snd (Service_Heartbeat now s))"
  by (auto simp: Service_Heartbeat_def same_setup_def)

lemma setup_CheckHeartbeat: "same_setup (snd ws) (snd (CheckHeartbeat L now ws))"
  by (auto simp: CheckHeartbeat_def Let_def same_setup_def)

lemma exited_removing [simp]:
  "sv_removing (exited now status s) = sv_removing s" "sv_removing (stopped now status s) = sv_removing s"
  by (simp_all add: exited_def stopped_def)

lemma setup_HandleExit:
  "same_setup (snd ws) (snd (HandleExit L now status allowed ready ws))"
  by (auto simp: HandleExit_unfold Let_def same_setup_def)

lemma setup_poll_child: "same_setup (snd ws) (snd (poll_child L now allowed ready ws))"
  using setup_HandleExit by (fastforce simp: poll_child_def same_setup_def split: option.splits prod.splits)

lemma setup_tick_state: "same_setup (snd ws) (snd (tick_state L now allowed ready ws))"
  using setup_CheckHeartbeat [of ws L now]
  by (cases "sv_state (snd ws)")
    (auto simp: tick_state_def Let_def same_setup_def child_call_def split: option.splits)

lemma setup_Tick: "same_setup (snd ws) (snd (Service_Tick L now allowed ready ws))"
  using setup_poll_child [of ws L now allowed ready]
    setup_tick_state [of "poll_child L now allowed ready ws" L now allowed ready]
  by (simp add: Service_Tick_def same_setup_def)

lemma setup_Sample: "same_setup (snd ws) (snd (Service_Sample L now table ws))"
  by (auto simp: Service_Sample_def Let_def same_setup_def split: option.splits prod.splits)

lemmas setup_operations = setup_Start setup_Stop setup_Restart setup_Kill setup_Tick setup_Sample

text \<open>A call that is not a replacement of the configuration.\<close>

fun keeps_setup :: "service_op \<Rightarrow> bool" where
  "keeps_setup (Do_Replace c) = False"
| "keeps_setup (Do_SetRemoving b) = False"
| "keeps_setup _ = True"

lemma setup_perform: "keeps_setup op \<Longrightarrow> same_setup s (snd (perform L now op (w, s)))"
  using setup_operations [of "(w, s)"] setup_Heartbeat [of s now]
  by (cases op) (auto simp: Service_Abandon_def SetGpuUsage_def same_setup_def)

section \<open>The table\<close>

text \<open>Where a program goes that has exited or could not be launched, by its restart mode.\<close>

definition policy_states :: "RestartMode \<Rightarrow> bool \<Rightarrow> ServiceState set" where
  "policy_states mode clean =
     (if mode = Always \<or> mode = OnFailure \<and> \<not> clean then {Backoff, Failed}
      else if clean then {Stopped} else {Failed})"

definition launch_states :: "bool \<Rightarrow> RestartMode \<Rightarrow> ServiceState set" where
  "launch_states ready mode = (if ready then insert Starting (policy_states mode False) else {Waiting})"

definition start_states :: "bool \<Rightarrow> RestartMode \<Rightarrow> ServiceState \<Rightarrow> ServiceState set" where
  "start_states ready mode st = (if IsAlive st then {st} else launch_states ready mode)"

definition stop_state :: "ServiceState \<Rightarrow> ServiceState" where
  "stop_state st = (if IsAlive st then Stopping else Stopped)"

text \<open>A process that has exited: on request, or by itself.\<close>

definition exit_states :: "bool \<Rightarrow> bool \<Rightarrow> Service \<Rightarrow> ExitStatus \<Rightarrow> ServiceState set" where
  "exit_states allowed ready s status =
     (let mode = sc_restart (sv_config s)
      in if sv_state s \<noteq> Stopping then policy_states mode (ExitedCleanly status)
         else if \<not> allowed then {Stopped}
         else if sv_restartAfterStop s then {Backoff, Failed}
         else if sv_pendingStart s then launch_states ready mode
         else {Stopped})"

text \<open>The rest of a tick: heartbeats, the grace period and the end of a backoff.\<close>

definition round_states :: "bool \<Rightarrow> bool \<Rightarrow> ServiceConfig \<Rightarrow> ServiceState \<Rightarrow> ServiceState set" where
  "round_states allowed ready c st =
     (let beats = 0 < sc_heartbeatInterval c;
          silent = (if sc_unhealthyAction c = UA_Restart then Stopping else Unhealthy)
      in case st of
           Starting \<Rightarrow> if beats then {Starting, silent} else {Starting, Running}
         | Running \<Rightarrow> if beats then {Running, silent} else {Running}
         | Unhealthy \<Rightarrow> if beats then {Unhealthy} else {Running}
         | Backoff \<Rightarrow> if allowed then insert Backoff (launch_states ready (sc_restart c)) else {Backoff}
         | _ \<Rightarrow> {st})"

text \<open>\<open>left\<close> is the exit status that a tick finds, if the process has exited.\<close>

fun next_states :: "service_op \<Rightarrow> Service \<Rightarrow> ExitStatus option \<Rightarrow> ServiceState set" where
  "next_states (Do_Start ready) s left = start_states ready (sc_restart (sv_config s)) (sv_state s)"
| "next_states (Do_Restart ready) s left =
     (if IsAlive (sv_state s) then {Stopping} else launch_states ready (sc_restart (sv_config s)))"
| "next_states Do_Stop s left = {stop_state (sv_state s)}"
| "next_states Do_Kill s left = {stop_state (sv_state s)}"
| "next_states Do_Heartbeat s left =
     {if sv_state s \<in> {Starting, Running, Unhealthy} then Running else sv_state s}"
| "next_states (Do_Tick allowed ready) s None = round_states allowed ready (sv_config s) (sv_state s)"
| "next_states (Do_Tick allowed ready) s (Some status) =
     \<Union> (round_states allowed ready (sv_config s) ` exit_states allowed ready s status)"
| "next_states (Do_Abandon reason) s left = {if sv_state s = Waiting then Failed else sv_state s}"
| "next_states _ s left = {sv_state s}"

definition exit_seen :: "'w launcher \<Rightarrow> 'w \<Rightarrow> Service \<Rightarrow> ExitStatus option" where
  "exit_seen L w s = (case sv_child s of None \<Rightarrow> None | Some h \<Rightarrow> fst (l_Poll L h w))"

section \<open>The operations follow it\<close>

lemma ApplyRestartPolicy_next:
  "sv_state (ApplyRestartPolicy now clean s) \<in> policy_states (sc_restart (sv_config s)) clean"
  using ScheduleRestart_state [of now s] by (auto simp: ApplyRestartPolicy_def policy_states_def Let_def)

lemma Launch_next:
  "sv_state (snd (snd (Service_Launch L now (w, s)))) \<in> launch_states True (sc_restart (sv_config s))"
proof (cases "l_Launch L (BuildRequest s) w")
  case (Pair r w')
  show ?thesis
  proof (cases r)
    case (Inl e)
    obtain code error where "e = (code, error)" by fastforce
    with Inl Pair ApplyRestartPolicy_next [of now False "s\<lparr>sv_lastError := error, sv_lastExitCode := 127,
        sv_lastExitTime := in_wallNs now\<rparr>"]
    show ?thesis by (simp add: Service_Launch_def launch_states_def)
  qed (use Pair in \<open>simp add: Service_Launch_def launch_states_def Let_def\<close>)
qed

lemma Relaunch_next:
  "sv_state (snd (Relaunch L now ready (w, s))) \<in> launch_states ready (sc_restart (sv_config s))"
  using Launch_next [of L now w s] by (simp add: Relaunch_def) (simp add: launch_states_def)

lemma Start_next:
  "sv_state (snd (snd (Service_Start L now ready (w, s)))) \<in> start_states ready (sc_restart (sv_config s)) (sv_state s)"
  using Launch_next [of L now w s] Launch_next [of L now w "s\<lparr>sv_restartHistory := []\<rparr>"]
  by (cases "sv_state s"; cases ready) (simp_all add: Service_Start_def start_states_def launch_states_def Let_def)

lemma Stop_next: "sv_state (snd (snd (Service_Stop L now (w, s)))) = stop_state (sv_state s)"
  by (cases "sv_state s") (simp_all add: Service_Stop_def stop_state_def)

lemma Restart_next:
  "sv_state (snd (snd (Service_Restart L now ready (w, s))))
    \<in> (if IsAlive (sv_state s) then {Stopping} else launch_states ready (sc_restart (sv_config s)))"
  using Start_next [of L now ready w s]
  by (cases "sv_state s") (simp_all add: Service_Restart_def start_states_def Let_def)

lemma Kill_next: "service_inv s \<Longrightarrow> sv_state (snd (Service_Kill L now (w, s))) = stop_state (sv_state s)"
  by (auto simp: Service_Kill_def stop_state_def service_inv_def Let_def split: option.splits)

lemma HandleExit_next:
  "sv_state (snd (HandleExit L now status allowed ready (w, s))) \<in> exit_states allowed ready s status"
proof (cases "sv_state s = Stopping")
  case True
  let ?s = "stopped now status s"
  show ?thesis
    using True ScheduleRestart_state [of now ?s] Relaunch_next [of L now ready "destroy_child L s w" ?s]
      Relaunch_next [of L now ready "destroy_child L s w" "?s\<lparr>sv_restartCount := sv_restartCount s + 1\<rparr>"]
    by (auto simp: HandleExit_unfold exit_states_def Let_def)
next
  case False
  with ApplyRestartPolicy_next [of now "ExitedCleanly status" "exited now status s"] show ?thesis
    by (simp add: HandleExit_unfold exit_states_def Let_def)
qed

lemma CheckHeartbeat_next:
  "sv_state (snd (CheckHeartbeat L now (w, s)))
    \<in> (if sv_state s = Unhealthy then {Unhealthy}
       else {sv_state s, if sc_unhealthyAction (sv_config s) = UA_Restart then Stopping else Unhealthy})"
  by (auto simp: CheckHeartbeat_def Let_def)

lemma tick_state_next:
  "sv_state (snd (tick_state L now allowed ready (w, s))) \<in> round_states allowed ready (sv_config s) (sv_state s)"
  using CheckHeartbeat_next [of L now w s]
    Relaunch_next [of L now ready w "s\<lparr>sv_restartCount := sv_restartCount s + 1\<rparr>"]
  by (cases "sv_state s")
    (auto simp: tick_state_def round_states_def HeartbeatEnabled_def child_call_def Let_def split: option.splits)

lemma Tick_next:
  "sv_state (snd (Service_Tick L now allowed ready (w, s))) \<in> next_states (Do_Tick allowed ready) s (exit_seen L w s)"
proof -
  obtain w1 s1 where p: "poll_child L now allowed ready (w, s) = (w1, s1)" by fastforce
  with setup_poll_child [of "(w, s)" L now allowed ready] have c: "sv_config s1 = sv_config s"
    by (simp add: same_setup_def)
  note t = tick_state_next [of L now allowed ready w1 s1]
  show ?thesis
  proof (cases "exit_seen L w s")
    case None
    then have "sv_state s1 = sv_state s"
      using p by (auto simp: exit_seen_def poll_child_def split: option.splits prod.splits)
    with None t c p show ?thesis by (simp add: Service_Tick_def)
  next
    case (Some status)
    then obtain h w' where "sv_child s = Some h" "l_Poll L h w = (Some status, w')"
      by (auto simp: exit_seen_def split: option.splits) (metis prod.collapse)
    with p HandleExit_next [of L now status allowed ready w' s] have "sv_state s1 \<in> exit_states allowed ready s status"
      by (simp add: poll_child_def)
    with Some t c p show ?thesis by (auto simp: Service_Tick_def)
  qed
qed

lemma perform_next:
  assumes "service_inv s"
  shows "sv_state (snd (perform L now op (w, s))) \<in> next_states op s (exit_seen L w s)"
proof (cases op)
  case Do_Heartbeat
  then show ?thesis by (auto simp: Service_Heartbeat_def)
next
  case (Do_Tick allowed ready)
  then show ?thesis using Tick_next [of L now allowed ready w s] by simp
next
  case (Do_Restart ready)
  then show ?thesis using Restart_next [of L now ready w s] by simp
qed (use assms in \<open>auto simp: Start_next Stop_next Kill_next Service_Abandon_def Service_Sample_def SetGpuUsage_def
       Service_Replace_def SetRemoving_def Let_def split: option.splits prod.splits\<close>)

end
