(* ===== verification/Gpu_Monitor.thy ===== *)
theory Gpu_Monitor
  imports Float64
begin

text \<open>
  GPU readings (\<open>src/manager/include/GpuMonitor.hpp\<close>, \<open>GpuMonitor.cpp\<close>): the types, and
  \<open>AggregateGpuProcesses\<close>, which takes the largest reading per device and sums over devices.
  Loading NVML and calling it is in the theory \<open>Gpu_Library\<close>.
\<close>

record GpuDevice =
  gd_index :: "32 word"
  gd_name :: string
  gd_uuid :: string
  gd_utilizationPercent :: double
  gd_memoryUtilizationPercent :: double
  gd_memoryTotalBytes :: "64 word"
  gd_memoryUsedBytes :: "64 word"
  gd_temperatureC :: "32 word"
  gd_powerMilliwatts :: "32 word"

record GpuProcessUsage =
  gu_utilizationPercent :: double
  gu_memoryBytes :: "64 word"

record GpuSnapshot =
  gs_available :: bool
  gs_devices :: "GpuDevice list"
  gs_processes :: "int \<rightharpoonup> GpuProcessUsage"

record GpuProcessSample =
  gp_device :: "32 word"
  gp_pid :: int
  gp_hasMemory :: bool
  gp_memoryBytes :: "64 word"
  gp_hasUtilization :: bool
  gp_utilizationPercent :: double

text \<open>\<open>std::max\<close>: the first argument unless it is below the second.\<close>

definition fp_max :: "double \<Rightarrow> double \<Rightarrow> double" where
  "fp_max a b = (if fp_less a b then b else a)"

definition sample_key :: "GpuProcessSample \<Rightarrow> nat \<times> int" where
  "sample_key e = (unat (gp_device e), gp_pid e)"

definition key_less :: "nat \<times> int \<Rightarrow> nat \<times> int \<Rightarrow> bool" where
  "key_less a b \<longleftrightarrow> fst a < fst b \<or> (fst a = fst b \<and> snd a < snd b)"

text \<open>One more reading for the entry of its device and process.\<close>

definition merge_sample :: "GpuProcessSample \<Rightarrow> GpuProcessSample \<Rightarrow> GpuProcessSample" where
  "merge_sample sample entry =
     (let entry = entry\<lparr>gp_device := gp_device sample, gp_pid := gp_pid sample\<rparr>;
          entry = (if gp_hasMemory sample
                   then entry\<lparr>gp_memoryBytes := (if gp_hasMemory entry
                                then max (gp_memoryBytes entry) (gp_memoryBytes sample)
                                else gp_memoryBytes sample), gp_hasMemory := True\<rparr>
                   else entry)
      in if gp_hasUtilization sample
         then entry\<lparr>gp_utilizationPercent := (if gp_hasUtilization entry
                      then fp_max (gp_utilizationPercent entry) (gp_utilizationPercent sample)
                      else gp_utilizationPercent sample), gp_hasUtilization := True\<rparr>
         else entry)"

definition empty_sample :: GpuProcessSample where
  "empty_sample =
     \<lparr>gp_device = 0, gp_pid = 0, gp_hasMemory = False, gp_memoryBytes = 0,
      gp_hasUtilization = False, gp_utilizationPercent = double_zero\<rparr>"

text \<open>The ordered map from device and process to its entry is a list in key order.\<close>

fun per_device :: "GpuProcessSample \<Rightarrow> GpuProcessSample list \<Rightarrow> GpuProcessSample list" where
  "per_device sample [] = [merge_sample sample empty_sample]"
| "per_device sample (e # es) =
     (if sample_key e = sample_key sample then merge_sample sample e # es
      else if key_less (sample_key sample) (sample_key e) then merge_sample sample empty_sample # e # es
      else e # per_device sample es)"

definition default_GpuProcessUsage :: GpuProcessUsage where
  "default_GpuProcessUsage = \<lparr>gu_utilizationPercent = double_minus_one, gu_memoryBytes = 0\<rparr>"

definition add_usage :: "GpuProcessSample \<Rightarrow> (int \<rightharpoonup> GpuProcessUsage) \<Rightarrow> int \<rightharpoonup> GpuProcessUsage" where
  "add_usage entry usage =
     (let total = (case usage (gp_pid entry) of Some u \<Rightarrow> u | None \<Rightarrow> default_GpuProcessUsage);
          total = (if gp_hasMemory entry
                   then total\<lparr>gu_memoryBytes := gu_memoryBytes total + gp_memoryBytes entry\<rparr> else total);
          total = (if gp_hasUtilization entry
                   then total\<lparr>gu_utilizationPercent :=
                          fp_add (fp_max (gu_utilizationPercent total) double_zero)
                            (gp_utilizationPercent entry)\<rparr>
                   else total)
      in usage(gp_pid entry \<mapsto> total))"

definition AggregateGpuProcesses :: "GpuProcessSample list \<Rightarrow> int \<rightharpoonup> GpuProcessUsage" where
  "AggregateGpuProcesses samples =
     fold add_usage (fold per_device (filter (\<lambda>e. gp_pid e > 0) samples) []) Map.empty"

section \<open>What the aggregate holds\<close>

lemma merge_key [simp]: "sample_key (merge_sample sample e) = sample_key sample"
  by (auto simp: merge_sample_def sample_key_def Let_def)

lemma per_device_keys:
  "sample_key ` set (per_device sample es) = insert (sample_key sample) (sample_key ` set es)"
  by (induction es) auto

definition key_sorted :: "GpuProcessSample list \<Rightarrow> bool" where
  "key_sorted es \<longleftrightarrow> sorted_wrt (\<lambda>a b. key_less (sample_key a) (sample_key b)) es"

lemma key_less_irrefl [simp]: "\<not> key_less k k"
  by (simp add: key_less_def)

lemma key_less_trans: "key_less a b \<Longrightarrow> key_less b c \<Longrightarrow> key_less a c"
  by (auto simp: key_less_def)

lemma key_less_total: "a \<noteq> b \<Longrightarrow> \<not> key_less a b \<Longrightarrow> key_less b a"
  by (cases a; cases b) (auto simp: key_less_def)

lemma key_sorted_per_device: "key_sorted es \<Longrightarrow> key_sorted (per_device sample es)"
proof (induction es)
  case (Cons e es)
  show ?case
  proof (cases "sample_key e = sample_key sample")
    case True
    with Cons.prems show ?thesis by (auto simp: key_sorted_def)
  next
    case ne: False
    show ?thesis
    proof (cases "key_less (sample_key sample) (sample_key e)")
      case True
      with Cons.prems ne show ?thesis by (auto simp: key_sorted_def intro: key_less_trans)
    next
      case False
      with ne have "key_less (sample_key e) (sample_key sample)" by (metis key_less_total)
      moreover have "\<forall>x \<in> set (per_device sample es). sample_key x = sample_key sample
          \<or> sample_key x \<in> sample_key ` set es"
        using per_device_keys [of sample es] by blast
      ultimately have "\<forall>x \<in> set (per_device sample es). key_less (sample_key e) (sample_key x)"
        using Cons.prems by (fastforce simp: key_sorted_def)
      with Cons False ne show ?thesis by (simp add: key_sorted_def)
    qed
  qed
qed (simp add: key_sorted_def)

text \<open>The memory of a device entry is the largest reading for its device and process.\<close>

definition readings :: "GpuProcessSample list \<Rightarrow> nat \<times> int \<Rightarrow> 64 word set" where
  "readings samples k =
     gp_memoryBytes ` {e \<in> set samples. sample_key e = k \<and> gp_hasMemory e}"

definition entry_ok :: "GpuProcessSample list \<Rightarrow> GpuProcessSample \<Rightarrow> bool" where
  "entry_ok samples e \<longleftrightarrow>
     (gp_hasMemory e \<longleftrightarrow> readings samples (sample_key e) \<noteq> {})
     \<and> (gp_hasMemory e \<longrightarrow> gp_memoryBytes e = Max (readings samples (sample_key e)))"

lemma finite_readings [simp]: "finite (readings samples k)"
  by (simp add: readings_def)

lemma readings_empty:
  "readings samples k = {} \<longleftrightarrow> (\<forall>e \<in> set samples. sample_key e = k \<longrightarrow> \<not> gp_hasMemory e)"
  by (auto simp: readings_def)

lemma readings_snoc:
  "readings (samples @ [x]) k =
    (if sample_key x = k \<and> gp_hasMemory x then insert (gp_memoryBytes x) (readings samples k)
     else readings samples k)"
  by (auto simp: readings_def)

lemma entry_ok_merge:
  assumes "entry_ok samples e" and "sample_key e = sample_key x"
  shows "entry_ok (samples @ [x]) (merge_sample x e)"
  using assms unfolding entry_ok_def
  by (auto simp: readings_snoc merge_sample_def Let_def sample_key_def max.commute)

lemma entry_ok_first:
  assumes "readings samples (sample_key x) = {}"
  shows "entry_ok (samples @ [x]) (merge_sample x empty_sample)"
  using assms unfolding entry_ok_def
  by (auto simp: readings_snoc merge_sample_def Let_def sample_key_def empty_sample_def)

lemma entry_ok_other:
  "entry_ok samples e \<Longrightarrow> sample_key e \<noteq> sample_key x \<Longrightarrow> entry_ok (samples @ [x]) e"
  by (auto simp: entry_ok_def readings_snoc)

lemma per_device_entries:
  assumes "\<forall>e \<in> set es. entry_ok samples e" and "key_sorted es"
    and "sample_key x \<notin> sample_key ` set es \<Longrightarrow> readings samples (sample_key x) = {}"
  shows "\<forall>e \<in> set (per_device x es). entry_ok (samples @ [x]) e"
  using assms
proof (induction es)
  case Nil
  then show ?case by (simp add: entry_ok_first)
next
  case (Cons e es)
  have other: "entry_ok (samples @ [x]) f" if "f \<in> set (e # es)" "sample_key f \<noteq> sample_key x" for f
    using Cons.prems(1) that by (intro entry_ok_other) auto
  show ?case
  proof (cases "sample_key e = sample_key x")
    case True
    then have "\<forall>f \<in> set es. sample_key f \<noteq> sample_key x"
      using Cons.prems(2) by (auto simp: key_sorted_def)
    with True Cons.prems(1) other show ?thesis by (auto simp: entry_ok_merge)
  next
    case ne: False
    show ?thesis
    proof (cases "key_less (sample_key x) (sample_key e)")
      case True
      then have "\<forall>f \<in> set (e # es). key_less (sample_key x) (sample_key f)"
        using Cons.prems(2) by (auto simp: key_sorted_def intro: key_less_trans)
      then have "\<forall>f \<in> set (e # es). sample_key f \<noteq> sample_key x" by force
      moreover from this Cons.prems(3) have "entry_ok (samples @ [x]) (merge_sample x empty_sample)"
        by (intro entry_ok_first) force
      ultimately show ?thesis using ne True other by auto
    next
      case False
      have "\<forall>f \<in> set (per_device x es). entry_ok (samples @ [x]) f"
        using Cons.prems ne by (intro Cons.IH) (auto simp: key_sorted_def)
      with ne False other show ?thesis by auto
    qed
  qed
qed

lemma per_device_fold:
  "key_sorted (fold per_device samples []) \<and> (\<forall>e \<in> set (fold per_device samples []). entry_ok samples e)
   \<and> sample_key ` set (fold per_device samples []) = sample_key ` set samples"
proof (induction samples rule: rev_induct)
  case Nil
  then show ?case by (simp add: key_sorted_def)
next
  case (snoc x samples)
  let ?es = "fold per_device samples []"
  have "readings samples (sample_key x) = {}" if "sample_key x \<notin> sample_key ` set ?es"
  proof -
    have "sample_key x \<notin> sample_key ` set samples" using that snoc by blast
    then show ?thesis unfolding readings_empty by (metis imageI)
  qed
  with snoc have "\<forall>e \<in> set (per_device x ?es). entry_ok (samples @ [x]) e"
    by (intro per_device_entries) auto
  with snoc show ?case by (simp add: key_sorted_per_device per_device_keys)
qed

lemma fold_add_usage_memory:
  "gu_memoryBytes (case fold add_usage es usage pid of Some u \<Rightarrow> u | None \<Rightarrow> default_GpuProcessUsage)
   = gu_memoryBytes (case usage pid of Some u \<Rightarrow> u | None \<Rightarrow> default_GpuProcessUsage)
     + sum_list (map gp_memoryBytes (filter (\<lambda>e. gp_pid e = pid \<and> gp_hasMemory e) es))"
  by (induction es arbitrary: usage) (auto simp: add_usage_def Let_def split: option.splits)

lemma fold_add_usage_dom: "dom (fold add_usage es usage) = dom usage \<union> gp_pid ` set es"
  by (induction es arbitrary: usage) (auto simp: add_usage_def Let_def)

text \<open>The devices on which a process has a memory reading.\<close>

definition devices_of :: "GpuProcessSample list \<Rightarrow> int \<Rightarrow> nat set" where
  "devices_of samples pid = {d. readings samples (d, pid) \<noteq> {}}"

lemma key_sorted_distinct: "key_sorted es \<Longrightarrow> distinct (map sample_key es)"
  unfolding key_sorted_def by (induction es) force+

lemma Aggregate_memory:
  assumes "0 < pid" and "AggregateGpuProcesses samples pid = Some u"
  shows "gu_memoryBytes u = (\<Sum>d \<in> devices_of samples pid. Max (readings samples (d, pid)))"
proof -
  let ?ss = "filter (\<lambda>e. gp_pid e > 0) samples"
  let ?es = "fold per_device ?ss []"
  let ?fs = "filter (\<lambda>e. gp_pid e = pid \<and> gp_hasMemory e) ?es"
  have same: "readings ?ss (d, pid) = readings samples (d, pid)" for d
    using assms(1) by (auto simp: readings_def sample_key_def)
  note es = per_device_fold [of ?ss]
  have ok: "e \<in> set ?fs \<Longrightarrow> gp_memoryBytes e = Max (readings samples (unat (gp_device e), pid))" for e
    using es same by (auto simp: entry_ok_def sample_key_def)
  have "distinct (map sample_key ?fs)"
    using es by (intro distinct_map_filter key_sorted_distinct) simp
  then have dist: "distinct (map (\<lambda>e. unat (gp_device e)) ?fs)"
    by (auto simp: distinct_map inj_on_def sample_key_def)
  have devs: "set (map (\<lambda>e. unat (gp_device e)) ?fs) = devices_of samples pid"
  proof (intro set_eqI iffI)
    fix d assume "d \<in> set (map (\<lambda>e. unat (gp_device e)) ?fs)"
    then obtain e where "e \<in> set ?fs" "d = unat (gp_device e)" by auto
    with es same show "d \<in> devices_of samples pid"
      by (auto simp: entry_ok_def devices_of_def sample_key_def)
  next
    fix d assume "d \<in> devices_of samples pid"
    then have r: "readings ?ss (d, pid) \<noteq> {}" by (simp add: same devices_of_def)
    then obtain x where x: "x \<in> set ?ss" "sample_key x = (d, pid)" unfolding readings_empty by blast
    from x(1) have "sample_key x \<in> sample_key ` set ?ss" by (rule imageI)
    then have "sample_key x \<in> sample_key ` set ?es" using es by blast
    then obtain e where e: "e \<in> set ?es" "sample_key x = sample_key e" by (rule imageE)
    with x have e2: "sample_key e = (d, pid)" by simp
    with es r e have "gp_hasMemory e" by (auto simp: entry_ok_def)
    with e(1) e2 have "e \<in> set ?fs" "unat (gp_device e) = d" by (auto simp: sample_key_def)
    then have "d \<in> (\<lambda>e. unat (gp_device e)) ` set ?fs" by blast
    then show "d \<in> set (map (\<lambda>e. unat (gp_device e)) ?fs)" by simp
  qed
  have "gu_memoryBytes u = sum_list (map gp_memoryBytes ?fs)"
    using assms(2) fold_add_usage_memory [of ?es Map.empty pid]
    by (simp add: AggregateGpuProcesses_def default_GpuProcessUsage_def)
  also have "map gp_memoryBytes ?fs = map (\<lambda>d. Max (readings samples (d, pid))) (map (\<lambda>e. unat (gp_device e)) ?fs)"
    using ok by simp
  also have "sum_list \<dots> = (\<Sum>d \<in> devices_of samples pid. Max (readings samples (d, pid)))"
    using sum_list_distinct_conv_sum_set [OF dist, of "\<lambda>d. Max (readings samples (d, pid))"] devs by simp
  finally show ?thesis .
qed

lemma Aggregate_pids: "dom (AggregateGpuProcesses samples) = {gp_pid e | e. e \<in> set samples \<and> 0 < gp_pid e}"
proof -
  let ?ss = "filter (\<lambda>e. gp_pid e > 0) samples"
  have "gp_pid ` set (fold per_device ?ss []) = snd ` sample_key ` set (fold per_device ?ss [])"
    by (simp add: image_image sample_key_def)
  also have "\<dots> = gp_pid ` set ?ss"
    using per_device_fold [of ?ss] by (simp add: image_image sample_key_def)
  finally show ?thesis by (auto simp: AggregateGpuProcesses_def fold_add_usage_dom)
qed

section \<open>Properties\<close>

text \<open>
  C40: exactly the processes with a positive ID that NVML lists have a result, and one that it lists
  more than once, as a graphics and a compute client, is counted once per device: its GPU memory is
  the sum over the devices of the largest reading on each.
\<close>

theorem gpu_memory_counted_once:
  "dom (AggregateGpuProcesses samples) = {gp_pid e | e. e \<in> set samples \<and> 0 < gp_pid e}
    \<and> (\<forall>pid u. AggregateGpuProcesses samples pid = Some u \<longrightarrow>
        gu_memoryBytes u = (\<Sum>d \<in> devices_of samples pid. Max (readings samples (d, pid))))"
proof (intro conjI allI impI)
  fix pid u
  assume u: "AggregateGpuProcesses samples pid = Some u"
  then have "pid \<in> dom (AggregateGpuProcesses samples)" by (rule domI)
  then have "0 < pid" unfolding Aggregate_pids by auto
  from this u show "gu_memoryBytes u = (\<Sum>d \<in> devices_of samples pid. Max (readings samples (d, pid)))"
    by (rule Aggregate_memory)
qed (rule Aggregate_pids)

definition memory_sample :: "32 word \<Rightarrow> 64 word \<Rightarrow> GpuProcessSample" where
  "memory_sample device memory = empty_sample\<lparr>gp_device := device, gp_pid := 7, gp_hasMemory := True,
     gp_memoryBytes := memory\<rparr>"

definition twice_listed :: "GpuProcessSample list" where
  "twice_listed = [memory_sample 0 100, memory_sample 0 300, memory_sample 1 50]"

theorem gpu_memory_counted_once_witness:
  "dom (AggregateGpuProcesses twice_listed) = {7}
    \<and> (\<Sum>d \<in> devices_of twice_listed 7. Max (readings twice_listed (d, 7))) = 350"
proof -
  have "map_option gu_memoryBytes (AggregateGpuProcesses twice_listed 7) = Some 350" by code_simp
  then obtain u where "AggregateGpuProcesses twice_listed 7 = Some u" "gu_memoryBytes u = 350" by auto
  moreover have "{gp_pid e | e. e \<in> set twice_listed \<and> 0 < gp_pid e}
      = gp_pid ` set (filter (\<lambda>e. 0 < gp_pid e) twice_listed)" by auto
  then have "{gp_pid e | e. e \<in> set twice_listed \<and> 0 < gp_pid e} = {7}"
    by (simp add: twice_listed_def memory_sample_def)
  ultimately show ?thesis using gpu_memory_counted_once [of twice_listed] by auto
qed

end
