(* ===== verification/Service_Manager.thy ===== *)
theory Service_Manager
  imports Service_Runs Gpu_Monitor
begin

text \<open>
  The service manager (\<open>src/manager/include/ServiceManager.hpp\<close>, \<open>ServiceManager.cpp\<close>): the list of
  services, every operation on it and its loops, on the pair of the outside world and the
  manager. A service pointer is an index into the list. The recursion of \<open>StartDependencies\<close>
  carries fuel, one unit per nested call; \<open>Manager_Props\<close> shows that one more than the number of
  services is always enough.
\<close>

section \<open>State and queries\<close>

record Manager =
  mg_managerEnvironment :: "EnvironmentVariable list"
  mg_services :: "Service list"
  mg_removed :: "string list"
  mg_shuttingDown :: bool

record ReloadSummary =
  rs_added :: int
  rs_removed :: int
  rs_changed :: int

definition new_Manager :: "EnvironmentVariable list \<Rightarrow> Manager" where
  "new_Manager env =
     \<lparr>mg_managerEnvironment = env, mg_services = [], mg_removed = [], mg_shuttingDown = False\<rparr>"

definition Manager_Load :: "ServiceConfig list \<Rightarrow> Manager \<Rightarrow> Manager" where
  "Manager_Load configs m =
     m\<lparr>mg_services := map (\<lambda>c. new_Service c (mg_managerEnvironment m)) configs\<rparr>"

definition Listed :: "ServiceConfig list \<Rightarrow> string \<Rightarrow> bool" where
  "Listed configs n \<longleftrightarrow> list_ex (\<lambda>c. sc_name c = n) configs"

fun index_of :: "Service list \<Rightarrow> string \<Rightarrow> nat option" where
  "index_of [] n = None"
| "index_of (s # ss) n = (if Service_Name s = n then Some 0 else map_option Suc (index_of ss n))"

definition FindMutable :: "Manager \<Rightarrow> string \<Rightarrow> nat option" where
  "FindMutable m n = index_of (mg_services m) n"

definition Manager_Find :: "Manager \<Rightarrow> string \<Rightarrow> Service option" where
  "Manager_Find m n = find (\<lambda>s. Service_Name s = n) (mg_services m)"

definition DependenciesRunning :: "Manager \<Rightarrow> Service \<Rightarrow> bool" where
  "DependenciesRunning m s \<longleftrightarrow>
     list_all (\<lambda>d. case Manager_Find m d of None \<Rightarrow> False | Some other \<Rightarrow> sv_state other = Running)
       (sc_dependsOn (sv_config s))"

fun dependency_blocked_loop :: "Manager \<Rightarrow> string list \<Rightarrow> string option" where
  "dependency_blocked_loop m [] = None"
| "dependency_blocked_loop m (d # ds) =
     (case Manager_Find m d of
        None \<Rightarrow> Some (''dependency '' @ d @ '' does not exist'')
      | Some other \<Rightarrow>
          if sv_state other = Failed \<or> sv_state other = Stopped
          then Some (''dependency '' @ d @ '' is '' @ ServiceStateName (sv_state other))
          else dependency_blocked_loop m ds)"

text \<open>The reason, when a dependency will not come up.\<close>

definition DependencyBlocked :: "Manager \<Rightarrow> Service \<Rightarrow> string option" where
  "DependencyBlocked m s = dependency_blocked_loop m (sc_dependsOn (sv_config s))"

definition DependentsStopped :: "Manager \<Rightarrow> Service \<Rightarrow> bool" where
  "DependentsStopped m s \<longleftrightarrow>
     list_all (\<lambda>other. \<not> (Service_Name s \<in> set (sc_dependsOn (sv_config other))
                            \<and> IsAlive (sv_state other))) (mg_services m)"

definition AllStopped :: "Manager \<Rightarrow> bool" where
  "AllStopped m \<longleftrightarrow> list_all (\<lambda>s. \<not> IsAlive (sv_state s)) (mg_services m)"

definition Statuses :: "'w launcher \<Rightarrow> 'w \<Rightarrow> Manager \<Rightarrow> ServiceStatus list" where
  "Statuses L w m = map (Service_Status L w) (mg_services m)"

definition Manager_Count :: "Manager \<Rightarrow> nat" where
  "Manager_Count m = length (mg_services m)"

definition TakeRemoved :: "Manager \<Rightarrow> string list \<times> Manager" where
  "TakeRemoved m = (mg_removed m, m\<lparr>mg_removed := []\<rparr>)"

section \<open>Calls on one service\<close>

text \<open>A call on the service at index \<open>i\<close>, with and without a result.\<close>

definition at_service ::
  "nat \<Rightarrow> ('w \<times> Service \<Rightarrow> 'r \<times> 'w \<times> Service) \<Rightarrow> 'w \<times> Manager \<Rightarrow> 'r \<times> 'w \<times> Manager" where
  "at_service i f wm =
     (case f (fst wm, mg_services (snd wm) ! i) of
        (r, w', s') \<Rightarrow> (r, w', (snd wm)\<lparr>mg_services := (mg_services (snd wm))[i := s']\<rparr>))"

definition on_service :: "nat \<Rightarrow> ('w \<times> Service \<Rightarrow> 'w \<times> Service) \<Rightarrow> 'w \<times> Manager \<Rightarrow> 'w \<times> Manager" where
  "on_service i f wm =
     (case f (fst wm, mg_services (snd wm) ! i) of
        (w', s') \<Rightarrow> (w', (snd wm)\<lparr>mg_services := (mg_services (snd wm))[i := s']\<rparr>))"

section \<open>Starting with dependencies\<close>

text \<open>
  \<open>start_dependencies fuel L now names wm visiting started\<close>: the loop of \<open>StartDependencies\<close> over the
  names it still has to start.
\<close>

fun start_dependencies ::
  "nat \<Rightarrow> 'w launcher \<Rightarrow> Instant \<Rightarrow> string list \<Rightarrow> 'w \<times> Manager \<Rightarrow> string list \<Rightarrow> string list
   \<Rightarrow> (('w \<times> Manager) \<times> string list \<times> string list) option" where
  "start_dependencies fuel L now [] wm visiting started = Some (wm, visiting, started)"
| "start_dependencies 0 L now (n # ns) wm visiting started = None"
| "start_dependencies (Suc fuel) L now (n # ns) wm visiting started =
     (case FindMutable (snd wm) n of
        None \<Rightarrow> start_dependencies (Suc fuel) L now ns wm visiting started
      | Some i \<Rightarrow>
          if n \<in> set visiting then start_dependencies (Suc fuel) L now ns wm visiting started
          else
            (case start_dependencies fuel L now (sc_dependsOn (sv_config (mg_services (snd wm) ! i)))
                    wm (visiting @ [n]) started of
               None \<Rightarrow> None
             | Some (wm', visiting', started') \<Rightarrow>
                 (let s = mg_services (snd wm') ! i;
                      before = sv_state s;
                      wm'' = snd (at_service i (Service_Start L now (DependenciesRunning (snd wm') s)) wm');
                      wasUp = (before = Starting \<or> before = Running \<or> before = Unhealthy);
                      started'' = (if \<not> wasUp \<and> n \<notin> set started' then started' @ [n] else started')
                  in start_dependencies (Suc fuel) L now ns wm'' visiting' started'')))"

text \<open>
  \<open>StartDependencies\<close> with enough fuel. The case without an answer does not occur
  (\<open>start_dependencies_answers\<close>).
\<close>

definition StartDependencies ::
  "'w launcher \<Rightarrow> Instant \<Rightarrow> nat \<Rightarrow> 'w \<times> Manager \<Rightarrow> string list \<Rightarrow> string list
   \<Rightarrow> ('w \<times> Manager) \<times> string list \<times> string list" where
  "StartDependencies L now i wm visiting started =
     (case start_dependencies (Suc (length (mg_services (snd wm)))) L now
             (sc_dependsOn (sv_config (mg_services (snd wm) ! i))) wm visiting started of
        Some r \<Rightarrow> r
      | None \<Rightarrow> (wm, visiting, started))"

definition StartWithDependencies ::
  "'w launcher \<Rightarrow> Instant \<Rightarrow> nat \<Rightarrow> bool \<Rightarrow> string list \<Rightarrow> 'w \<times> Manager
   \<Rightarrow> (CommandResult \<times> string) \<times> string list \<times> 'w \<times> Manager" where
  "StartWithDependencies L now i restart started wm =
     (case StartDependencies L now i wm [Service_Name (mg_services (snd wm) ! i)] started of
        (wm', visiting, started') \<Rightarrow>
          (let ready = DependenciesRunning (snd wm') (mg_services (snd wm') ! i);
               (r, wm'') = at_service i (if restart then Service_Restart L now ready
                                         else Service_Start L now ready) wm'
           in (r, started', wm'')))"

definition start_one :: "'w launcher \<Rightarrow> Instant \<Rightarrow> nat \<Rightarrow> 'w \<times> Manager \<Rightarrow> 'w \<times> Manager" where
  "start_one L now i wm = snd (snd (StartWithDependencies L now i False [] wm))"

definition StartAutostart :: "'w launcher \<Rightarrow> Instant \<Rightarrow> 'w \<times> Manager \<Rightarrow> 'w \<times> Manager" where
  "StartAutostart L now wm =
     fold (\<lambda>i wm. let s = mg_services (snd wm) ! i
                   in if sc_autostart (sv_config s) \<and> sv_state s = Stopped then start_one L now i wm
                      else wm)
       [0..<length (mg_services (snd wm))] wm"

section \<open>Commands\<close>

definition ExecuteOne ::
  "'w launcher \<Rightarrow> CommandCode \<Rightarrow> Instant \<Rightarrow> nat \<Rightarrow> string list \<Rightarrow> 'w \<times> Manager
   \<Rightarrow> (CommandResult \<times> string) \<times> string list \<times> 'w \<times> Manager" where
  "ExecuteOne L code now i started wm =
     (case code of
        CC_Start \<Rightarrow> StartWithDependencies L now i False started wm
      | CC_Restart \<Rightarrow> StartWithDependencies L now i True started wm
      | CC_Stop \<Rightarrow> (case at_service i (Service_Stop L now) wm of (r, wm') \<Rightarrow> (r, started, wm'))
      | CC_Heartbeat \<Rightarrow>
          (case at_service i (\<lambda>ws. case Service_Heartbeat now (snd ws) of (r, s') \<Rightarrow> (r, fst ws, s')) wm
           of (r, wm') \<Rightarrow> (r, started, wm'))
      | CC_Reload \<Rightarrow> ((CR_UnknownCommand, ''unknown command''), started, wm))"

text \<open>The loop over every service: how many acted, how many failed, who was started.\<close>

definition execute_all_step ::
  "'w launcher \<Rightarrow> CommandCode \<Rightarrow> Instant \<Rightarrow> nat
   \<Rightarrow> int \<times> int \<times> string list \<times> 'w \<times> Manager \<Rightarrow> int \<times> int \<times> string list \<times> 'w \<times> Manager" where
  "execute_all_step L code now i st =
     (case st of (acted, failed, started, wm) \<Rightarrow>
        let s = mg_services (snd wm) ! i
        in if sv_removing s then (acted, failed, started, wm)
           else if Service_Name s \<in> set started then (acted + 1, failed, started, wm)
           else case ExecuteOne L code now i started wm of
             ((result, message), started', wm') \<Rightarrow>
               (acted + (if result = CR_Ok then 1 else 0),
                failed + (if IsSuccess result then 0 else 1), started', wm'))"

definition Execute ::
  "'w launcher \<Rightarrow> CommandMessage \<Rightarrow> Instant \<Rightarrow> 'w \<times> Manager \<Rightarrow> CommandReply \<times> 'w \<times> Manager" where
  "Execute L msg now wm =
     (let reply = (\<lambda>result text. \<lparr>cr_command = cm_command msg, cr_result = result,
                     cr_serviceName = cm_serviceName msg, cr_message = text\<rparr>)
      in case CommandCodeFromByte (cm_command msg) of
           None \<Rightarrow> (reply CR_UnknownCommand
                     (''unknown command '' @ to_string (uint (cm_command msg))), wm)
         | Some code \<Rightarrow>
             if code = CC_Reload
             then (reply CR_UnknownCommand
                     (''unknown command '' @ to_string (uint (cm_command msg))), wm)
             else if mg_shuttingDown (snd wm) \<and> code \<noteq> CC_Heartbeat
             then (reply CR_ShuttingDown ''the manager is shutting down'', wm)
             else if cm_serviceName msg = all_services then
               (if code = CC_Heartbeat
                then (reply CR_Malformed ''a heartbeat names one service'', wm)
                else case fold (execute_all_step L code now) [0..<length (mg_services (snd wm))]
                            (0, 0, [], wm) of
                  (acted, failed, started, wm') \<Rightarrow>
                    (reply (if failed > 0 then CR_LaunchFailed else CR_Ok)
                       (CommandName code @ '' sent to '' @ to_string acted @ '' services''
                          @ (if failed > 0 then '', '' @ to_string failed @ '' failed'' else [])), wm'))
             else
               (case FindMutable (snd wm) (cm_serviceName msg) of
                  None \<Rightarrow> (reply CR_UnknownService (''no service named '' @ cm_serviceName msg), wm)
                | Some i \<Rightarrow>
                    if sv_removing (mg_services (snd wm) ! i)
                    then (reply CR_UnknownService (''no service named '' @ cm_serviceName msg), wm)
                    else case ExecuteOne L code now i [] wm of
                      ((result, text), started, wm') \<Rightarrow> (reply result text, wm')))"

section \<open>Reload\<close>

text \<open>The first loop of \<open>Apply\<close>: add, replace or bring back each listed service.\<close>

definition apply_config ::
  "ServiceConfig \<Rightarrow> ReloadSummary \<times> string list \<times> Manager \<Rightarrow> ReloadSummary \<times> string list \<times> Manager" where
  "apply_config config st =
     (case st of (summary, added, m) \<Rightarrow>
        case FindMutable m (sc_name config) of
          None \<Rightarrow>
            (summary\<lparr>rs_added := rs_added summary + 1\<rparr>, added @ [sc_name config],
             m\<lparr>mg_services := mg_services m @ [new_Service config (mg_managerEnvironment m)]\<rparr>)
        | Some i \<Rightarrow>
            (let existing = mg_services m ! i;
                 readded = sv_removing existing;
                 changed = \<not> SameServiceConfig (sv_config existing) config;
                 existing = (if changed then Service_Replace config existing else existing);
                 existing = (if readded then SetRemoving False existing else existing);
                 m = m\<lparr>mg_services := (mg_services m)[i := existing]\<rparr>
             in if readded
                then (summary\<lparr>rs_added := rs_added summary + 1\<rparr>, added @ [sc_name config], m)
                else if changed then (summary\<lparr>rs_changed := rs_changed summary + 1\<rparr>, added, m)
                else (summary, added, m)))"

text \<open>The second loop: stop and mark what is no longer listed.\<close>

definition drop_unlisted ::
  "'w launcher \<Rightarrow> Instant \<Rightarrow> ServiceConfig list \<Rightarrow> nat
   \<Rightarrow> ReloadSummary \<times> 'w \<times> Manager \<Rightarrow> ReloadSummary \<times> 'w \<times> Manager" where
  "drop_unlisted L now configs i st =
     (case st of (summary, wm) \<Rightarrow>
        let s = mg_services (snd wm) ! i
        in if \<not> Listed configs (Service_Name s) \<and> \<not> sv_removing s
           then (summary\<lparr>rs_removed := rs_removed summary + 1\<rparr>,
                 snd (at_service i (Service_Stop L now)
                        (on_service i (\<lambda>ws. (fst ws, SetRemoving True (snd ws))) wm)))
           else (summary, wm))"

text \<open>The third loop: start what was added.\<close>

definition start_added :: "'w launcher \<Rightarrow> Instant \<Rightarrow> string \<Rightarrow> 'w \<times> Manager \<Rightarrow> 'w \<times> Manager" where
  "start_added L now n wm =
     (case FindMutable (snd wm) n of
        None \<Rightarrow> wm
      | Some i \<Rightarrow>
          if sc_autostart (sv_config (mg_services (snd wm) ! i)) \<and> \<not> mg_shuttingDown (snd wm)
          then start_one L now i wm else wm)"

definition Manager_Apply ::
  "'w launcher \<Rightarrow> ServiceConfig list \<Rightarrow> Instant \<Rightarrow> 'w \<times> Manager \<Rightarrow> ReloadSummary \<times> 'w \<times> Manager" where
  "Manager_Apply L configs now wm =
     (case fold apply_config configs (\<lparr>rs_added = 0, rs_removed = 0, rs_changed = 0\<rparr>, [], snd wm) of
        (summary, added, m) \<Rightarrow>
          (case fold (drop_unlisted L now configs) [0..<length (mg_services m)] (summary, fst wm, m) of
             (summary', wm') \<Rightarrow> (summary', fold (start_added L now) added wm')))"

section \<open>Ticks, samples and shutdown\<close>

definition tick_one :: "'w launcher \<Rightarrow> Instant \<Rightarrow> nat \<Rightarrow> 'w \<times> Manager \<Rightarrow> 'w \<times> Manager" where
  "tick_one L now i wm =
     on_service i (Service_Tick L now (\<not> mg_shuttingDown (snd wm))
                     (DependenciesRunning (snd wm) (mg_services (snd wm) ! i))) wm"

text \<open>The second loop of \<open>Tick\<close>: start or give up on a waiting service, or stop one in order.\<close>

definition settle_one :: "'w launcher \<Rightarrow> Instant \<Rightarrow> nat \<Rightarrow> 'w \<times> Manager \<Rightarrow> 'w \<times> Manager" where
  "settle_one L now i wm =
     (let m = snd wm; s = mg_services m ! i
      in if \<not> mg_shuttingDown m \<and> sv_state s = Waiting then
           (if DependenciesRunning m s then snd (at_service i (Service_Start L now True) wm)
            else case DependencyBlocked m s of
              Some reason \<Rightarrow> on_service i (\<lambda>ws. (fst ws, Service_Abandon reason (snd ws))) wm
            | None \<Rightarrow> wm)
         else if mg_shuttingDown m \<and> sv_state s \<noteq> Stopping \<and> sv_state s \<noteq> Stopped
                 \<and> DependentsStopped m s
         then snd (at_service i (Service_Stop L now) wm)
         else wm)"

text \<open>A service being removed goes once it has no process.\<close>

definition finished_removal :: "Service \<Rightarrow> bool" where
  "finished_removal s \<longleftrightarrow> sv_removing s \<and> \<not> IsAlive (sv_state s)"

definition remove_finished :: "Manager \<Rightarrow> Manager" where
  "remove_finished m =
     (if \<not> list_ex finished_removal (mg_services m) then m
      else m\<lparr>mg_removed := mg_removed m @ map (\<lambda>s. Service_Name s) (filter finished_removal (mg_services m)),
             mg_services := filter (\<lambda>s. \<not> finished_removal s) (mg_services m)\<rparr>)"

definition Manager_Tick :: "'w launcher \<Rightarrow> Instant \<Rightarrow> 'w \<times> Manager \<Rightarrow> 'w \<times> Manager" where
  "Manager_Tick L now wm =
     (let n = length (mg_services (snd wm));
          wm = fold (tick_one L now) [0..<n] wm;
          wm = fold (settle_one L now) [0..<n] wm
      in (fst wm, remove_finished (snd wm)))"

text \<open>GPU use of a service: listed at all, utilization known, percent and memory summed.\<close>

definition gpu_member ::
  "(int \<rightharpoonup> GpuProcessUsage) \<Rightarrow> int \<Rightarrow> bool \<times> bool \<times> double \<times> 64 word \<Rightarrow> bool \<times> bool \<times> double \<times> 64 word" where
  "gpu_member processes pid st =
     (case st of (listed, known, percent, memory) \<Rightarrow>
        case processes pid of
          None \<Rightarrow> (listed, known, percent, memory)
        | Some u \<Rightarrow>
            if fp_leq double_zero (gu_utilizationPercent u)
            then (True, True, fp_add percent (gu_utilizationPercent u), memory + gu_memoryBytes u)
            else (True, known, percent, memory + gu_memoryBytes u))"

definition sample_one ::
  "'w launcher \<Rightarrow> Instant \<Rightarrow> ProcessTable \<Rightarrow> GpuSnapshot \<Rightarrow> nat \<Rightarrow> 'w \<times> Manager \<Rightarrow> 'w \<times> Manager" where
  "sample_one L now table gpu i wm =
     (let wm = on_service i (Service_Sample L now table) wm;
          members = Service_MemberPids L table (fst wm) (mg_services (snd wm) ! i);
          set_gpu = (\<lambda>v p b. on_service i (\<lambda>ws. (fst ws, SetGpuUsage v p b (snd ws))) wm)
      in if \<not> gs_available gpu \<or> members = [] then set_gpu False double_minus_one 0
         else case fold (gpu_member (gs_processes gpu)) members (False, False, double_zero, 0) of
           (listed, known, percent, memory) \<Rightarrow>
             set_gpu True (if \<not> listed \<or> known then percent else double_minus_one) memory)"

definition Manager_Sample ::
  "'w launcher \<Rightarrow> Instant \<Rightarrow> ProcessTable \<Rightarrow> GpuSnapshot \<Rightarrow> 'w \<times> Manager \<Rightarrow> 'w \<times> Manager" where
  "Manager_Sample L now table gpu wm =
     fold (sample_one L now table gpu) [0..<length (mg_services (snd wm))] wm"

definition stop_one :: "'w launcher \<Rightarrow> Instant \<Rightarrow> nat \<Rightarrow> 'w \<times> Manager \<Rightarrow> 'w \<times> Manager" where
  "stop_one L now i wm =
     (let s = mg_services (snd wm) ! i
      in if sv_state s \<noteq> Stopping \<and> sv_state s \<noteq> Stopped \<and> DependentsStopped (snd wm) s
         then snd (at_service i (Service_Stop L now) wm) else wm)"

definition StopAll :: "'w launcher \<Rightarrow> Instant \<Rightarrow> 'w \<times> Manager \<Rightarrow> 'w \<times> Manager" where
  "StopAll L now wm =
     fold (stop_one L now) [0..<length (mg_services (snd wm))]
       (fst wm, (snd wm)\<lparr>mg_shuttingDown := True\<rparr>)"

definition KillAll :: "'w launcher \<Rightarrow> Instant \<Rightarrow> 'w \<times> Manager \<Rightarrow> 'w \<times> Manager" where
  "KillAll L now wm =
     fold (\<lambda>i. on_service i (Service_Kill L now)) [0..<length (mg_services (snd wm))]
       (fst wm, (snd wm)\<lparr>mg_shuttingDown := True\<rparr>)"

end
