(* ===== verification/Manager_Props.thy ===== *)
theory Manager_Props
  imports Service_Manager Service_Table
begin

text \<open>
  Every operation of the manager is a sequence of guarded calls on single services, with
  additions, removals and the shutdown flag in between (\<open>mstep\<close>). The invariants of the manager
  follow from the steps: each service keeps its own invariant, names stay distinct, every child
  object has exactly one owner, and a program is launched only while the manager is not shutting
  down and every dependency of the service is running.
\<close>

section \<open>Steps\<close>

abbreviation names :: "Manager \<Rightarrow> string list" where
  "names m \<equiv> map (\<lambda>s. Service_Name s) (mg_services m)"

text \<open>
  The guard of a call in normal operation, of one that leaves the configuration alone, and of one
  that respects the order of a shutdown.
\<close>

definition normal_call :: "Manager \<Rightarrow> nat \<Rightarrow> service_op \<Rightarrow> bool" where
  "normal_call m i op \<longleftrightarrow>
     (may_launch op \<longrightarrow> \<not> mg_shuttingDown m \<and> DependenciesRunning m (mg_services m ! i))
     \<and> (case op of Do_Replace c \<Rightarrow> sc_name c = Service_Name (mg_services m ! i) | _ \<Rightarrow> True)"

definition plain_call :: "Manager \<Rightarrow> nat \<Rightarrow> service_op \<Rightarrow> bool" where
  "plain_call m i op \<longleftrightarrow> normal_call m i op \<and> keeps_setup op"

definition orderly_call :: "Manager \<Rightarrow> nat \<Rightarrow> service_op \<Rightarrow> bool" where
  "orderly_call m i op \<longleftrightarrow> plain_call m i op
     \<and> (op = Do_Stop \<longrightarrow> DependentsStopped m (mg_services m ! i)) \<and> op \<noteq> Do_Kill"

text \<open>A start as the manager makes it: with the readiness of the dependencies at that moment.\<close>

definition start_call :: "Manager \<Rightarrow> nat \<Rightarrow> service_op \<Rightarrow> bool" where
  "start_call m i op \<longleftrightarrow> \<not> mg_shuttingDown m \<and> op = Do_Start (DependenciesRunning m (mg_services m ! i))"

inductive cstep ::
  "'w launcher \<Rightarrow> Instant \<Rightarrow> (Manager \<Rightarrow> nat \<Rightarrow> service_op \<Rightarrow> bool) \<Rightarrow> 'w \<times> Manager \<Rightarrow> 'w \<times> Manager \<Rightarrow> bool"
  for L now P where
  call: "i < length (mg_services (snd wm)) \<Longrightarrow> P (snd wm) i op \<Longrightarrow>
    cstep L now P wm (on_service i (perform L now op) wm)"

abbreviation csteps ::
  "'w launcher \<Rightarrow> Instant \<Rightarrow> (Manager \<Rightarrow> nat \<Rightarrow> service_op \<Rightarrow> bool) \<Rightarrow> 'w \<times> Manager \<Rightarrow> 'w \<times> Manager \<Rightarrow> bool"
  where "csteps L now P \<equiv> (cstep L now P)\<^sup>*\<^sup>*"

inductive mstep ::
  "'w launcher \<Rightarrow> Instant \<Rightarrow> (Manager \<Rightarrow> nat \<Rightarrow> service_op \<Rightarrow> bool) \<Rightarrow> 'w \<times> Manager \<Rightarrow> 'w \<times> Manager \<Rightarrow> bool"
  for L now P where
  call: "cstep L now P wm wm' \<Longrightarrow> mstep L now P wm wm'"
| add: "sc_name config \<notin> set (names m) \<Longrightarrow>
    mstep L now P (w, m)
      (w, m\<lparr>mg_services := mg_services m @ [new_Service config (mg_managerEnvironment m)]\<rparr>)"
| remove: "mstep L now P (w, m) (w, remove_finished m)"
| shut: "mstep L now P (w, m) (w, m\<lparr>mg_shuttingDown := True\<rparr>)"

abbreviation msteps ::
  "'w launcher \<Rightarrow> Instant \<Rightarrow> (Manager \<Rightarrow> nat \<Rightarrow> service_op \<Rightarrow> bool) \<Rightarrow> 'w \<times> Manager \<Rightarrow> 'w \<times> Manager \<Rightarrow> bool"
  where "msteps L now P \<equiv> (mstep L now P)\<^sup>*\<^sup>*"

inductive_cases cstepE: "cstep L now P wm wm'"

lemma csteps_msteps: "csteps L now P wm wm' \<Longrightarrow> msteps L now P wm wm'"
  by (induction rule: rtranclp_induct) (auto intro: mstep.call rtranclp.rtrancl_into_rtrancl)

lemma csteps_trans: "csteps L now P a b \<Longrightarrow> csteps L now P b c \<Longrightarrow> csteps L now P a c"
  by (rule rtranclp_trans)

lemma msteps_trans: "msteps L now P a b \<Longrightarrow> msteps L now P b c \<Longrightarrow> msteps L now P a c"
  by (rule rtranclp_trans)

lemma csteps_call:
  "i < length (mg_services (snd wm)) \<Longrightarrow> P (snd wm) i op \<Longrightarrow>
   csteps L now P wm (on_service i (perform L now op) wm)"
  by (blast intro: cstep.call)

text \<open>The shape of the manager: names, flag, environment, removed names.\<close>

definition shape :: "Manager \<Rightarrow> string list \<times> bool \<times> EnvironmentVariable list \<times> string list" where
  "shape m = (names m, mg_shuttingDown m, mg_managerEnvironment m, mg_removed m)"

lemma shape_length: "shape m' = shape m \<Longrightarrow> length (mg_services m') = length (mg_services m)"
  unfolding shape_def by (metis fst_conv length_map)

lemma shape_fields:
  "shape m' = shape m \<Longrightarrow> mg_shuttingDown m' = mg_shuttingDown m"
  "shape m' = shape m \<Longrightarrow> mg_managerEnvironment m' = mg_managerEnvironment m"
  "shape m' = shape m \<Longrightarrow> names m' = names m"
  by (simp_all add: shape_def)

lemma perform_name:
  assumes "P m i op" and "\<And>m i op. P m i op \<Longrightarrow> normal_call m i op"
  shows "Service_Name (snd (perform L now op (w, mg_services m ! i))) = Service_Name (mg_services m ! i)"
proof -
  have "normal_call m i op" using assms by blast
  then show ?thesis
    using setup_perform [of op "mg_services m ! i" L now w]
    by (cases op) (auto simp: normal_call_def same_setup_def Service_Replace_def SetRemoving_def)
qed

lemma on_service_shape:
  assumes "i < length (mg_services (snd wm))"
    and "Service_Name (snd (f (fst wm, mg_services (snd wm) ! i))) = Service_Name (mg_services (snd wm) ! i)"
  shows "shape (snd (on_service i f wm)) = shape (snd wm)"
proof -
  obtain w' s' where f: "f (fst wm, mg_services (snd wm) ! i) = (w', s')" by fastforce
  have "names (snd (on_service i f wm)) = names (snd wm)"
    using assms f by (simp add: on_service_def map_update list_update_same_conv)
  with f show ?thesis by (simp add: shape_def on_service_def)
qed

lemma cstep_shape: "cstep L now normal_call wm wm' \<Longrightarrow> shape (snd wm') = shape (snd wm)"
proof (elim cstepE)
  fix i op
  assume "wm' = on_service i (perform L now op) wm" "i < length (mg_services (snd wm))"
    "normal_call (snd wm) i op"
  then show ?thesis by (simp add: on_service_shape perform_name [where P = normal_call])
qed

lemma csteps_shape: "csteps L now normal_call wm wm' \<Longrightarrow> shape (snd wm') = shape (snd wm)"
  by (induction rule: rtranclp_induct) (simp_all add: cstep_shape)

lemma csteps_mono:
  assumes "csteps L now P wm wm'" and "\<And>m i op. P m i op \<Longrightarrow> Q m i op"
  shows "csteps L now Q wm wm'"
  using assms(1)
proof (induction rule: rtranclp_induct)
  case (step y z)
  from step(2) have "cstep L now Q y z" by (elim cstepE) (auto intro!: cstep.call assms(2))
  with step(3) show ?case by (rule rtranclp.rtrancl_into_rtrancl)
qed simp

lemma orderly_plain: "orderly_call m i op \<Longrightarrow> plain_call m i op"
  by (simp add: orderly_call_def)

lemma plain_normal: "plain_call m i op \<Longrightarrow> normal_call m i op"
  by (simp add: plain_call_def)

lemma orderly_normal: "orderly_call m i op \<Longrightarrow> normal_call m i op"
  by (rule plain_normal [OF orderly_plain])

lemma csteps_plain: "csteps L now plain_call wm wm' \<Longrightarrow> csteps L now normal_call wm wm'"
  by (erule csteps_mono) (rule plain_normal)

lemma start_plain: "start_call m i op \<Longrightarrow> plain_call m i op"
  by (auto simp: start_call_def plain_call_def normal_call_def)

lemma csteps_started: "csteps L now start_call wm wm' \<Longrightarrow> csteps L now plain_call wm wm'"
  by (erule csteps_mono) (rule start_plain)

lemma plain_shape: "csteps L now plain_call wm wm' \<Longrightarrow> shape (snd wm') = shape (snd wm)"
  by (rule csteps_shape [OF csteps_plain])

text \<open>Such calls keep every configuration and every removal mark.\<close>

definition setups :: "Manager \<Rightarrow> (ServiceConfig \<times> bool) list" where
  "setups m = map (\<lambda>s. (sv_config s, sv_removing s)) (mg_services m)"

lemma plain_setups: "csteps L now plain_call wm wm' \<Longrightarrow> setups (snd wm') = setups (snd wm)"
proof (induction rule: rtranclp_induct)
  case (step y z)
  from step(2) obtain i op where z: "z = on_service i (perform L now op) y"
    and i: "i < length (mg_services (snd y))" and k: "keeps_setup op"
    by (auto elim!: cstepE simp: plain_call_def)
  obtain w' s' where p: "perform L now op (fst y, mg_services (snd y) ! i) = (w', s')" by fastforce
  with setup_perform [OF k, of "mg_services (snd y) ! i" L now "fst y"]
  have "(sv_config s', sv_removing s')
      = (sv_config (mg_services (snd y) ! i), sv_removing (mg_services (snd y) ! i))"
    by (simp add: same_setup_def)
  then have "setups (snd z) = setups (snd y)"
    using i p by (simp add: z on_service_def setups_def map_update list_update_same_conv)
  with step(3) show ?case by simp
qed simp

lemma csteps_orderly: "csteps L now orderly_call wm wm' \<Longrightarrow> csteps L now normal_call wm wm'"
  by (erule csteps_mono) (rule orderly_normal)

lemma at_service_on: "snd (at_service i f wm) = on_service i (\<lambda>ws. snd (f ws)) wm"
  by (auto simp: at_service_def on_service_def split: prod.splits)

text \<open>A loop over the services whose body makes guarded calls makes guarded calls.\<close>

lemma fold_csteps:
  assumes plain: "\<And>m i op. P m i op \<Longrightarrow> plain_call m i op"
    and body: "\<And>i wm. i < n \<Longrightarrow> shape (snd wm) = sh \<Longrightarrow> csteps L now P wm (f i wm)"
    and "set ks \<subseteq> {..<n}" and "shape (snd wm) = sh"
  shows "csteps L now P wm (fold f ks wm)"
  using assms(3,4)
proof (induction ks arbitrary: wm)
  case (Cons i ks)
  then have step: "csteps L now P wm (f i wm)" by (intro body) auto
  have "csteps L now plain_call wm (f i wm)" by (rule csteps_mono [OF step plain])
  with Cons.prems have "csteps L now P (f i wm) (fold f ks (f i wm))"
    by (intro Cons.IH) (auto dest: plain_shape)
  with step show ?case by simp
qed simp

section \<open>Starting with dependencies\<close>

lemma index_of_Some: "index_of ss n = Some i \<Longrightarrow> i < length ss \<and> Service_Name (ss ! i) = n"
  by (induction ss arbitrary: i) (auto split: if_splits)

lemma index_of_None: "index_of ss n = None \<longleftrightarrow> n \<notin> (\<lambda>s. Service_Name s) ` set ss"
  by (induction ss) auto

lemma FindMutable_Some:
  "FindMutable m n = Some i \<Longrightarrow> i < length (mg_services m) \<and> Service_Name (mg_services m ! i) = n"
  unfolding FindMutable_def by (rule index_of_Some)

lemma FindMutable_names: "FindMutable m n = None \<longleftrightarrow> n \<notin> set (names m)"
  by (simp add: FindMutable_def index_of_None)

lemma at_Start: "snd (at_service i (Service_Start L now ready) wm)
    = on_service i (perform L now (Do_Start ready)) wm"
  by (simp add: at_service_on on_service_def)

lemma at_Stop: "snd (at_service i (Service_Stop L now) wm) = on_service i (perform L now Do_Stop) wm"
  by (simp add: at_service_on on_service_def)

lemma at_Restart: "snd (at_service i (Service_Restart L now ready) wm)
    = on_service i (perform L now (Do_Restart ready)) wm"
  by (simp add: at_service_on on_service_def)

lemmas at_operations = at_Start at_Stop at_Restart

lemma csteps_Start:
  assumes "i < length (mg_services (snd wm))" and "\<not> mg_shuttingDown (snd wm)"
  shows "csteps L now start_call wm
    (on_service i (perform L now (Do_Start (DependenciesRunning (snd wm) (mg_services (snd wm) ! i)))) wm)"
  using assms by (intro csteps_call) (auto simp: start_call_def)

lemma csteps_Restart:
  assumes "i < length (mg_services (snd wm))" and "\<not> mg_shuttingDown (snd wm)"
  shows "csteps L now plain_call wm
    (on_service i (perform L now (Do_Restart (DependenciesRunning (snd wm) (mg_services (snd wm) ! i)))) wm)"
  using assms by (intro csteps_call) (auto simp: plain_call_def normal_call_def)

lemma csteps_Stop:
  "i < length (mg_services (snd wm)) \<Longrightarrow>
   csteps L now plain_call wm (on_service i (perform L now Do_Stop) wm)"
  by (intro csteps_call) (auto simp: plain_call_def normal_call_def)

text \<open>The services not visited yet bound the depth of the recursion.\<close>

definition unvisited_names :: "Manager \<Rightarrow> string list \<Rightarrow> nat" where
  "unvisited_names m visiting = card (set (names m) - set visiting)"

lemma unvisited_names_visit:
  assumes "n \<in> set (names m)" and "n \<notin> set visiting"
  shows "unvisited_names m (visiting @ [n]) < unvisited_names m visiting"
  unfolding unvisited_names_def by (intro psubset_card_mono) (use assms in auto)

lemma unvisited_names_mono:
  "names m' = names m \<Longrightarrow> set visiting \<subseteq> set visiting' \<Longrightarrow>
   unvisited_names m' visiting' \<le> unvisited_names m visiting"
  unfolding unvisited_names_def by (intro card_mono) (auto simp: )

lemma start_dependencies_spec:
  "\<not> mg_shuttingDown (snd wm) \<Longrightarrow> unvisited_names (snd wm) visiting < fuel \<Longrightarrow>
   \<exists>wm' visiting' started'.
     start_dependencies fuel L now ns wm visiting started = Some (wm', visiting', started')
     \<and> csteps L now start_call wm wm' \<and> set visiting \<subseteq> set visiting'"
proof (induction fuel L now ns wm visiting started rule: start_dependencies.induct)
  case (3 fuel L now n ns wm visiting started)
  show ?case
  proof (cases "FindMutable (snd wm) n")
    case None
    with 3 show ?thesis by simp
  next
    case (Some i)
    note i = FindMutable_Some [OF Some]
    show ?thesis
    proof (cases "n \<in> set visiting")
      case True
      with 3 Some show ?thesis by simp
    next
      case False
      have "n \<in> set (names (snd wm))" using i by auto
      from unvisited_names_visit [OF this False] "3.prems"(2)
      have "unvisited_names (snd wm) (visiting @ [n]) < fuel" by simp
      from "3.IH"(3) [OF Some False "3.prems"(1) this] obtain wm1 v1 st1 where
        rec: "start_dependencies fuel L now (sc_dependsOn (sv_config (mg_services (snd wm) ! i))) wm
            (visiting @ [n]) started = Some (wm1, v1, st1)"
        and steps1: "csteps L now start_call wm wm1" and v1: "set (visiting @ [n]) \<subseteq> set v1"
        by blast
      have sh1: "shape (snd wm1) = shape (snd wm)" by (rule plain_shape [OF csteps_started [OF steps1]])
      define s where "s = mg_services (snd wm1) ! i"
      define wm2 where "wm2 = on_service i (perform L now (Do_Start (DependenciesRunning (snd wm1) s))) wm1"
      define st2 where "st2 = (if \<not> (sv_state s = Starting \<or> sv_state s = Running \<or> sv_state s = Unhealthy)
          \<and> n \<notin> set st1 then st1 @ [n] else st1)"
      have steps2: "csteps L now start_call wm1 wm2"
        unfolding wm2_def s_def using i sh1 "3.prems"(1)
        by (intro csteps_Start) (simp_all add: shape_length [OF sh1] shape_fields [OF sh1])
      have sh2: "shape (snd wm2) = shape (snd wm)" using plain_shape [OF csteps_started [OF steps2]] sh1 by simp
      have eq: "start_dependencies (Suc fuel) L now (n # ns) wm visiting started
          = start_dependencies (Suc fuel) L now ns wm2 v1 st2"
        using Some False rec by (simp add: Let_def at_Start s_def wm2_def st2_def)
      have "unvisited_names (snd wm2) v1 < Suc fuel"
        using unvisited_names_mono [OF shape_fields(3) [OF sh2], of visiting v1] v1 "3.prems"(2) by auto
      moreover have "\<not> mg_shuttingDown (snd wm2)" using shape_fields(1) [OF sh2] "3.prems"(1) by simp
      ultimately have "\<exists>wm' visiting' started'.
          start_dependencies (Suc fuel) L now ns wm2 v1 st2 = Some (wm', visiting', started')
          \<and> csteps L now start_call wm2 wm' \<and> set v1 \<subseteq> set visiting'"
        using "3.IH"(4) [OF Some False rec refl refl s_def refl _ refl st2_def] wm2_def
        by (simp add: at_Start s_def)
      with eq v1 csteps_trans [OF steps1 csteps_trans [OF steps2]] show ?thesis by fastforce
    qed
  qed
qed auto

lemma unvisited_names_bound: "unvisited_names m visiting \<le> length (mg_services m)"
proof -
  have "unvisited_names m visiting \<le> card (set (names m))"
    unfolding unvisited_names_def by (intro card_mono) auto
  also have "\<dots> \<le> length (names m)" by (rule card_length)
  finally show ?thesis by simp
qed

lemma start_dependencies_answers:
  assumes "\<not> mg_shuttingDown (snd wm)"
  shows "\<exists>r. start_dependencies (Suc (length (mg_services (snd wm)))) L now ns wm visiting started = Some r"
  using start_dependencies_spec [OF assms, of visiting "Suc (length (mg_services (snd wm)))" L now ns started]
    unvisited_names_bound [of "snd wm" visiting] by auto

lemma StartDependencies_starts:
  assumes "\<not> mg_shuttingDown (snd wm)" and "StartDependencies L now i wm visiting started = (wm', v', st')"
  shows "csteps L now start_call wm wm'"
proof -
  have "unvisited_names (snd wm) visiting < Suc (length (mg_services (snd wm)))"
    using unvisited_names_bound [of "snd wm" visiting] by simp
  from start_dependencies_spec [OF assms(1) this, of L now
      "sc_dependsOn (sv_config (mg_services (snd wm) ! i))" started] assms(2)
  show ?thesis by (auto simp: StartDependencies_def)
qed

lemma StartWithDependencies_split:
  assumes "\<not> mg_shuttingDown (snd wm)" and "i < length (mg_services (snd wm))"
    and "StartWithDependencies L now i restart started wm = (r, started', wm')"
  shows "\<exists>wm1. csteps L now start_call wm wm1 \<and> shape (snd wm1) = shape (snd wm)
    \<and> wm' = on_service i (perform L now
        ((if restart then Do_Restart else Do_Start) (DependenciesRunning (snd wm1) (mg_services (snd wm1) ! i)))) wm1"
proof -
  obtain wm1 v1 st1 where sd: "StartDependencies L now i wm [Service_Name (mg_services (snd wm) ! i)] started
      = (wm1, v1, st1)" by (metis prod_cases3)
  have s1: "csteps L now start_call wm wm1" by (rule StartDependencies_starts [OF assms(1) sd])
  let ?ready = "DependenciesRunning (snd wm1) (mg_services (snd wm1) ! i)"
  have "wm' = snd (at_service i (if restart then Service_Restart L now ?ready
      else Service_Start L now ?ready) wm1)"
    using assms(3) sd by (auto simp: StartWithDependencies_def Let_def split: prod.splits)
  then have "wm' = on_service i (perform L now ((if restart then Do_Restart else Do_Start) ?ready)) wm1"
    by (cases restart) (simp_all add: at_operations)
  with s1 plain_shape [OF csteps_started [OF s1]] show ?thesis by blast
qed

lemma StartWithDependencies_steps:
  assumes "\<not> mg_shuttingDown (snd wm)" and "i < length (mg_services (snd wm))"
    and "StartWithDependencies L now i restart started wm = (r, started', wm')"
  shows "csteps L now plain_call wm wm'"
proof -
  from StartWithDependencies_split [OF assms] obtain wm1 where s1: "csteps L now start_call wm wm1"
    and sh: "shape (snd wm1) = shape (snd wm)"
    and wm': "wm' = on_service i (perform L now
        ((if restart then Do_Restart else Do_Start) (DependenciesRunning (snd wm1) (mg_services (snd wm1) ! i)))) wm1"
    by blast
  have i: "i < length (mg_services (snd wm1))" "\<not> mg_shuttingDown (snd wm1)"
    using assms by (simp_all add: shape_length [OF sh] shape_fields [OF sh])
  have "csteps L now plain_call wm1 wm'"
    using csteps_started [OF csteps_Start [OF i, of L now]] csteps_Restart [OF i, of L now] wm'
    by (cases restart) simp_all
  with csteps_started [OF s1] show ?thesis by (rule csteps_trans)
qed

lemma start_one_starts:
  assumes "\<not> mg_shuttingDown (snd wm)" and "i < length (mg_services (snd wm))"
  shows "csteps L now start_call wm (start_one L now i wm)"
proof -
  obtain r st and wm' :: "'a \<times> Manager" where run: "StartWithDependencies L now i False [] wm = (r, st, wm')"
    by (rule prod_cases3)
  from StartWithDependencies_split [OF assms run] obtain wm1 where s1: "csteps L now start_call wm wm1"
    and sh: "shape (snd wm1) = shape (snd wm)"
    and wm': "wm' = on_service i (perform L now (Do_Start (DependenciesRunning (snd wm1) (mg_services (snd wm1) ! i)))) wm1"
    by auto
  have "csteps L now start_call wm1 wm'"
    unfolding wm' using assms by (intro csteps_Start) (simp_all add: shape_length [OF sh] shape_fields [OF sh])
  with s1 run show ?thesis by (simp add: start_one_def)
qed

lemma StartAutostart_starts:
  fixes wm :: "'w \<times> Manager"
  assumes "\<not> mg_shuttingDown (snd wm)"
  shows "csteps L now start_call wm (StartAutostart L now wm)"
  unfolding StartAutostart_def Let_def
proof (rule fold_csteps [OF start_plain, where n = "length (mg_services (snd wm))" and sh = "shape (snd wm)"])
  fix i and wm' :: "'w \<times> Manager"
  assume "i < length (mg_services (snd wm))" and sh: "shape (snd wm') = shape (snd wm)"
  then have "csteps L now start_call wm' (start_one L now i wm')"
    using assms by (intro start_one_starts) (simp_all add: shape_length [OF sh] shape_fields [OF sh])
  then show "csteps L now start_call wm'
      (if sc_autostart (sv_config (mg_services (snd wm') ! i)) \<and> sv_state (mg_services (snd wm') ! i) = Stopped
       then start_one L now i wm' else wm')" by simp
qed auto

lemmas StartAutostart_steps = csteps_started [OF StartAutostart_starts]

section \<open>Commands\<close>

lemma at_Heartbeat:
  "snd (at_service i (\<lambda>ws. case Service_Heartbeat now (snd ws) of (r, s') \<Rightarrow> (r, fst ws, s')) wm)
   = on_service i (perform L now Do_Heartbeat) wm"
  by (simp add: at_service_on on_service_def case_prod_beta)

lemma ExecuteOne_steps:
  assumes "\<not> mg_shuttingDown (snd wm) \<or> code = CC_Heartbeat" and "i < length (mg_services (snd wm))"
    and "ExecuteOne L code now i started wm = (r, started', wm')"
  shows "csteps L now plain_call wm wm'"
proof (cases code)
  case CC_Stop
  then have "wm' = snd (at_service i (Service_Stop L now) wm)"
    using assms(3) by (auto simp: ExecuteOne_def split: prod.splits)
  then show ?thesis using csteps_Stop [OF assms(2)] by (simp add: at_operations)
next
  case CC_Heartbeat
  then have "wm' = snd (at_service i (\<lambda>ws. case Service_Heartbeat now (snd ws) of (r, s') \<Rightarrow> (r, fst ws, s')) wm)"
    using assms(3) by (auto simp: ExecuteOne_def split: prod.splits)
  then have "wm' = on_service i (perform L now Do_Heartbeat) wm" by (simp only: at_Heartbeat)
  then show ?thesis using assms(2) by (auto intro!: csteps_call simp: plain_call_def normal_call_def)
qed (use assms in \<open>auto simp: ExecuteOne_def intro: StartWithDependencies_steps\<close>)

lemma execute_all_steps:
  assumes "\<not> mg_shuttingDown (snd wm)" and "set ks \<subseteq> {..<length (mg_services (snd wm))}"
    and "fold (execute_all_step L code now) ks (acted, failed, started, wm) = (acted', failed', started', wm')"
  shows "csteps L now plain_call wm wm'"
  using assms
proof (induction ks arbitrary: acted failed started wm)
  case (Cons i ks)
  obtain a f st wm1 where step: "execute_all_step L code now i (acted, failed, started, wm) = (a, f, st, wm1)"
    by (metis prod_cases4)
  have s1: "csteps L now plain_call wm wm1"
    using step Cons.prems(1,2) ExecuteOne_steps [of wm code i L now started]
    by (auto simp: execute_all_step_def Let_def split: prod.splits if_splits)
  have sh: "shape (snd wm1) = shape (snd wm)" by (rule plain_shape [OF s1])
  have "csteps L now plain_call wm1 wm'"
    using Cons.prems step
    by (intro Cons.IH [of wm1 a f st]) (simp_all add: shape_length [OF sh] shape_fields [OF sh])
  with s1 show ?case by (rule csteps_trans)
qed simp

lemma Execute_steps:
  assumes "Execute L msg now wm = (reply, wm')"
  shows "csteps L now plain_call wm wm'"
proof (cases "CommandCodeFromByte (cm_command msg)")
  case None
  with assms show ?thesis by (simp add: Execute_def Let_def)
next
  case (Some code)
  show ?thesis
  proof (cases "code = CC_Reload \<or> (mg_shuttingDown (snd wm) \<and> code \<noteq> CC_Heartbeat)")
    case True
    with assms Some show ?thesis by (auto simp: Execute_def Let_def split: if_splits)
  next
    case go: False
    show ?thesis
    proof (cases "cm_serviceName msg = all_services")
      case True
      obtain a f st wm1 where all: "fold (execute_all_step L code now) [0..<length (mg_services (snd wm))]
          (0, 0, [], wm) = (a, f, st, wm1)" by (metis prod_cases4)
      from assms Some go True all have "code = CC_Heartbeat \<and> wm' = wm \<or> code \<noteq> CC_Heartbeat \<and> wm' = wm1"
        by (auto simp: Execute_def Let_def split: if_splits)
      moreover have "set [0..<length (mg_services (snd wm))] \<subseteq> {..<length (mg_services (snd wm))}" by auto
      ultimately show ?thesis using go execute_all_steps [OF _ _ all] by blast
    next
      case one: False
      show ?thesis
      proof (cases "FindMutable (snd wm) (cm_serviceName msg)")
        case None
        with assms Some go one show ?thesis by (auto simp: Execute_def Let_def split: if_splits)
      next
        case i: (Some i)
        obtain r st wm1 where ex: "ExecuteOne L code now i [] wm = (r, st, wm1)" by (metis prod_cases3)
        have "csteps L now plain_call wm wm1"
          using go FindMutable_Some [OF i] by (intro ExecuteOne_steps [OF _ _ ex]) auto
        moreover have "wm' = wm \<or> wm' = wm1"
          using assms Some go one i ex
          by (auto simp: Execute_def Let_def split: if_splits prod.splits)
        ultimately show ?thesis by auto
      qed
    qed
  qed
qed

section \<open>Ticks, samples and shutdown\<close>

lemma tick_one_perform:
  "tick_one L now i wm = on_service i (perform L now (Do_Tick (\<not> mg_shuttingDown (snd wm))
     (DependenciesRunning (snd wm) (mg_services (snd wm) ! i)))) wm"
  by (simp add: tick_one_def on_service_def)

lemma tick_one_steps:
  "i < length (mg_services (snd wm)) \<Longrightarrow> csteps L now orderly_call wm (tick_one L now i wm)"
  unfolding tick_one_perform by (intro csteps_call) (auto simp: orderly_call_def plain_call_def normal_call_def)

lemma on_Abandon: "on_service i (\<lambda>ws. (fst ws, Service_Abandon reason (snd ws))) wm
    = on_service i (perform L now (Do_Abandon reason)) wm"
  by (simp add: on_service_def)

lemma settle_one_steps:
  assumes "i < length (mg_services (snd wm))"
  shows "csteps L now orderly_call wm (settle_one L now i wm)"
proof -
  have call: "csteps L now orderly_call wm (on_service i (perform L now op) wm)"
    if "orderly_call (snd wm) i op" for op
    using assms that by (rule csteps_call)
  show ?thesis
    unfolding settle_one_def Let_def at_operations on_Abandon [of i _ wm L now]
    by (auto simp: orderly_call_def plain_call_def normal_call_def intro!: call split: option.splits)
qed

lemma stop_one_steps:
  assumes "i < length (mg_services (snd wm))"
  shows "csteps L now orderly_call wm (stop_one L now i wm)"
  unfolding stop_one_def Let_def at_operations using assms
  by (auto simp: orderly_call_def plain_call_def normal_call_def intro!: csteps_call)

lemma fold_orderly:
  assumes body: "\<And>i wm. i < length (mg_services (snd wm)) \<Longrightarrow> csteps L now orderly_call wm (f i wm)"
  shows "set ks \<subseteq> {..<length (mg_services (snd wm))} \<Longrightarrow> csteps L now orderly_call wm (fold f ks wm)"
proof (induction ks arbitrary: wm)
  case (Cons i ks)
  then have s: "csteps L now orderly_call wm (f i wm)" by (intro body) simp
  have "length (mg_services (snd (f i wm))) = length (mg_services (snd wm))"
    using csteps_shape [OF csteps_orderly [OF s]] by (rule shape_length)
  with Cons have "csteps L now orderly_call (f i wm) (fold f ks (f i wm))" by (intro Cons.IH) simp
  from csteps_trans [OF s this] show ?case by simp
qed simp

lemma Manager_Tick_steps: "msteps L now orderly_call wm (Manager_Tick L now wm)"
proof -
  let ?ks = "[0..<length (mg_services (snd wm))]"
  let ?a = "fold (tick_one L now) ?ks wm" and ?b = "fold (settle_one L now) ?ks (fold (tick_one L now) ?ks wm)"
  have a: "csteps L now orderly_call wm ?a" by (intro fold_orderly tick_one_steps) auto
  have len: "length (mg_services (snd ?a)) = length (mg_services (snd wm))"
    using csteps_shape [OF csteps_orderly [OF a]] by (rule shape_length)
  have "csteps L now orderly_call ?a ?b" by (intro fold_orderly settle_one_steps) (auto simp: len)
  from csteps_msteps [OF csteps_trans [OF a this]] have "msteps L now orderly_call wm ?b" .
  moreover have "mstep L now orderly_call ?b (fst ?b, remove_finished (snd ?b))"
    using mstep.remove [of L now orderly_call "fst ?b" "snd ?b"] by simp
  ultimately show ?thesis by (simp add: Manager_Tick_def Let_def)
qed

abbreviation flagged :: "'w \<times> Manager \<Rightarrow> 'w \<times> Manager" where
  "flagged wm \<equiv> (fst wm, (snd wm)\<lparr>mg_shuttingDown := True\<rparr>)"

lemma mstep_flagged: "mstep L now P wm (flagged wm)"
  using mstep.shut [of L now P "fst wm" "snd wm"] by simp

lemma StopAll_loop: "csteps L now orderly_call (flagged wm) (StopAll L now wm)"
  unfolding StopAll_def by (intro fold_orderly stop_one_steps) auto

lemma StopAll_steps: "msteps L now orderly_call wm (StopAll L now wm)"
  using converse_rtranclp_into_rtranclp [OF mstep_flagged csteps_msteps [OF StopAll_loop]] .

lemma KillAll_loop: "csteps L now plain_call (flagged wm) (KillAll L now wm)"
proof -
  have kill: "on_service i (Service_Kill L now) v = on_service i (perform L now Do_Kill) v" for i v
    by (simp add: on_service_def)
  show ?thesis
    unfolding KillAll_def kill
    by (rule fold_csteps [OF _, where n = "length (mg_services (snd wm))" and sh = "shape (snd (flagged wm))"])
      (auto intro!: csteps_call simp: plain_call_def normal_call_def dest!: shape_length)
qed

lemma KillAll_steps: "msteps L now normal_call wm (KillAll L now wm)"
  using converse_rtranclp_into_rtranclp [OF mstep_flagged csteps_msteps [OF csteps_plain [OF KillAll_loop]]] .

lemma sample_one_steps:
  assumes "i < length (mg_services (snd wm))"
  shows "csteps L now plain_call wm (sample_one L now table gpu i wm)"
proof -
  let ?wm = "on_service i (perform L now (Do_Sample table)) wm"
  have eq: "on_service i (Service_Sample L now table) wm = ?wm" by (simp add: on_service_def)
  have s: "csteps L now plain_call wm ?wm" using assms by (auto intro!: csteps_call simp: plain_call_def normal_call_def)
  have len: "i < length (mg_services (snd ?wm))"
    using assms shape_length [OF plain_shape [OF s]] by simp
  have "csteps L now plain_call wm (on_service i (\<lambda>ws. (fst ws, SetGpuUsage v p b (snd ws))) ?wm)" for v p b
  proof -
    have "on_service i (\<lambda>ws. (fst ws, SetGpuUsage v p b (snd ws))) ?wm
        = on_service i (perform L now (Do_SetGpuUsage v p b)) ?wm" by (simp add: on_service_def)
    then show ?thesis
      using len by (auto intro!: csteps_trans [OF s] csteps_call simp: plain_call_def normal_call_def)
  qed
  then show ?thesis by (auto simp: sample_one_def Let_def eq split: prod.splits)
qed

lemma Manager_Sample_steps: "csteps L now plain_call wm (Manager_Sample L now table gpu wm)"
  unfolding Manager_Sample_def
  by (rule fold_csteps [OF _, where n = "length (mg_services (snd wm))" and sh = "shape (snd wm)"])
    (auto intro!: sample_one_steps dest!: shape_length)

section \<open>Reload\<close>

lemma on_service_pure:
  "on_service i (\<lambda>ws. (fst ws, f (snd ws))) (w, m)
    = (w, m\<lparr>mg_services := (mg_services m)[i := f (mg_services m ! i)]\<rparr>)"
  by (simp add: on_service_def)

lemma perform_pure:
  "perform L now (Do_Replace c) = (\<lambda>ws. (fst ws, Service_Replace c (snd ws)))"
  "perform L now (Do_SetRemoving b) = (\<lambda>ws. (fst ws, SetRemoving b (snd ws)))"
  by (auto intro!: ext)

lemma replace_step:
  assumes "i < length (mg_services m)" and "sc_name c = Service_Name (mg_services m ! i)"
  shows "csteps L now normal_call (w, m)
    (w, m\<lparr>mg_services := (mg_services m)[i := Service_Replace c (mg_services m ! i)]\<rparr>)"
  using csteps_call [of i "(w, m)" normal_call "Do_Replace c" L now] assms
  by (simp add: perform_pure on_service_pure normal_call_def)

lemma set_removing_step:
  assumes "i < length (mg_services m)"
  shows "csteps L now normal_call (w, m)
    (w, m\<lparr>mg_services := (mg_services m)[i := SetRemoving b (mg_services m ! i)]\<rparr>)"
  using csteps_call [of i "(w, m)" normal_call "Do_SetRemoving b" L now] assms
  by (simp add: perform_pure on_service_pure normal_call_def)

lemma same_update:
  "m\<lparr>mg_services := (mg_services m)[i := mg_services m ! i]\<rparr> = m"
  by simp

lemma apply_config_steps:
  assumes "apply_config c (summary, added, m) = (summary', added', m')"
  shows "msteps L now normal_call (w, m) (w, m') \<and> mg_shuttingDown m' = mg_shuttingDown m"
proof (cases "FindMutable m (sc_name c)")
  case None
  then have "sc_name c \<notin> set (names m)" by (simp add: FindMutable_names)
  from mstep.add [OF this, of L now normal_call w] None assms show ?thesis
    by (auto simp: apply_config_def)
next
  case (Some i)
  note i = FindMutable_Some [OF Some]
  define s where "s = mg_services m ! i"
  define s1 where "s1 = (if \<not> SameServiceConfig (sv_config s) c then Service_Replace c s else s)"
  define s2 where "s2 = (if sv_removing s then SetRemoving False s1 else s1)"
  let ?m1 = "m\<lparr>mg_services := (mg_services m)[i := s1]\<rparr>"
  have m': "m' = m\<lparr>mg_services := (mg_services m)[i := s2]\<rparr>"
    using assms Some by (auto simp: apply_config_def Let_def s_def s1_def s2_def split: if_splits)
  have st1: "csteps L now normal_call (w, m) (w, ?m1)"
  proof (cases "SameServiceConfig (sv_config s) c")
    case True
    then have "?m1 = m" by (simp add: s1_def s_def)
    then show ?thesis by simp
  next
    case False
    with replace_step [of i m c L now w] i show ?thesis by (simp add: s1_def s_def)
  qed
  have st2: "csteps L now normal_call (w, ?m1) (w, m')"
  proof (cases "sv_removing s")
    case True
    with set_removing_step [of i ?m1 L now w False] i show ?thesis by (simp add: m' s2_def)
  next
    case False
    then have "m' = ?m1" by (simp add: m' s2_def)
    then show ?thesis by simp
  qed
  from csteps_msteps [OF csteps_trans [OF st1 st2]] m' show ?thesis by simp
qed

lemma apply_configs_steps:
  assumes "fold apply_config configs (summary, added, m) = (summary', added', m')"
  shows "msteps L now normal_call (w, m) (w, m') \<and> mg_shuttingDown m' = mg_shuttingDown m"
  using assms
proof (induction configs arbitrary: summary added m)
  case (Cons c configs)
  obtain s1 a1 m1 where step: "apply_config c (summary, added, m) = (s1, a1, m1)" by (metis prod_cases3)
  with Cons.prems have "fold apply_config configs (s1, a1, m1) = (summary', added', m')" by simp
  from Cons.IH [OF this] apply_config_steps [OF step, of L now w]
  show ?case using msteps_trans by fastforce
qed simp

lemma drop_unlisted_steps:
  fixes wm :: "'w \<times> Manager"
  assumes "set ks \<subseteq> {..<length (mg_services (snd wm))}"
    and "fold (drop_unlisted L now configs) ks (summary, wm) = (summary', wm')"
  shows "csteps L now normal_call wm wm'"
  using assms
proof (induction ks arbitrary: summary wm)
  case (Cons i ks)
  let ?wm1 = "on_service i (perform L now (Do_SetRemoving True)) wm"
  have i: "i < length (mg_services (snd wm))" using Cons.prems by simp
  obtain s1 and wm1 :: "'w \<times> Manager" where step: "drop_unlisted L now configs i (summary, wm) = (s1, wm1)"
    by (rule prod.exhaust)
  have r1: "csteps L now normal_call wm ?wm1"
    using i by (intro csteps_call) (simp_all add: normal_call_def)
  have i1: "i < length (mg_services (snd ?wm1))" using i shape_length [OF csteps_shape [OF r1]] by simp
  from csteps_trans [OF r1 csteps_plain [OF csteps_Stop [OF i1]]]
  have "csteps L now normal_call wm (on_service i (perform L now Do_Stop) ?wm1)" .
  then have s: "csteps L now normal_call wm wm1"
    using step by (auto simp: drop_unlisted_def Let_def at_operations perform_pure split: if_splits)
  have "csteps L now normal_call wm1 wm'"
    using Cons.prems step shape_length [OF csteps_shape [OF s]]
    by (intro Cons.IH [of wm1 s1]) simp_all
  with s show ?case by (rule csteps_trans)
qed simp

lemma start_added_starts:
  fixes wm :: "'w \<times> Manager"
  shows "csteps L now start_call wm (fold (start_added L now) ns wm)"
proof (induction ns arbitrary: wm)
  case (Cons n ns)
  have "csteps L now start_call wm (start_added L now n wm)"
    by (auto simp: start_added_def intro!: start_one_starts split: option.splits dest: FindMutable_Some)
  from csteps_trans [OF this Cons.IH] show ?case by simp
qed simp

lemmas start_added_steps = csteps_started [OF start_added_starts]

lemma Manager_Apply_steps:
  fixes wm :: "'w \<times> Manager"
  assumes "Manager_Apply L configs now wm = (summary, wm')"
  shows "msteps L now normal_call wm wm'"
proof -
  obtain s1 added m1 where one: "fold apply_config configs
      (\<lparr>rs_added = 0, rs_removed = 0, rs_changed = 0\<rparr>, [], snd wm) = (s1, added, m1)"
    by (metis prod_cases3)
  obtain s2 and wm2 :: "'w \<times> Manager" where two:
    "fold (drop_unlisted L now configs) [0..<length (mg_services m1)] (s1, fst wm, m1) = (s2, wm2)"
    by (rule prod.exhaust)
  have wm': "wm' = fold (start_added L now) added wm2"
    using assms one two by (simp add: Manager_Apply_def)
  have a: "msteps L now normal_call wm (fst wm, m1)"
    using apply_configs_steps [OF one, of L now "fst wm"] by simp
  have "csteps L now normal_call (fst wm, m1) wm2"
    by (rule drop_unlisted_steps [OF _ two]) auto
  from csteps_msteps [OF csteps_trans [OF this csteps_plain [OF start_added_steps [of L now wm2 added]]]] wm'
  have "msteps L now normal_call (fst wm, m1) wm'" by simp
  with a show ?thesis by (rule msteps_trans)
qed

section \<open>Invariants\<close>

definition manager_inv :: "Manager \<Rightarrow> bool" where
  "manager_inv m \<longleftrightarrow> distinct (names m) \<and> (\<forall>s \<in> set (mg_services m). service_inv s)"

lemma manager_inv_new: "manager_inv (new_Manager env)"
  by (simp add: manager_inv_def new_Manager_def)

lemma manager_inv_Load: "distinct (map sc_name configs) \<Longrightarrow> manager_inv (Manager_Load configs m)"
  by (auto simp: manager_inv_def Manager_Load_def comp_def new_Service_def
      intro: service_inv_new [unfolded new_Service_def])

lemma manager_inv_cstep:
  assumes "cstep L now normal_call wm wm'" and "manager_inv (snd wm)"
  shows "manager_inv (snd wm')"
proof -
  from assms(1) obtain i op where wm': "wm' = on_service i (perform L now op) wm"
    and i: "i < length (mg_services (snd wm))" by (auto elim: cstepE)
  obtain w' s' where p: "perform L now op (fst wm, mg_services (snd wm) ! i) = (w', s')" by fastforce
  have "service_inv (mg_services (snd wm) ! i)" using assms(2) i by (simp add: manager_inv_def)
  from inv_perform [OF this, of L now op "fst wm"] p have "service_inv s'" by simp
  moreover have "names (snd wm') = names (snd wm)" by (rule shape_fields(3) [OF cstep_shape [OF assms(1)]])
  moreover have "set (mg_services (snd wm')) \<subseteq> insert s' (set (mg_services (snd wm)))"
    using p set_update_subset_insert [of "mg_services (snd wm)" i s'] by (simp add: wm' on_service_def)
  ultimately show ?thesis using assms(2) by (auto simp: manager_inv_def)
qed

lemma distinct_names_filter: "distinct (names m) \<Longrightarrow> distinct (map (\<lambda>s. Service_Name s) (filter P (mg_services m)))"
  by (rule distinct_map_filter)

lemma manager_inv_remove: "manager_inv m \<Longrightarrow> manager_inv (remove_finished m)"
  by (auto simp: manager_inv_def remove_finished_def distinct_names_filter)

lemma manager_inv_mstep:
  assumes "mstep L now normal_call wm wm'" and "manager_inv (snd wm)"
  shows "manager_inv (snd wm')"
  using assms
proof (induction rule: mstep.induct)
  case (call wm wm')
  then show ?case by (rule manager_inv_cstep)
next
  case (add config m w)
  then show ?case by (auto simp: manager_inv_def service_inv_new) (simp add: new_Service_def)
next
  case (remove w m)
  then show ?case by (simp add: manager_inv_remove)
next
  case (shut w m)
  then show ?case by (simp add: manager_inv_def)
qed

lemma manager_inv_msteps:
  "msteps L now normal_call wm wm' \<Longrightarrow> manager_inv (snd wm) \<Longrightarrow> manager_inv (snd wm')"
  by (induction rule: rtranclp_induct) (auto intro: manager_inv_mstep)

lemma mstep_orderly: "mstep L now orderly_call wm wm' \<Longrightarrow> mstep L now normal_call wm wm'"
proof (induction rule: mstep.induct)
  case (call wm wm')
  then have "cstep L now normal_call wm wm'" by (elim cstepE) (auto intro: cstep.call orderly_normal)
  then show ?case by (rule mstep.call)
qed (rule mstep.intros; simp)+

lemma msteps_orderly: "msteps L now orderly_call wm wm' \<Longrightarrow> msteps L now normal_call wm wm'"
  by (induction rule: rtranclp_induct) (auto intro: mstep_orderly rtranclp.rtrancl_into_rtrancl)

section \<open>Ownership and launches\<close>

definition owned_all :: "Manager \<Rightarrow> handle set" where
  "owned_all m = (\<Union>s \<in> set (mg_services m). owned s)"

text \<open>Each child object is owned at most once: counted over the list of services.\<close>

definition children :: "Manager \<Rightarrow> handle list" where
  "children m = concat (map (\<lambda>s. case sv_child s of Some h \<Rightarrow> [h] | None \<Rightarrow> []) (mg_services m))"

lemma set_children: "set (children m) = owned_all m"
  by (auto simp: children_def owned_all_def owned_def split: option.splits)

lemma children_append:
  "concat (map f (xs[i := y])) = concat (map f (take i xs)) @ f y @ concat (map f (drop (Suc i) xs))"
  if "i < length xs"
  using that by (simp add: upd_conv_take_nth_drop)

lemma children_split:
  assumes "i < length (mg_services m)"
  shows "children m = concat (map (\<lambda>s. case sv_child s of Some h \<Rightarrow> [h] | None \<Rightarrow> []) (take i (mg_services m)))
    @ (case sv_child (mg_services m ! i) of Some h \<Rightarrow> [h] | None \<Rightarrow> [])
    @ concat (map (\<lambda>s. case sv_child s of Some h \<Rightarrow> [h] | None \<Rightarrow> []) (drop (Suc i) (mg_services m)))"
  using children_append [OF assms, of _ "mg_services m ! i"] by (simp add: children_def)

lemma children_remove_finished:
  assumes "manager_inv m"
  shows "children (remove_finished m) = children m"
proof -
  have none: "sv_child s = None" if "s \<in> set (mg_services m)" "finished_removal s" for s
    using that assms by (auto simp: manager_inv_def finished_removal_def dest: not_alive_child)
  have "(\<forall>s \<in> set ss. finished_removal s \<longrightarrow> sv_child s = None) \<Longrightarrow>
      concat (map (\<lambda>s. case sv_child s of Some h \<Rightarrow> [h] | None \<Rightarrow> []) (filter (\<lambda>s. \<not> finished_removal s) ss))
      = concat (map (\<lambda>s. case sv_child s of Some h \<Rightarrow> [h] | None \<Rightarrow> []) ss)" for ss
    by (induction ss) auto
  with none show ?thesis by (simp add: children_def remove_finished_def)
qed

context process_launcher
begin

lemma hands_perform:
  assumes "owned s \<subseteq> live w"
  shows "hands (w, s) (perform L now op (w, s))"
  using assms
  by (cases op)
    (auto simp: hands_Start hands_Stop hands_Restart hands_Kill hands_Tick hands_Sample
      Service_Heartbeat_def Service_Abandon_def SetGpuUsage_def Service_Replace_def SetRemoving_def
      intro!: hands_same)

lemma calm_perform:
  assumes "\<not> may_launch op"
  shows "calm (w, s) (perform L now op (w, s))"
proof (cases op)
  case (Do_Tick allowed ready)
  with assms calm_Tick [of allowed ready w s now] show ?thesis by simp
next
  case (Do_Stop)
  then show ?thesis using live_Stop [of now w s] by (simp add: calm_def)
next
  case (Do_Kill)
  then show ?thesis using live_Kill [of now w s] by (simp add: calm_def)
next
  case (Do_Sample t)
  then show ?thesis using live_Sample [of now t w s] by (simp add: calm_def)
qed (use assms calm_Start [of w s now] calm_Restart [of w s now] in \<open>auto simp: calm_def\<close>)

text \<open>The child objects of the services are distinct and are all there are.\<close>

definition owns :: "'w \<times> Manager \<Rightarrow> bool" where
  "owns wm \<longleftrightarrow> distinct (children (snd wm)) \<and> set (children (snd wm)) = live (fst wm)"

lemma owns_live: "owns (w, m) \<Longrightarrow> s \<in> set (mg_services m) \<Longrightarrow> owned s \<subseteq> live w"
  by (auto simp: owns_def set_children owned_all_def)

lemma owns_cstep:
  assumes "cstep L now P wm wm'" and "owns wm"
  shows "owns wm'"
proof -
  from assms(1) obtain i op where wm': "wm' = on_service i (perform L now op) wm"
    and i: "i < length (mg_services (snd wm))" by (auto elim: cstepE)
  obtain w m where wm: "wm = (w, m)" by fastforce
  define s where "s = mg_services m ! i"
  obtain w' s' where p: "perform L now op (w, s) = (w', s')" by fastforce
  let ?f = "\<lambda>s. case sv_child s of Some h \<Rightarrow> [h] | None \<Rightarrow> []"
  let ?A = "concat (map ?f (take i (mg_services m)))" and ?B = "concat (map ?f (drop (Suc i) (mg_services m)))"
  have fs: "set (?f u) = owned u" for u by (cases "sv_child u") simp_all
  have ch: "children m = ?A @ ?f s @ ?B" using children_split [of i m] i wm by (simp add: s_def)
  have ch': "children (snd wm') = ?A @ ?f s' @ ?B"
    using children_append [of i "mg_services m" ?f s'] i wm p
    by (simp add: children_def wm' on_service_def s_def)
  have d: "distinct (children m)" and l: "set (children m) = live w"
    using assms(2) wm by (simp_all add: owns_def)
  then have "owned s \<subseteq> live w" using ch fs by auto
  from hands_perform [OF this, of now op] p have h: "owned s' \<subseteq> live w'"
    and eq: "live w' - owned s' = live w - owned s" by (simp_all add: hands_def)
  have AB: "set ?A \<union> set ?B = live w - owned s"
    using d l fs [of s] unfolding ch by auto
  with eq have AB': "set ?A \<union> set ?B = live w' - owned s'" by simp
  have "distinct (?f s')" by (simp split: option.splits)
  then have "distinct (children (snd wm'))"
    using d AB' fs [of s'] unfolding ch ch' by auto
  moreover have "set (children (snd wm')) = live w'"
    using AB' h fs [of s'] unfolding ch' by auto
  moreover have "fst wm' = w'" using p wm by (simp add: wm' on_service_def s_def)
  ultimately show ?thesis by (simp add: owns_def)
qed

lemma owns_mstep:
  assumes "mstep L now normal_call wm wm'" and "manager_inv (snd wm)" and "owns wm"
  shows "owns wm'"
  using assms
proof (induction rule: mstep.induct)
  case (call wm wm')
  then show ?case by (blast intro: owns_cstep)
next
  case (add config m w)
  then show ?case by (simp add: owns_def children_def new_Service_def)
next
  case (remove w m)
  then show ?case by (simp add: owns_def children_remove_finished)
next
  case (shut w m)
  then show ?case by (simp add: owns_def children_def)
qed

lemma owns_msteps:
  "msteps L now normal_call wm wm' \<Longrightarrow> manager_inv (snd wm) \<Longrightarrow> owns wm \<Longrightarrow> owns wm'"
proof (induction rule: rtranclp_induct)
  case (step y z)
  then show ?case using manager_inv_msteps owns_mstep by blast
qed

text \<open>A step that creates a child object launches a service whose dependencies all run.\<close>

lemma launch_guard:
  assumes "mstep L now normal_call wm wm'" and "owns wm" and "\<not> live (fst wm') \<subseteq> live (fst wm)"
  shows "\<not> mg_shuttingDown (snd wm)
    \<and> (\<exists>i < length (mg_services (snd wm)). DependenciesRunning (snd wm) (mg_services (snd wm) ! i)
        \<and> Service_Name (mg_services (snd wm') ! i) = Service_Name (mg_services (snd wm) ! i)
        \<and> sv_child (mg_services (snd wm') ! i) \<noteq> None)"
  using assms
proof (induction rule: mstep.induct)
  case (call wm wm')
  from call(1) obtain i op where wm': "wm' = on_service i (perform L now op) wm"
    and i: "i < length (mg_services (snd wm))" and ok: "normal_call (snd wm) i op"
    by (auto elim: cstepE)
  obtain w m where wm: "wm = (w, m)" by fastforce
  obtain w' s' where p: "perform L now op (w, mg_services m ! i) = (w', s')" by fastforce
  have w': "fst wm' = w'" "mg_services (snd wm') ! i = s'"
    using p wm i by (simp_all add: wm' on_service_def)
  have "may_launch op"
    using calm_perform [of op w "mg_services m ! i" now] call(3) w' wm p by (auto simp: calm_def)
  moreover have "names (snd wm') = names (snd wm)" by (rule shape_fields(3) [OF cstep_shape [OF call(1)]])
  then have "Service_Name (mg_services (snd wm') ! i) = Service_Name (mg_services (snd wm) ! i)"
    using i by (metis (no_types, lifting) length_map nth_map)
  moreover have "sv_child s' \<noteq> None"
  proof
    assume none: "sv_child s' = None"
    have "owned (mg_services m ! i) \<subseteq> live w" using call(2) i wm by (intro owns_live) auto
    from hands_perform [OF this, of now op] p none have "live w' \<subseteq> live w" by (auto simp: hands_def)
    with call(3) w' wm show False by simp
  qed
  ultimately show ?case using ok i wm w' by (auto simp: normal_call_def)
qed auto

end

end
