(* ===== verification/Manager_Results.thy ===== *)
theory Manager_Results
  imports Manager_Props "HOL-Library.Multiset"
begin

text \<open>
  What the operations of the manager compute. A reload is specified on the map from service names
  to configuration and removal mark, which \<open>Apply\<close> is shown to implement, with its three counts.
  A stop during shutdown waits for the dependents.
\<close>

section \<open>The abstract manager\<close>

text \<open>The configuration and the removal mark of each named service.\<close>

definition lookup :: "Manager \<Rightarrow> string \<rightharpoonup> ServiceConfig \<times> bool" where
  "lookup m n = map_of (map (\<lambda>(c, r). (sc_name c, (c, r))) (setups m)) n"

definition config_named :: "ServiceConfig list \<Rightarrow> string \<Rightarrow> ServiceConfig option" where
  "config_named configs n = find (\<lambda>c. sc_name c = n) configs"

text \<open>A reload: listed services get their new configuration, the others are marked.\<close>

definition reloaded :: "ServiceConfig list \<Rightarrow> (string \<rightharpoonup> ServiceConfig \<times> bool) \<Rightarrow> string \<rightharpoonup> ServiceConfig \<times> bool"
  where
  "reloaded configs services n =
     (case config_named configs n of
        Some c \<Rightarrow> Some (c, False)
      | None \<Rightarrow> map_option (\<lambda>(c, r). (c, True)) (services n))"

lemma setups_index:
  "i < length (mg_services m) \<Longrightarrow>
   setups m ! i = (sv_config (mg_services m ! i), sv_removing (mg_services m ! i))"
  by (simp add: setups_def)

lemma lookup_eq:
  "lookup m n = map_option (\<lambda>i. (sv_config (mg_services m ! i), sv_removing (mg_services m ! i)))
    (FindMutable m n)"
proof -
  have "map_of (map (\<lambda>s. (Service_Name s, (sv_config s, sv_removing s))) ss) n
      = map_option (\<lambda>i. (sv_config (ss ! i), sv_removing (ss ! i))) (index_of ss n)" for ss
    by (induction ss) (auto simp: option.map_comp comp_def)
  then show ?thesis by (simp add: lookup_def setups_def comp_def FindMutable_def)
qed

lemma lookup_update:
  assumes "FindMutable m (sc_name c) = Some i" and "sv_config s = c" and "\<not> sv_removing s"
  shows "lookup (m\<lparr>mg_services := (mg_services m)[i := s]\<rparr>) = (lookup m)(sc_name c \<mapsto> (c, False))"
proof
  fix n
  have "index_of ss (sc_name c) = Some i \<Longrightarrow>
      map_of (map (\<lambda>s. (Service_Name s, (sv_config s, sv_removing s))) (ss[i := s])) n
      = ((map_of (map (\<lambda>s. (Service_Name s, (sv_config s, sv_removing s))) ss))(sc_name c \<mapsto> (c, False))) n"
    for ss i
    using assms(2,3) by (induction ss arbitrary: i) (auto split: if_splits nat.splits)
  with assms(1) show "lookup (m\<lparr>mg_services := (mg_services m)[i := s]\<rparr>) n
      = ((lookup m)(sc_name c \<mapsto> (c, False))) n"
    by (simp add: lookup_def setups_def comp_def FindMutable_def)
qed

lemma lookup_add:
  assumes "FindMutable m (sc_name c) = None"
  shows "lookup (m\<lparr>mg_services := mg_services m @ [new_Service c env]\<rparr>)
    = (lookup m)(sc_name c \<mapsto> (c, False))"
proof
  fix n
  have "lookup m (sc_name c) = None" using assms by (simp add: lookup_eq)
  then show "lookup (m\<lparr>mg_services := mg_services m @ [new_Service c env]\<rparr>) n
      = ((lookup m)(sc_name c \<mapsto> (c, False))) n"
    by (auto simp: lookup_def setups_def new_Service_def map_add_def split: option.splits)
qed

section \<open>Apply\<close>

text \<open>How one listed configuration counts.\<close>

definition counts_added :: "(string \<rightharpoonup> ServiceConfig \<times> bool) \<Rightarrow> ServiceConfig \<Rightarrow> bool" where
  "counts_added services c \<longleftrightarrow> (case services (sc_name c) of None \<Rightarrow> True | Some (old, r) \<Rightarrow> r)"

definition counts_changed :: "(string \<rightharpoonup> ServiceConfig \<times> bool) \<Rightarrow> ServiceConfig \<Rightarrow> bool" where
  "counts_changed services c \<longleftrightarrow>
     (case services (sc_name c) of None \<Rightarrow> False | Some (old, r) \<Rightarrow> \<not> r \<and> old \<noteq> c)"

definition count_of :: "bool \<Rightarrow> int" where
  "count_of b = (if b then 1 else 0)"

lemma apply_config_lookup:
  assumes "apply_config c (summary, added, m) = (summary', added', m')"
  shows "lookup m' = (lookup m)(sc_name c \<mapsto> (c, False))"
    and "rs_added summary' = rs_added summary + count_of (counts_added (lookup m) c)"
    and "rs_changed summary' = rs_changed summary + count_of (counts_changed (lookup m) c)"
    and "rs_removed summary' = rs_removed summary"
proof (goal_cases)
  case 1
  show ?case
  proof (cases "FindMutable m (sc_name c)")
    case None
    with assms lookup_add [OF None] show ?thesis by (auto simp: apply_config_def)
  next
    case (Some i)
    define s where "s = mg_services m ! i"
    define s1 where "s1 = (if \<not> SameServiceConfig (sv_config s) c then Service_Replace c s else s)"
    define s2 where "s2 = (if sv_removing s then SetRemoving False s1 else s1)"
    have "m' = m\<lparr>mg_services := (mg_services m)[i := s2]\<rparr>"
      using assms Some by (auto simp: apply_config_def Let_def s_def s1_def s2_def split: if_splits)
    moreover have "sv_config s2 = c" "\<not> sv_removing s2"
      by (auto simp: s2_def s1_def SameServiceConfig_iff Service_Replace_def SetRemoving_def)
    ultimately show ?thesis using lookup_update [OF Some] by simp
  qed
qed (use assms in \<open>auto simp: apply_config_def lookup_eq counts_added_def counts_changed_def count_of_def
      Let_def SameServiceConfig_iff split: option.splits if_splits\<close>)

lemma counts_other:
  assumes "sc_name c \<noteq> sc_name d"
  shows "counts_added (services(sc_name d \<mapsto> v)) c = counts_added services c"
    and "counts_changed (services(sc_name d \<mapsto> v)) c = counts_changed services c"
  using assms by (simp_all add: counts_added_def counts_changed_def)

lemma sum_counts_other:
  assumes "sc_name d \<notin> sc_name ` set configs"
  shows "(\<Sum>c\<leftarrow>configs. count_of (counts_added (services(sc_name d \<mapsto> v)) c))
      = (\<Sum>c\<leftarrow>configs. count_of (counts_added services c))"
    and "(\<Sum>c\<leftarrow>configs. count_of (counts_changed (services(sc_name d \<mapsto> v)) c))
      = (\<Sum>c\<leftarrow>configs. count_of (counts_changed services c))"
proof -
  have "sc_name c \<noteq> sc_name d" if "c \<in> set configs" for c using assms that by force
  then have "map (\<lambda>c. count_of (counts_added (services(sc_name d \<mapsto> v)) c)) configs
      = map (\<lambda>c. count_of (counts_added services c)) configs"
    "map (\<lambda>c. count_of (counts_changed (services(sc_name d \<mapsto> v)) c)) configs
      = map (\<lambda>c. count_of (counts_changed services c)) configs"
    by (simp_all add: counts_other)
  then show "(\<Sum>c\<leftarrow>configs. count_of (counts_added (services(sc_name d \<mapsto> v)) c))
      = (\<Sum>c\<leftarrow>configs. count_of (counts_added services c))"
    "(\<Sum>c\<leftarrow>configs. count_of (counts_changed (services(sc_name d \<mapsto> v)) c))
      = (\<Sum>c\<leftarrow>configs. count_of (counts_changed services c))"
    by (simp_all only:)
qed

lemma apply_configs_lookup:
  assumes "distinct (map sc_name configs)"
    and "fold apply_config configs (summary, added, m) = (summary', added', m')"
  shows "lookup m' n = (case config_named configs n of Some c \<Rightarrow> Some (c, False) | None \<Rightarrow> lookup m n)
    \<and> rs_added summary' = rs_added summary + (\<Sum>c\<leftarrow>configs. count_of (counts_added (lookup m) c))
    \<and> rs_changed summary' = rs_changed summary + (\<Sum>c\<leftarrow>configs. count_of (counts_changed (lookup m) c))
    \<and> rs_removed summary' = rs_removed summary"
  using assms
proof (induction configs arbitrary: summary added m)
  case Nil
  then show ?case by (simp add: config_named_def)
next
  case (Cons c configs)
  obtain s1 a1 m1 where step: "apply_config c (summary, added, m) = (s1, a1, m1)" by (metis prod_cases3)
  have fresh: "sc_name c \<notin> sc_name ` set configs" using Cons.prems(1) by auto
  then have "config_named configs (sc_name c) = None"
    by (force simp: config_named_def find_None_iff image_iff)
  moreover from Cons.prems step have rest: "fold apply_config configs (s1, a1, m1) = (summary', added', m')"
    "distinct (map sc_name configs)" by simp_all
  ultimately have none: "config_named configs (sc_name c) = None" by simp
  note ih = Cons.IH [OF rest(2,1)] and one = apply_config_lookup [OF step]
  have m1: "lookup m1 = (lookup m)(sc_name c \<mapsto> (c, False))" using one by simp
  note counts = ih [unfolded m1 sum_counts_other [OF fresh]]
  have "lookup m' n = (case config_named (c # configs) n of Some c \<Rightarrow> Some (c, False) | None \<Rightarrow> lookup m n)"
    using counts none by (auto simp: config_named_def split: option.splits)
  with counts one show ?case by simp
qed

text \<open>The second loop marks the services that are not listed, index by index.\<close>

definition mark :: "ServiceConfig list \<Rightarrow> ServiceConfig \<times> bool \<Rightarrow> ServiceConfig \<times> bool" where
  "mark configs = (\<lambda>(c, r). (c, r \<or> \<not> Listed configs (sc_name c)))"

definition counts_removed :: "ServiceConfig list \<Rightarrow> ServiceConfig \<times> bool \<Rightarrow> bool" where
  "counts_removed configs = (\<lambda>(c, r). \<not> r \<and> \<not> Listed configs (sc_name c))"

lemma setups_on_service:
  assumes "i < length (mg_services (snd wm))"
    and "f (fst wm, mg_services (snd wm) ! i) = (w', s')"
  shows "setups (snd (on_service i f wm)) = (setups (snd wm))[i := (sv_config s', sv_removing s')]"
  using assms by (simp add: on_service_def setups_def map_update)

lemma length_setups [simp]: "length (setups m) = length (mg_services m)"
  by (simp add: setups_def)

lemma drop_unlisted_setups:
  fixes wm :: "'w \<times> Manager"
  assumes "i < length (mg_services (snd wm))" and "drop_unlisted L now configs i (summary, wm) = (summary', wm')"
  shows "setups (snd wm') = (setups (snd wm))[i := mark configs (setups (snd wm) ! i)]
    \<and> rs_removed summary' = rs_removed summary + count_of (counts_removed configs (setups (snd wm) ! i))
    \<and> rs_added summary' = rs_added summary \<and> rs_changed summary' = rs_changed summary"
proof -
  let ?s = "mg_services (snd wm) ! i"
  have at: "setups (snd wm) ! i = (sv_config ?s, sv_removing ?s)" using assms(1) by (rule setups_index)
  show ?thesis
  proof (cases "\<not> Listed configs (Service_Name ?s) \<and> \<not> sv_removing ?s")
    case True
    let ?wm1 = "on_service i (perform L now (Do_SetRemoving True)) wm"
    have s1: "setups (snd ?wm1) = (setups (snd wm))[i := (sv_config ?s, True)]"
      using assms(1) by (subst setups_on_service) (auto simp: SetRemoving_def)
    have i1: "i < length (mg_services (snd ?wm1))"
      using assms(1) arg_cong [OF s1, of length] by simp
    have "wm' = on_service i (perform L now Do_Stop) ?wm1"
      using assms(2) True by (auto simp: drop_unlisted_def Let_def at_operations perform_pure)
    moreover have "setups (snd (on_service i (perform L now Do_Stop) ?wm1)) = setups (snd ?wm1)"
      by (rule plain_setups [OF csteps_Stop [OF i1]])
    ultimately show ?thesis
      using assms(2) True s1 at
      by (auto simp: drop_unlisted_def Let_def mark_def counts_removed_def count_of_def)
  next
    case False
    then have "mark configs (setups (snd wm) ! i) = setups (snd wm) ! i"
      using at by (auto simp: mark_def)
    then have same: "(setups (snd wm))[i := mark configs (setups (snd wm) ! i)] = setups (snd wm)" by simp
    from False have "summary' = summary" "wm' = wm"
      using assms(2) by (auto simp: drop_unlisted_def Let_def split: if_splits)
    then show ?thesis
      unfolding same using False at by (auto simp: counts_removed_def count_of_def)
  qed
qed

lemma drop_all_setups:
  fixes wm :: "'w \<times> Manager"
  assumes "k \<le> length (mg_services (snd wm))"
    and "fold (drop_unlisted L now configs) [0..<k] (summary, wm) = (summary', wm')"
  shows "setups (snd wm') = map (mark configs) (take k (setups (snd wm))) @ drop k (setups (snd wm))
    \<and> rs_removed summary' = rs_removed summary
        + (\<Sum>x\<leftarrow>take k (setups (snd wm)). count_of (counts_removed configs x))
    \<and> rs_added summary' = rs_added summary \<and> rs_changed summary' = rs_changed summary"
  using assms
proof (induction k arbitrary: summary' wm')
  case (Suc k)
  obtain s1 and wm1 :: "'w \<times> Manager"
    where pre: "fold (drop_unlisted L now configs) [0..<k] (summary, wm) = (s1, wm1)" by (rule prod.exhaust)
  with Suc.prems have step: "drop_unlisted L now configs k (s1, wm1) = (summary', wm')" by simp
  from Suc.IH [OF _ pre] Suc.prems(1) have
    ih: "setups (snd wm1) = map (mark configs) (take k (setups (snd wm))) @ drop k (setups (snd wm))"
    "rs_removed s1 = rs_removed summary + (\<Sum>x\<leftarrow>take k (setups (snd wm)). count_of (counts_removed configs x))"
    "rs_added s1 = rs_added summary" "rs_changed s1 = rs_changed summary" by auto
  have k: "k < length (setups (snd wm))" using Suc.prems(1) by simp
  have "k < length (mg_services (snd wm1))" using arg_cong [OF ih(1), of length] k by simp
  from drop_unlisted_setups [OF this step] ih k show ?case
    by (simp add: nth_append take_Suc_conv_app_nth list_update_append)
      (simp add: Cons_nth_drop_Suc [symmetric])
qed simp

lemma lookup_marked:
  assumes "setups m' = map (mark configs) (setups m)"
  shows "lookup m' n = map_option (\<lambda>(c, r). (c, r \<or> \<not> Listed configs n)) (lookup m n)"
proof -
  have "map_of (map (\<lambda>(c, r). (sc_name c, (c, r))) (map (mark configs) xs)) n
      = map_option (\<lambda>(c, r). (c, r \<or> \<not> Listed configs n)) (map_of (map (\<lambda>(c, r). (sc_name c, (c, r))) xs) n)"
    for xs
    by (induction xs) (auto simp: mark_def)
  with assms show ?thesis by (simp add: lookup_def)
qed

lemma Listed_named: "Listed configs n \<longleftrightarrow> config_named configs n \<noteq> None"
  by (auto simp: Listed_def config_named_def find_None_iff list_ex_iff)

lemma Apply_refines:
  fixes wm :: "'w \<times> Manager"
  assumes "distinct (map sc_name configs)" and "Manager_Apply L configs now wm = (summary, wm')"
  shows "lookup (snd wm') = reloaded configs (lookup (snd wm))"
    and "rs_added summary = (\<Sum>c\<leftarrow>configs. count_of (counts_added (lookup (snd wm)) c))"
    and "rs_changed summary = (\<Sum>c\<leftarrow>configs. count_of (counts_changed (lookup (snd wm)) c))"
proof -
  let ?zero = "\<lparr>rs_added = 0, rs_removed = 0, rs_changed = 0\<rparr>"
  obtain s1 added m1 where one: "fold apply_config configs (?zero, [], snd wm) = (s1, added, m1)"
    by (metis prod_cases3)
  obtain s2 and wm2 :: "'w \<times> Manager" where two:
    "fold (drop_unlisted L now configs) [0..<length (mg_services m1)] (s1, fst wm, m1) = (s2, wm2)"
    by (rule prod.exhaust)
  have out: "summary = s2" "wm' = fold (start_added L now) added wm2"
    using assms(2) one two by (simp_all add: Manager_Apply_def)
  note a = apply_configs_lookup [OF assms(1) one]
  note b = drop_all_setups [of "length (mg_services m1)" "(fst wm, m1)", OF _ two]
  have "setups (snd wm2) = map (mark configs) (setups m1)" using b by simp
  moreover have "setups (snd wm') = setups (snd wm2)"
    unfolding out by (rule plain_setups [OF start_added_steps])
  ultimately have "lookup (snd wm') n = reloaded configs (lookup (snd wm)) n" for n
    using a [of n] by (simp add: lookup_marked reloaded_def Listed_named split: option.splits)
  then show "lookup (snd wm') = reloaded configs (lookup (snd wm))" by blast
  show "rs_added summary = (\<Sum>c\<leftarrow>configs. count_of (counts_added (lookup (snd wm)) c))"
    "rs_changed summary = (\<Sum>c\<leftarrow>configs. count_of (counts_changed (lookup (snd wm)) c))"
    using a b out(1) by simp_all
qed

section \<open>Removal\<close>

lemma tick_loops_steps:
  "csteps L now orderly_call wm (fold (settle_one L now) [0..<length (mg_services (snd wm))]
     (fold (tick_one L now) [0..<length (mg_services (snd wm))] wm))"
proof -
  let ?ks = "[0..<length (mg_services (snd wm))]"
  let ?a = "fold (tick_one L now) ?ks wm"
  have a: "csteps L now orderly_call wm ?a" by (intro fold_orderly tick_one_steps) auto
  have len: "length (mg_services (snd ?a)) = length (mg_services (snd wm))"
    using csteps_shape [OF csteps_orderly [OF a]] by (rule shape_length)
  have "csteps L now orderly_call ?a (fold (settle_one L now) ?ks ?a)"
    by (intro fold_orderly settle_one_steps) (auto simp: len)
  with a show ?thesis by (rule csteps_trans)
qed

lemma marked_names:
  assumes "setups m' = setups m"
  shows "(\<lambda>s. Service_Name s) ` {s \<in> set (mg_services m'). sv_removing s}
    = (\<lambda>s. Service_Name s) ` {s \<in> set (mg_services m). sv_removing s}"
proof -
  have "(\<lambda>s. Service_Name s) ` {s \<in> set (mg_services m). sv_removing s}
      = (\<lambda>(c, r). sc_name c) ` {p \<in> set (setups m). snd p}" for m
    by (force simp: setups_def image_iff)
  with assms show ?thesis by simp
qed

lemma remove_finished_split:
  "mset (names (remove_finished m))
     + mset (map (\<lambda>s. Service_Name s) (filter finished_removal (mg_services m))) = mset (names m)"
  "mg_removed (remove_finished m)
     = mg_removed m @ map (\<lambda>s. Service_Name s) (filter finished_removal (mg_services m))"
  "filter finished_removal (mg_services (remove_finished m)) = []"
proof -
  have "mset (map f (filter (\<lambda>s. \<not> P s) xs)) + mset (map f (filter P xs)) = mset (map f xs)"
    for P and f :: "Service \<Rightarrow> string" and xs
    by (induction xs) auto
  note split = this [of "\<lambda>s. Service_Name s" finished_removal "mg_services m"]
  show "mset (names (remove_finished m))
     + mset (map (\<lambda>s. Service_Name s) (filter finished_removal (mg_services m))) = mset (names m)"
    "mg_removed (remove_finished m)
     = mg_removed m @ map (\<lambda>s. Service_Name s) (filter finished_removal (mg_services m))"
    "filter finished_removal (mg_services (remove_finished m)) = []"
    using split by (auto simp: remove_finished_def list_ex_iff filter_empty_conv)
qed

end
