(* ===== verification/Manager_Runs.thy ===== *)
theory Manager_Runs
  imports Manager_Results
begin

text \<open>
  The life of the manager as a sequence of the calls the daemon makes (\<open>ServiceManager.hpp\<close>), with
  anything happening to the outside world in between. Every call is a sequence of guarded steps on
  single services, so the invariant of the manager and the ownership of the child objects hold in
  every reachable state, whatever the launcher is.
\<close>

section \<open>The calls\<close>

datatype manager_op =
  Op_StartAutostart | Op_Execute CommandMessage | Op_Apply "ServiceConfig list" | Op_Tick
  | Op_Sample ProcessTable GpuSnapshot | Op_StopAll | Op_KillAll | Op_TakeRemoved

fun run_op :: "'w launcher \<Rightarrow> Instant \<Rightarrow> manager_op \<Rightarrow> 'w \<times> Manager \<Rightarrow> 'w \<times> Manager" where
  "run_op L now Op_StartAutostart wm = StartAutostart L now wm"
| "run_op L now (Op_Execute msg) wm = snd (Execute L msg now wm)"
| "run_op L now (Op_Apply configs) wm = snd (Manager_Apply L configs now wm)"
| "run_op L now Op_Tick wm = Manager_Tick L now wm"
| "run_op L now (Op_Sample table gpu) wm = Manager_Sample L now table gpu wm"
| "run_op L now Op_StopAll wm = StopAll L now wm"
| "run_op L now Op_KillAll wm = KillAll L now wm"
| "run_op L now Op_TakeRemoved wm = (fst wm, snd (TakeRemoved (snd wm)))"

text \<open>The daemon starts the services once, before anything can stop it.\<close>

definition op_allowed :: "manager_op \<Rightarrow> Manager \<Rightarrow> bool" where
  "op_allowed op m \<longleftrightarrow> (op = Op_StartAutostart \<longrightarrow> \<not> mg_shuttingDown m)"

lemma run_op_steps:
  fixes wm :: "'w \<times> Manager"
  assumes "op_allowed op (snd wm)" and "op \<noteq> Op_TakeRemoved"
  shows "msteps L now normal_call wm (run_op L now op wm)"
proof (cases op)
  case Op_StartAutostart
  with assms show ?thesis
    by (simp add: op_allowed_def csteps_msteps csteps_plain StartAutostart_steps)
next
  case (Op_Execute msg)
  obtain reply and wm' :: "'w \<times> Manager" where "Execute L msg now wm = (reply, wm')" by (rule prod.exhaust)
  with Op_Execute show ?thesis by (simp add: csteps_msteps csteps_plain Execute_steps)
next
  case (Op_Apply configs)
  obtain summary and wm' :: "'w \<times> Manager" where "Manager_Apply L configs now wm = (summary, wm')"
    by (rule prod.exhaust)
  with Op_Apply show ?thesis by (simp add: Manager_Apply_steps)
next
  case Op_Tick
  then show ?thesis by (simp add: msteps_orderly Manager_Tick_steps)
next
  case (Op_Sample table gpu)
  then show ?thesis by (simp add: csteps_msteps csteps_plain Manager_Sample_steps)
next
  case Op_StopAll
  then show ?thesis by (simp add: msteps_orderly StopAll_steps)
next
  case Op_KillAll
  then show ?thesis by (simp add: KillAll_steps)
qed (use assms in simp)

lemma taken_services [simp]:
  "mg_services (snd (TakeRemoved m)) = mg_services m"
  "mg_shuttingDown (snd (TakeRemoved m)) = mg_shuttingDown m"
  by (simp_all add: TakeRemoved_def)

section \<open>Reachable states\<close>

text \<open>
  \<open>manager_reach L live wm\<close>: a manager loaded with services of distinct names in a world without
  child objects, after some calls of the daemon; in between the world changes in any way that
  neither creates nor destroys a child object.
\<close>

inductive manager_reach :: "'w launcher \<Rightarrow> ('w \<Rightarrow> handle set) \<Rightarrow> 'w \<times> Manager \<Rightarrow> bool" for L live where
  load: "live w = {} \<Longrightarrow> distinct (map sc_name configs) \<Longrightarrow>
    manager_reach L live (w, Manager_Load configs (new_Manager env))"
| call: "manager_reach L live wm \<Longrightarrow> op_allowed op (snd wm) \<Longrightarrow> manager_reach L live (run_op L now op wm)"
| world: "manager_reach L live (w, m) \<Longrightarrow> live w' = live w \<Longrightarrow> manager_reach L live (w', m)"

lemma manager_reach_inv: "manager_reach L live wm \<Longrightarrow> manager_inv (snd wm)"
proof (induction rule: manager_reach.induct)
  case (call wm op now)
  show ?case
  proof (cases "op = Op_TakeRemoved")
    case True
    with call.IH show ?thesis by (simp add: manager_inv_def)
  next
    case False
    with call show ?thesis by (blast intro: manager_inv_msteps run_op_steps)
  qed
qed (simp_all add: manager_inv_Load)

text \<open>Once set, the shutdown flag stays.\<close>

lemma cstep_shutting:
  "cstep L now P wm wm' \<Longrightarrow> mg_shuttingDown (snd wm') = mg_shuttingDown (snd wm)"
  by (elim cstepE) (auto simp: on_service_def split: prod.splits)

lemma mstep_shutting: "mstep L now P wm wm' \<Longrightarrow> mg_shuttingDown (snd wm) \<Longrightarrow> mg_shuttingDown (snd wm')"
  by (induction rule: mstep.induct) (auto simp: cstep_shutting remove_finished_def)

lemma msteps_shutting: "msteps L now P wm wm' \<Longrightarrow> mg_shuttingDown (snd wm) \<Longrightarrow> mg_shuttingDown (snd wm')"
  by (induction rule: rtranclp_induct) (auto intro: mstep_shutting)

lemma csteps_shutting:
  "csteps L now P wm wm' \<Longrightarrow> mg_shuttingDown (snd wm') = mg_shuttingDown (snd wm)"
  by (induction rule: rtranclp_induct) (simp_all add: cstep_shutting)

lemma Apply_shutting:
  fixes wm :: "'w \<times> Manager"
  shows "mg_shuttingDown (snd (snd (Manager_Apply L configs now wm))) = mg_shuttingDown (snd wm)"
proof -
  obtain s1 added m1 where one: "fold apply_config configs
      (\<lparr>rs_added = 0, rs_removed = 0, rs_changed = 0\<rparr>, [], snd wm) = (s1, added, m1)"
    by (metis prod_cases3)
  obtain s2 and wm2 :: "'w \<times> Manager" where two:
    "fold (drop_unlisted L now configs) [0..<length (mg_services m1)] (s1, fst wm, m1) = (s2, wm2)"
    by (rule prod.exhaust)
  have "csteps L now normal_call (fst wm, m1) wm2" by (rule drop_unlisted_steps [OF _ two]) auto
  moreover have "mg_shuttingDown m1 = mg_shuttingDown (snd wm)" using apply_configs_steps [OF one, of L now "fst wm"] by blast
  ultimately show ?thesis
    using one two csteps_shutting [OF start_added_steps [of L now wm2 added]]
    by (simp add: Manager_Apply_def csteps_shutting)
qed

lemma run_op_shutting:
  fixes wm :: "'w \<times> Manager"
  assumes "op_allowed op (snd wm)"
  shows "mg_shuttingDown (snd (run_op L now op wm))
    \<longleftrightarrow> mg_shuttingDown (snd wm) \<or> op = Op_StopAll \<or> op = Op_KillAll"
proof (cases op)
  case Op_StartAutostart
  then show ?thesis
    using assms csteps_shutting [OF StartAutostart_steps [of wm L now]] by (simp add: op_allowed_def)
next
  case (Op_Execute msg)
  obtain reply and wm' :: "'w \<times> Manager" where "Execute L msg now wm = (reply, wm')" by (rule prod.exhaust)
  with Op_Execute show ?thesis using csteps_shutting [OF Execute_steps] by simp
next
  case Op_Tick
  then show ?thesis
    using csteps_shutting [OF tick_loops_steps [of L now wm]]
    by (simp add: Manager_Tick_def remove_finished_def Let_def split: prod.splits)
next
  case Op_StopAll
  then show ?thesis
    using csteps_shutting [OF StopAll_loop [of L now wm]] by simp
next
  case Op_KillAll
  then show ?thesis
    using csteps_shutting [OF KillAll_loop [of L now wm]] by simp
qed (simp_all add: Apply_shutting csteps_shutting [OF Manager_Sample_steps])

context process_launcher
begin

lemma children_Load: "children (Manager_Load configs m) = []"
  by (simp add: children_def Manager_Load_def new_Service_def)

lemma manager_reach_owns: "manager_reach L live wm \<Longrightarrow> owns wm"
proof (induction rule: manager_reach.induct)
  case (load w configs env)
  then show ?case by (simp add: owns_def children_Load)
next
  case (call wm op now)
  show ?case
  proof (cases "op = Op_TakeRemoved")
    case True
    with call.IH show ?thesis by (simp add: owns_def children_def)
  next
    case False
    with call show ?thesis by (blast intro: owns_msteps run_op_steps manager_reach_inv)
  qed
next
  case (world w m w')
  then show ?case by (simp add: owns_def)
qed

text \<open>No step after a shutdown creates a child object.\<close>

lemma shutdown_msteps:
  assumes "msteps L now normal_call wm wm'" and "mg_shuttingDown (snd wm)" and "manager_inv (snd wm)" and "owns wm"
  shows "live (fst wm') \<subseteq> live (fst wm)"
  using assms
proof (induction rule: rtranclp_induct)
  case (step y z)
  have y: "mg_shuttingDown (snd y)" "owns y"
    using step.hyps(1) step.prems by (blast intro: msteps_shutting owns_msteps)+
  then have "live (fst z) \<subseteq> live (fst y)" using launch_guard [OF step.hyps(2)] by blast
  with step show ?case by blast
qed simp

lemma shutdown_launches_nothing:
  assumes "manager_reach L live wm" and "mg_shuttingDown (snd wm)" and "op_allowed op (snd wm)"
  shows "live (fst (run_op L now op wm)) \<subseteq> live (fst wm) \<and> mg_shuttingDown (snd (run_op L now op wm))"
proof (cases "op = Op_TakeRemoved")
  case True
  with assms(2) show ?thesis by simp
next
  case False
  from run_op_steps [OF assms(3) False] assms show ?thesis
    by (meson shutdown_msteps msteps_shutting manager_reach_inv manager_reach_owns)
qed

end

end
