(* ===== verification/Manager_Shutdown.thy ===== *)
theory Manager_Shutdown
  imports Manager_Runs
begin

text \<open>
  The shutdown of the manager ends. The locale \<open>obedient_launcher\<close> extends the contract of the
  launcher with what a shutdown relies on: a process that was asked to stop, or killed, exits, and
  its exit is there to be polled. Under it every tick of a shutdown makes progress: a stopping
  service is reaped, or else, the dependencies being acyclic, some service without living
  dependents is stopped. So two ticks per service are enough.
\<close>

section \<open>The contract\<close>

text \<open>
  \<open>gone h w\<close>: the process behind \<open>h\<close> has been told to exit and will be found exited. \<open>willing w\<close>:
  the processes of the world obey. \<open>kept\<close>: neither is lost, for the handles in \<open>K\<close>.
\<close>

definition kept :: "(handle \<Rightarrow> 'w \<Rightarrow> bool) \<Rightarrow> ('w \<Rightarrow> bool) \<Rightarrow> handle set \<Rightarrow> 'w \<Rightarrow> 'w \<Rightarrow> bool" where
  "kept gone willing K w w' \<longleftrightarrow> (willing w \<longrightarrow> willing w') \<and> (\<forall>k \<in> K. gone k w \<longrightarrow> gone k w')"

lemma kept_refl [simp]: "kept gone willing K w w"
  by (simp add: kept_def)

lemma kept_trans: "kept gone willing K w w' \<Longrightarrow> kept gone willing K w' w'' \<Longrightarrow> kept gone willing K w w''"
  by (auto simp: kept_def)

lemma kept_subset: "kept gone willing K w w' \<Longrightarrow> K' \<subseteq> K \<Longrightarrow> kept gone willing K' w w'"
  by (auto simp: kept_def)

lemma policy_not_Stopping: "sv_state (ApplyRestartPolicy now c s) \<noteq> Stopping"
  using ApplyRestartPolicy_state(1) [of now c s] by auto

lemma schedule_not_Stopping: "sv_state (ScheduleRestart now s) \<noteq> Stopping"
  using ScheduleRestart_state [of now s] by auto

text \<open>Two services never own the same child object.\<close>

lemma distinct_concat_nth:
  "distinct (concat (map f xs)) \<Longrightarrow> i < j \<Longrightarrow> j < length xs \<Longrightarrow> set (f (xs ! i)) \<inter> set (f (xs ! j)) = {}"
proof (induction xs arbitrary: i j)
  case (Cons x xs)
  then obtain k where j: "j = Suc k" by (cases j) auto
  show ?case
  proof (cases i)
    case 0
    have "set (f (xs ! k)) \<subseteq> set (concat (map f xs))" using Cons.prems j by auto
    with Cons.prems(1) 0 j show ?thesis by auto
  next
    case (Suc l)
    with Cons.prems Cons.IH [of l k] j show ?thesis by auto
  qed
qed simp

lemma owned_disjoint:
  assumes "distinct (children m)" and "j < length (mg_services m)" and "i < length (mg_services m)" and "j \<noteq> i"
  shows "owned (mg_services m ! j) \<inter> owned (mg_services m ! i) = {}"
proof -
  let ?f = "\<lambda>s. case sv_child s of Some h \<Rightarrow> [h] | None \<Rightarrow> []"
  have f: "set (?f s) = owned s" for s by (cases "sv_child s") simp_all
  from assms(1) have "distinct (concat (map ?f (mg_services m)))" by (simp add: children_def)
  note d = distinct_concat_nth [OF this, unfolded f]
  from assms(4) show ?thesis
    using d [OF _ assms(2), of i] d [OF _ assms(3), of j] by (cases "i < j") auto
qed

locale obedient_launcher = process_launcher L live
  for L :: "'w launcher" and live :: "'w \<Rightarrow> handle set" +
  fixes gone :: "handle \<Rightarrow> 'w \<Rightarrow> bool" and willing :: "'w \<Rightarrow> bool"
  assumes gone_poll: "h \<in> live w \<Longrightarrow> gone h w \<Longrightarrow> fst (l_Poll L h w) \<noteq> None"
    and request_gone: "h \<in> live w \<Longrightarrow> willing w \<Longrightarrow> gone h (l_RequestStop L h sig w)"
    and kill_gone: "h \<in> live w \<Longrightarrow> willing w \<Longrightarrow> gone h (l_Kill L h w)"
    and launch_kept: "kept gone willing (live w) w (snd (l_Launch L rq w))"
    and poll_kept: "kept gone willing (live w) w (snd (l_Poll L h w))"
    and request_kept: "h \<in> live w \<Longrightarrow> kept gone willing (live w) w (l_RequestStop L h sig w)"
    and kill_kept: "h \<in> live w \<Longrightarrow> kept gone willing (live w) w (l_Kill L h w)"
    and sample_kept: "kept gone willing (live w) w (snd (l_Sample L h t w))"
    and destroy_kept: "kept gone willing (live w - {h}) w (l_Destroy L h w)"
begin

abbreviation keeps :: "handle set \<Rightarrow> 'w \<Rightarrow> 'w \<Rightarrow> bool" where
  "keeps K w w' \<equiv> kept gone willing K w w'"

lemma poll_kept': "l_Poll L h w = (r, w') \<Longrightarrow> K \<subseteq> live w \<Longrightarrow> keeps K w w'"
  using poll_kept [of w h] by (auto intro: kept_subset)

lemma sample_kept': "l_Sample L h t w = (r, w') \<Longrightarrow> K \<subseteq> live w \<Longrightarrow> keeps K w w'"
  using sample_kept [of w h t] by (auto intro: kept_subset)

lemma launch_kept': "l_Launch L rq w = (r, w') \<Longrightarrow> K \<subseteq> live w \<Longrightarrow> keeps K w w'"
  using launch_kept [of w rq] by (auto intro: kept_subset)

lemma destroy_child_kept: "keeps (live w - owned s) w (destroy_child L s w)"
  using destroy_kept [of w] by (auto simp: destroy_child_def owned_def split: option.splits)

text \<open>A service that is stopping has asked its process to exit.\<close>

definition asked :: "'w \<times> Service \<Rightarrow> bool" where
  "asked ws \<longleftrightarrow> (sv_state (snd ws) = Stopping \<longrightarrow> (\<forall>h \<in> owned (snd ws). gone h (fst ws)))"

lemma asked_other: "sv_state s \<noteq> Stopping \<Longrightarrow> asked (w, s)"
  by (simp add: asked_def)

text \<open>What an operation of the service gives: others keep what they had, and the service has asked.\<close>

definition gentle :: "'w \<times> Service \<Rightarrow> 'w \<times> Service \<Rightarrow> bool" where
  "gentle a b \<longleftrightarrow> keeps (live (fst a) - owned (snd a)) (fst a) (fst b) \<and> asked b"

lemma Launch_not_Stopping: "sv_state (snd (snd (Service_Launch L now ws))) \<noteq> Stopping"
  by (auto simp: Service_Launch_def Let_def policy_not_Stopping split: prod.splits sum.splits)

lemma kept_Launch: "keeps (live w - owned s) w (fst (snd (Service_Launch L now (w, s))))"
proof -
  obtain r w1 where l: "l_Launch L (BuildRequest s) w = (r, w1)" by (rule prod.exhaust)
  have k: "keeps (live w - owned s) w w1" using launch_kept' [OF l] by simp
  show ?thesis
  proof (cases r)
    case (Inl e)
    with l k show ?thesis by (simp add: Service_Launch_def case_prod_beta)
  next
    case (Inr h)
    with l have "live w \<subseteq> live w1" using launch_Inr by blast
    then have "keeps (live w - owned s) w1 (destroy_child L s w1)"
      by (intro kept_subset [OF destroy_child_kept]) auto
    with k Inr l show ?thesis by (auto simp: Service_Launch_def Let_def intro: kept_trans)
  qed
qed

lemma gentle_Launch: "gentle (w, s) (snd (Service_Launch L now (w, s)))"
  using kept_Launch Launch_not_Stopping by (simp add: gentle_def asked_def)

lemma gentle_same:
  "asked (w, s') \<Longrightarrow> gentle (w, s) (w, s')"
  by (simp add: gentle_def)

lemma gentle_trans:
  assumes "gentle a b" and "gentle b c" and "live (fst a) - owned (snd a) \<subseteq> live (fst b) - owned (snd b)"
  shows "gentle a c"
  using assms by (auto simp: gentle_def intro: kept_trans kept_subset)

lemma gentle_Relaunch: "sv_state s \<noteq> Stopping \<Longrightarrow> gentle (w, s) (Relaunch L now ready (w, s))"
  by (simp add: Relaunch_def gentle_Launch gentle_same asked_other)

lemma BeginStop_world:
  "sv_child s = Some h \<Longrightarrow> fst (BeginStop L now (w, s)) = l_RequestStop L h (sc_stopSignal (sv_config s)) w"
  by (simp add: BeginStop_def child_call_def Let_def)

lemma gentle_BeginStop:
  assumes "willing w" and "owned s \<subseteq> live w"
  shows "gentle (w, s) (BeginStop L now (w, s))"
proof (cases "sv_child s")
  case None
  then show ?thesis by (simp add: gentle_def asked_def BeginStop_def child_call_def Let_def)
next
  case (Some h)
  with assms(2) have h: "h \<in> live w" by (simp add: owned_def)
  have "owned (snd (BeginStop L now (w, s))) = {h}" using Some by (simp add: owned_def)
  with Some h assms(1) show ?thesis
    by (auto simp: gentle_def asked_def BeginStop_world intro: request_gone kept_subset [OF request_kept])
qed

lemma gentle_Start:
  assumes "asked (w, s)"
  shows "gentle (w, s) (snd (Service_Start L now ready (w, s)))"
proof -
  have "gentle (w, s) (snd (Service_Launch L now (w, s\<lparr>sv_restartHistory := []\<rparr>)))"
    using gentle_Launch [of w "s\<lparr>sv_restartHistory := []\<rparr>" now] by (simp add: gentle_def owned_def)
  with assms show ?thesis
    by (cases "sv_state s")
      (auto simp: Service_Start_def Let_def gentle_Launch owned_def asked_def intro!: gentle_same)
qed

lemma gentle_Stop:
  assumes "willing w" and "owned s \<subseteq> live w" and "asked (w, s)"
  shows "gentle (w, s) (snd (Service_Stop L now (w, s)))"
  using assms
  by (cases "sv_state s")
    (auto simp: Service_Stop_def Let_def gentle_BeginStop owned_def asked_def intro!: gentle_same)

lemma gentle_flags:
  assumes "gentle a b" and "sv_state (snd b') = sv_state (snd b)" and "sv_child (snd b') = sv_child (snd b)"
    and "fst b' = fst b"
  shows "gentle a b'"
  using assms by (simp add: gentle_def asked_def owned_def)

lemma gentle_Restart:
  assumes "willing w" and "owned s \<subseteq> live w" and "asked (w, s)"
  shows "gentle (w, s) (snd (Service_Restart L now ready (w, s)))"
  using assms gentle_Start [OF assms(3), of now ready]
  by (cases "sv_state s")
    (auto simp: Service_Restart_def Let_def owned_def asked_def intro!: gentle_same
      gentle_flags [OF gentle_BeginStop [OF assms(1,2)]])

lemma gentle_Kill:
  assumes "willing w" and "owned s \<subseteq> live w"
  shows "gentle (w, s) (Service_Kill L now (w, s))"
proof (cases "sv_child s")
  case None
  then show ?thesis by (auto simp: Service_Kill_def Let_def asked_def owned_def intro!: gentle_same)
next
  case (Some h)
  with assms(2) have h: "h \<in> live w" by (simp add: owned_def)
  with Some assms show ?thesis
    by (auto simp: Service_Kill_def Let_def gentle_def asked_def owned_def
        intro: kill_gone kept_subset [OF kill_kept])
qed

lemma gentle_CheckHeartbeat:
  assumes "willing w" and "owned s \<subseteq> live w" and "sv_state s \<noteq> Stopping"
  shows "gentle (w, s) (CheckHeartbeat L now (w, s))"
proof -
  let ?s = "s\<lparr>sv_missedBeats := missed_beats now s, sv_state := Unhealthy\<rparr>"
  have o: "owned ?s = owned s" by (simp add: owned_def)
  have "gentle (w, ?s) (BeginStop L now (w, ?s))" using assms o by (intro gentle_BeginStop) auto
  then have "gentle (w, s) (BeginStop L now (w, ?s))" by (simp add: gentle_def o)
  then have "gentle (w, s) (fst (BeginStop L now (w, ?s)),
      (snd (BeginStop L now (w, ?s)))\<lparr>sv_restartAfterStop := True\<rparr>)"
    by (rule gentle_flags) simp_all
  with assms(3) show ?thesis
    by (auto simp: CheckHeartbeat_def Let_def asked_def intro!: gentle_same)
qed

text \<open>The exit of the process: the child object goes, and a launch may follow.\<close>

lemma gentle_HandleExit: "gentle (w, s) (HandleExit L now status allowed ready (w, s))"
proof -
  let ?w = "destroy_child L s w"
  have d: "keeps (live w - owned s) w ?w" by (rule destroy_child_kept)
  have fin: "gentle (w, s) (?w, s')" if "sv_state s' \<noteq> Stopping" for s'
    using d that by (simp add: gentle_def asked_def)
  have re: "gentle (w, s) (Relaunch L now ready (?w, u))"
    if "sv_state u = Stopped" "sv_child u = None" for u
  proof -
    have "gentle (w, s) (?w, u)" using that by (intro fin) simp
    moreover have "gentle (?w, u) (Relaunch L now ready (?w, u))" using that by (intro gentle_Relaunch) simp
    ultimately show ?thesis
      by (rule gentle_trans) (use that in \<open>simp add: live_destroy_child\<close>)
  qed
  show ?thesis
    by (auto simp: HandleExit_unfold Let_def policy_not_Stopping schedule_not_Stopping intro!: fin re)
qed

lemma HandleExit_not_Stopping:
  "sv_state (snd (HandleExit L now status allowed ready (w, s))) \<noteq> Stopping"
  by (auto simp: HandleExit_unfold Let_def Relaunch_def policy_not_Stopping schedule_not_Stopping
      Launch_not_Stopping)

lemma gentle_poll_child:
  assumes "service_inv s" and "owned s \<subseteq> live w" and "asked (w, s)"
  shows "gentle (w, s) (poll_child L now allowed ready (w, s))"
    and "sv_state (snd (poll_child L now allowed ready (w, s))) \<noteq> Stopping"
proof -
  have "gentle (w, s) (poll_child L now allowed ready (w, s))
      \<and> sv_state (snd (poll_child L now allowed ready (w, s))) \<noteq> Stopping"
  proof (cases "sv_child s")
    case None
    with assms(1) have "sv_state s \<noteq> Stopping" by (auto simp: service_inv_def)
    with None show ?thesis by (simp add: poll_child_def gentle_same asked_other)
  next
    case (Some h)
    with assms(2) have h: "h \<in> live w" by (simp add: owned_def)
    obtain r w1 where p: "l_Poll L h w = (r, w1)" by (rule prod.exhaust)
    have k: "keeps (live w) w w1" and l: "live w1 = live w"
      using poll_kept' [OF p] poll_live' [OF p] by simp_all
    show ?thesis
    proof (cases r)
      case None
      with assms(3) Some gone_poll [OF h] p have "sv_state s \<noteq> Stopping" by (auto simp: asked_def)
      moreover have "gentle (w, s) (w1, s)"
        using k calculation by (auto simp: gentle_def asked_def intro: kept_subset)
      ultimately show ?thesis using None Some p by (simp add: poll_child_def)
    next
      case (Some status)
      have "gentle (w, s) (HandleExit L now status allowed ready (w1, s))"
        using gentle_HandleExit [of w1 s now status allowed ready] k l
        by (auto simp: gentle_def intro: kept_trans kept_subset)
      with Some \<open>sv_child s = _\<close> p show ?thesis by (simp add: poll_child_def HandleExit_not_Stopping)
    qed
  qed
  then show "gentle (w, s) (poll_child L now allowed ready (w, s))"
    and "sv_state (snd (poll_child L now allowed ready (w, s))) \<noteq> Stopping" by blast+
qed

lemma gentle_tick_state:
  assumes "willing w" and "owned s \<subseteq> live w" and "sv_state s \<noteq> Stopping"
  shows "gentle (w, s) (tick_state L now allowed ready (w, s))"
proof (cases "sv_state s")
  case Backoff
  let ?s = "s\<lparr>sv_restartCount := sv_restartCount s + 1\<rparr>"
  have "gentle (w, ?s) (Relaunch L now ready (w, ?s))" using Backoff by (intro gentle_Relaunch) simp
  then have "gentle (w, s) (Relaunch L now ready (w, ?s))" by (simp add: gentle_def owned_def)
  with Backoff assms(3) show ?thesis
    by (auto simp: tick_state_def Let_def intro: gentle_same [OF asked_other])
qed (use assms in \<open>auto simp: tick_state_def Let_def intro!: gentle_CheckHeartbeat gentle_same asked_other\<close>)

lemma gentle_Tick:
  assumes "service_inv s" and "willing w" and "owned s \<subseteq> live w" and "asked (w, s)"
  shows "gentle (w, s) (Service_Tick L now allowed ready (w, s))"
proof -
  obtain w1 s1 where p: "poll_child L now allowed ready (w, s) = (w1, s1)" by (rule prod.exhaust)
  note g = gentle_poll_child [OF assms(1,3,4), of now allowed ready, unfolded p]
  have h: "hands (w, s) (w1, s1)" using hands_poll_child [OF assms(3), of now allowed ready] p by simp
  have "willing w1" using g(1) assms(2) by (simp add: gentle_def kept_def)
  then have "gentle (w1, s1) (tick_state L now allowed ready (w1, s1))"
    using g(2) h by (intro gentle_tick_state) (simp_all add: hands_def)
  with g(1) have "gentle (w, s) (tick_state L now allowed ready (w1, s1))"
    by (rule gentle_trans) (use h in \<open>simp add: hands_def\<close>)
  with p show ?thesis by (simp add: Service_Tick_def)
qed

lemma gentle_Sample:
  assumes "asked (w, s)" and "owned s \<subseteq> live w"
  shows "gentle (w, s) (Service_Sample L now table (w, s))"
proof (cases "sv_child s")
  case None
  with assms show ?thesis by (auto simp: Service_Sample_def Let_def asked_def owned_def intro!: gentle_same)
next
  case (Some h)
  obtain u w1 where p: "l_Sample L h table w = (u, w1)" by (rule prod.exhaust)
  have "keeps (live w) w w1" using sample_kept' [OF p] by simp
  with Some assms p show ?thesis
    by (auto simp: Service_Sample_def Let_def gentle_def asked_def kept_def)
qed

lemma gentle_perform:
  assumes "service_inv s" and "willing w" and "owned s \<subseteq> live w" and "asked (w, s)"
  shows "gentle (w, s) (perform L now op (w, s))"
proof (cases op)
  case Do_Heartbeat
  with assms(4) show ?thesis by (auto simp: Service_Heartbeat_def asked_def owned_def intro!: gentle_same)
next
  case (Do_Abandon reason)
  with assms(4) show ?thesis by (auto simp: Service_Abandon_def asked_def owned_def intro!: gentle_same)
qed (use assms in \<open>auto simp: gentle_Start gentle_Stop gentle_Restart gentle_Kill gentle_Tick gentle_Sample
      SetGpuUsage_def Service_Replace_def SetRemoving_def asked_def owned_def intro!: gentle_same\<close>)

text \<open>The manager: its invariants, and every stopping service has asked.\<close>

definition obliging :: "'w \<times> Manager \<Rightarrow> bool" where
  "obliging wm \<longleftrightarrow> manager_inv (snd wm) \<and> owns wm \<and> willing (fst wm)
     \<and> (\<forall>s \<in> set (mg_services (snd wm)). asked (fst wm, s))"

lemma obliging_cstep:
  assumes "cstep L now normal_call wm wm'" and "obliging wm"
  shows "obliging wm'"
proof -
  from assms(1) obtain i op where wm': "wm' = on_service i (perform L now op) wm"
    and i: "i < length (mg_services (snd wm))" by (auto elim: cstepE)
  obtain w m where wm: "wm = (w, m)" by fastforce
  define s where "s = mg_services m ! i"
  obtain w' s' where p: "perform L now op (w, s) = (w', s')" by (rule prod.exhaust)
  have s: "s \<in> set (mg_services m)" using i wm by (simp add: s_def)
  have own: "owned u \<subseteq> live w" if "u \<in> set (mg_services m)" for u
    using assms(2) wm that by (intro owns_live) (auto simp: obliging_def)
  have "service_inv s" "willing w" "asked (w, s)"
    using assms(2) s wm by (auto simp: obliging_def manager_inv_def)
  from gentle_perform [OF this(1,2) own [OF s] this(3), of now op] p
  have g: "keeps (live w - owned s) w w'" "asked (w', s')" by (simp_all add: gentle_def)
  have "asked (w', u)" if "u \<in> set (mg_services (snd wm'))" for u
  proof -
    from that obtain j where j: "j < length (mg_services m)" "u = (mg_services m)[i := s'] ! j"
      using p wm by (auto simp: wm' on_service_def s_def in_set_conv_nth)
    show ?thesis
    proof (cases "j = i")
      case True
      with j g(2) show ?thesis by simp
    next
      case False
      have "distinct (children m)" using assms(2) wm by (simp add: obliging_def owns_def)
      from owned_disjoint [OF this j(1) _ False] i wm
      have "owned (mg_services m ! j) \<inter> owned s = {}" by (simp add: s_def)
      moreover have "asked (w, mg_services m ! j)" using assms(2) j(1) wm by (simp add: obliging_def)
      ultimately show ?thesis
        using g(1) own [of "mg_services m ! j"] j False by (auto simp: asked_def kept_def)
    qed
  qed
  moreover have "fst wm' = w'" using p wm by (simp add: wm' on_service_def s_def)
  moreover have "willing w'" using g(1) \<open>willing w\<close> by (simp add: kept_def)
  ultimately show ?thesis
    using manager_inv_cstep [OF assms(1)] owns_cstep [OF assms(1)] assms(2) by (simp add: obliging_def)
qed

lemma obliging_mstep:
  assumes "mstep L now normal_call wm wm'" and "obliging wm"
  shows "obliging wm'"
proof -
  have inv: "manager_inv (snd wm')" "owns wm'"
    using assms manager_inv_mstep [OF assms(1)] owns_mstep [OF assms(1)] by (simp_all add: obliging_def)
  from assms inv show ?thesis
  proof (induction rule: mstep.induct)
    case (call wm wm')
    then show ?case by (blast intro: obliging_cstep)
  next
    case (add config m w)
    then show ?case by (auto simp: obliging_def asked_def new_Service_def)
  next
    case (remove w m)
    then show ?case by (auto simp: obliging_def remove_finished_def split: if_splits)
  next
    case (shut w m)
    then show ?case by (simp add: obliging_def)
  qed
qed

lemma obliging_msteps: "msteps L now normal_call wm wm' \<Longrightarrow> obliging wm \<Longrightarrow> obliging wm'"
  by (induction rule: rtranclp_induct) (auto intro: obliging_mstep)

lemma obliging_run_op:
  assumes "op_allowed op (snd wm)" and "obliging wm"
  shows "obliging (run_op L now op wm)"
proof (cases "op = Op_TakeRemoved")
  case True
  with assms(2) show ?thesis by (simp add: obliging_def manager_inv_def owns_def children_def)
next
  case False
  with assms show ?thesis by (blast intro: obliging_msteps run_op_steps)
qed

lemma obliging_Load:
  assumes "live w = {}" and "willing w" and "distinct (map sc_name configs)"
  shows "obliging (w, Manager_Load configs (new_Manager env))"
proof -
  have "list_all (\<lambda>s. sv_state s = Stopped) (mg_services (Manager_Load configs (new_Manager env)))"
    by (simp add: Manager_Load_def new_Service_def list_all_iff)
  then show ?thesis
    using assms manager_inv_Load [OF assms(3), of "new_Manager env"]
    by (auto simp: obliging_def owns_def children_Load asked_def list_all_iff)
qed

end

end
