(* ===== verification/Shutdown_Progress.thy ===== *)
theory Shutdown_Progress
  imports Manager_Shutdown Config_Validate
begin

text \<open>
  Progress of a shutdown (\<open>ServiceManager::StopAll\<close> and \<open>Tick\<close>). The burden of the manager counts
  two for every service that is up and one for every service that is stopping; a tick of the
  shutdown never raises it and, under \<open>obedient_launcher\<close> with acyclic dependencies, lowers it
  until no service is left. \<open>StopAll\<close> itself is described service by service.
\<close>

section \<open>Loops that touch one service at a time\<close>

lemma fold_at:
  fixes S :: "'s \<Rightarrow> nat \<Rightarrow> 'a"
  assumes body: "\<And>k v. k < n \<Longrightarrow> I v \<Longrightarrow> I (f k v) \<and> (\<forall>j. j \<noteq> k \<longrightarrow> S (f k v) j = S v j)"
    and "I v" and "i < n"
  shows "\<exists>v'. I v' \<and> S v' i = S v i \<and> S (fold f [0..<n] v) i = S (f i v') i"
proof -
  have run: "I u \<Longrightarrow> set ks \<subseteq> {..<n} \<Longrightarrow> i \<notin> set ks \<Longrightarrow> I (fold f ks u) \<and> S (fold f ks u) i = S u i" for u ks
    by (induction ks arbitrary: u) (use body in auto)
  let ?v = "fold f [0..<i] v"
  have pre: "I ?v \<and> S ?v i = S v i" using assms by (intro run) auto
  then have "I (f i ?v)" using body assms(3) by blast
  then have "S (fold f [Suc i..<n] (f i ?v)) i = S (f i ?v) i"
    using run [of "f i ?v" "[Suc i..<n]"] by (simp add: subset_iff)
  moreover have "[0..<n] = [0..<i] @ i # [Suc i..<n]"
    using assms(3) upt_add_eq_append [of 0 i "n - i"] by (simp add: upt_conv_Cons)
  ultimately show ?thesis using pre by auto
qed

lemma fold_invariant:
  assumes "\<And>k v. k < n \<Longrightarrow> I v \<Longrightarrow> I (f k v)" and "I v"
  shows "I (fold f [0..<n] v)"
proof -
  have "I u \<Longrightarrow> set ks \<subseteq> {..<n} \<Longrightarrow> I (fold f ks u)" for u ks
    by (induction ks arbitrary: u) (use assms(1) in auto)
  then show ?thesis using assms(2) by (simp add: subset_iff)
qed

abbreviation svc_at :: "'w \<times> Manager \<Rightarrow> nat \<Rightarrow> Service" where
  "svc_at wm i \<equiv> mg_services (snd wm) ! i"

lemma on_service_other: "j \<noteq> k \<Longrightarrow> svc_at (on_service k f wm) j = svc_at wm j"
  by (simp add: on_service_def split: prod.splits)

lemma on_service_at:
  "k < length (mg_services (snd wm)) \<Longrightarrow> svc_at (on_service k f wm) k = snd (f (fst wm, svc_at wm k))"
  by (simp add: on_service_def split: prod.splits)

section \<open>What a stop sees of the manager\<close>

definition profile :: "Manager \<Rightarrow> (ServiceConfig \<times> bool) list" where
  "profile m = map (\<lambda>s. (sv_config s, IsAlive (sv_state s))) (mg_services m)"

lemma DependentsStopped_profile:
  "DependentsStopped m s \<longleftrightarrow>
     list_all (\<lambda>(c, alive). \<not> (Service_Name s \<in> set (sc_dependsOn c) \<and> alive)) (profile m)"
  by (simp add: DependentsStopped_def profile_def list_all_iff)

lemma profile_length: "profile m' = profile m \<Longrightarrow> length (mg_services m') = length (mg_services m)"
  unfolding profile_def by (metis length_map)

lemma Stop_alive: "IsAlive (sv_state (snd (snd (Service_Stop L now ws)))) = IsAlive (sv_state (snd ws))"
  by (cases "sv_state (snd ws)") (simp_all add: Service_Stop_def Let_def)

lemma profile_Stop:
  assumes "i < length (mg_services (snd wm))"
  shows "profile (snd (on_service i (perform L now Do_Stop) wm)) = profile (snd wm)"
  using assms setup_Stop [of "(fst wm, svc_at wm i)" L now] Stop_alive [of L now "(fst wm, svc_at wm i)"]
  by (auto simp: profile_def on_service_def map_update same_setup_def list_update_same_conv split: prod.splits)

lemma stop_one_stop:
  "stop_one L now i wm =
     (if sv_state (svc_at wm i) \<noteq> Stopping \<and> sv_state (svc_at wm i) \<noteq> Stopped
         \<and> DependentsStopped (snd wm) (svc_at wm i)
      then on_service i (perform L now Do_Stop) wm else wm)"
  by (simp add: stop_one_def Let_def at_operations)

lemma settle_one_shutting:
  "mg_shuttingDown (snd wm) \<Longrightarrow> settle_one L now i wm = stop_one L now i wm"
  by (simp add: settle_one_def stop_one_def Let_def)

lemma stop_one_profile:
  "i < length (mg_services (snd wm)) \<Longrightarrow> profile (snd (stop_one L now i wm)) = profile (snd wm)"
  by (simp add: stop_one_stop profile_Stop)

lemma stop_one_other: "j \<noteq> i \<Longrightarrow> svc_at (stop_one L now i wm) j = svc_at wm j"
  by (simp add: stop_one_stop on_service_other)

text \<open>The state a stop request leaves.\<close>

definition asked_state :: "bool \<Rightarrow> ServiceState \<Rightarrow> ServiceState" where
  "asked_state free st = (if free then (if IsAlive st then Stopping else Stopped) else st)"

lemma Stop_state:
  "sv_state (snd (snd (Service_Stop L now ws))) = (if IsAlive (sv_state (snd ws)) then Stopping else Stopped)"
  by (cases "sv_state (snd ws)") (simp_all add: Service_Stop_def Let_def)

lemma stop_one_state:
  assumes "i < length (mg_services (snd wm))"
  shows "sv_state (svc_at (stop_one L now i wm) i)
    = asked_state (DependentsStopped (snd wm) (svc_at wm i)) (sv_state (svc_at wm i))"
  using assms by (auto simp: stop_one_stop on_service_at Stop_state asked_state_def)

lemma stop_loop_state:
  fixes wm :: "'w \<times> Manager"
  assumes "i < length (mg_services (snd wm))"
  shows "sv_state (svc_at (fold (stop_one L now) [0..<length (mg_services (snd wm))] wm) i)
    = asked_state (DependentsStopped (snd wm) (svc_at wm i)) (sv_state (svc_at wm i))"
proof -
  let ?n = "length (mg_services (snd wm))"
  let ?I = "\<lambda>v :: 'w \<times> Manager. profile (snd v) = profile (snd wm)"
  have body: "?I (stop_one L now k v) \<and> (\<forall>j. j \<noteq> k \<longrightarrow> svc_at (stop_one L now k v) j = svc_at v j)"
    if "k < ?n" "?I v" for k v
    using that profile_length [OF that(2)] by (simp add: stop_one_profile stop_one_other)
  obtain v where v: "?I v" "svc_at v i = svc_at wm i"
    "svc_at (fold (stop_one L now) [0..<?n] wm) i = svc_at (stop_one L now i v) i"
    using fold_at [where I = ?I and S = svc_at and f = "stop_one L now" and n = ?n, OF body refl assms] by auto
  then show ?thesis
    using stop_one_state [of i v L now] assms profile_length [OF v(1)] by (simp add: DependentsStopped_profile)
qed

lemma StopAll_state:
  assumes "i < length (mg_services (snd wm))"
  shows "sv_state (svc_at (StopAll L now wm) i)
    = asked_state (DependentsStopped (snd wm) (svc_at wm i)) (sv_state (svc_at wm i))"
  using stop_loop_state [of i "(fst wm, (snd wm)\<lparr>mg_shuttingDown := True\<rparr>)" L now] assms
  by (simp add: StopAll_def DependentsStopped_def)

section \<open>The burden\<close>

fun weight :: "ServiceState \<Rightarrow> nat" where
  "weight Starting = 2" | "weight Running = 2" | "weight Unhealthy = 2"
| "weight Stopping = 1"
| "weight Stopped = 0" | "weight Waiting = 0" | "weight Backoff = 0" | "weight Failed = 0"

definition burden :: "Manager \<Rightarrow> nat" where
  "burden m = (\<Sum>s\<leftarrow>mg_services m. weight (sv_state s))"

lemma weight_alive: "weight st = 0 \<longleftrightarrow> \<not> IsAlive st"
  by (cases st) simp_all

lemma weight_up: "weight st = 2 \<longleftrightarrow> IsAlive st \<and> st \<noteq> Stopping"
  by (cases st) simp_all

lemma weight_le: "weight st \<le> 2"
  by (cases st) simp_all

lemma weight_edge: "svc_edge False st st' \<Longrightarrow> weight st' \<le> weight st"
  by (auto simp: svc_edge_simps)

lemma weight_path: "svc_path False st st' \<Longrightarrow> weight st' \<le> weight st"
  by (induction rule: rtranclp_induct) (auto dest: weight_edge intro: le_trans)

lemma burden_nth: "burden m = (\<Sum>i<length (mg_services m). weight (sv_state (mg_services m ! i)))"
  by (simp add: burden_def sum_list_sum_nth atLeast0LessThan)

lemma burden_AllStopped: "burden m = 0 \<longleftrightarrow> AllStopped m"
  by (auto simp: burden_def AllStopped_def list_all_iff weight_alive)

lemma burden_bound: "burden m \<le> 2 * length (mg_services m)"
  unfolding burden_nth using sum_bounded_above [of "{..<length (mg_services m)}" _ "2 :: nat"] weight_le
  by (simp add: mult.commute)

lemma burden_remove [simp]: "burden (remove_finished m) = burden m"
proof -
  have "(\<Sum>s\<leftarrow>filter (\<lambda>s. \<not> finished_removal s) ss. weight (sv_state s)) = (\<Sum>s\<leftarrow>ss. weight (sv_state s))" for ss
    by (induction ss) (auto simp: finished_removal_def weight_alive)
  then show ?thesis by (simp add: burden_def remove_finished_def)
qed

lemma burden_less:
  assumes "length (mg_services m') = length (mg_services m)"
    and "\<And>i. i < length (mg_services m) \<Longrightarrow>
      weight (sv_state (mg_services m' ! i)) \<le> weight (sv_state (mg_services m ! i))"
  shows "burden m' \<le> burden m"
    and "i < length (mg_services m) \<Longrightarrow>
      weight (sv_state (mg_services m' ! i)) < weight (sv_state (mg_services m ! i)) \<Longrightarrow> burden m' < burden m"
proof -
  show "burden m' \<le> burden m" unfolding burden_nth assms(1) using assms(2) by (intro sum_mono) simp
  assume "i < length (mg_services m)"
    and "weight (sv_state (mg_services m' ! i)) < weight (sv_state (mg_services m ! i))"
  then show "burden m' < burden m"
    unfolding burden_nth assms(1) using assms(2) by (intro sum_strict_mono_ex1) auto
qed

section \<open>Dependencies\<close>

definition manager_depends :: "Manager \<Rightarrow> (string \<times> string) set" where
  "manager_depends m = depends_names (map sv_config (mg_services m))"

lemma finite_manager_depends: "finite (manager_depends m)"
proof -
  have "depends_names cs = (\<Union>c \<in> set cs. Pair (sc_name c) ` set (sc_dependsOn c))" for cs
    by (auto simp: depends_names_def)
  then show ?thesis by (simp add: manager_depends_def)
qed

lemma manager_depends_setups: "setups m' = setups m \<Longrightarrow> manager_depends m' = manager_depends m"
proof -
  have "map sv_config (mg_services m) = map fst (setups m)" for m by (simp add: setups_def)
  then show "setups m' = setups m \<Longrightarrow> manager_depends m' = manager_depends m"
    by (simp add: manager_depends_def)
qed

lemma manager_depends_remove: "manager_depends (remove_finished m) \<subseteq> manager_depends m"
  by (auto simp: manager_depends_def depends_names_def remove_finished_def)

text \<open>Among living services some one has no living dependents.\<close>

lemma free_service:
  assumes "acyclic (manager_depends m)" and "\<not> AllStopped m"
  shows "\<exists>i < length (mg_services m). IsAlive (sv_state (mg_services m ! i))
    \<and> DependentsStopped m (mg_services m ! i)"
proof -
  let ?A = "(\<lambda>s. Service_Name s) ` {s \<in> set (mg_services m). IsAlive (sv_state s)}"
  have "wf (manager_depends m)" by (rule finite_acyclic_wf [OF finite_manager_depends assms(1)])
  moreover from assms(2) obtain a where "a \<in> ?A" by (auto simp: AllStopped_def list_all_iff)
  ultimately obtain z where z: "z \<in> ?A" "\<And>y. (y, z) \<in> manager_depends m \<Longrightarrow> y \<notin> ?A"
    by (rule wfE_min) blast
  then obtain i where i: "i < length (mg_services m)" "IsAlive (sv_state (mg_services m ! i))"
    "Service_Name (mg_services m ! i) = z" by (auto simp: in_set_conv_nth)
  have "\<not> (z \<in> set (sc_dependsOn (sv_config other)) \<and> IsAlive (sv_state other))"
    if "other \<in> set (mg_services m)" for other
  proof
    assume a: "z \<in> set (sc_dependsOn (sv_config other)) \<and> IsAlive (sv_state other)"
    then have "(Service_Name other, z) \<in> manager_depends m"
      using that by (force simp: manager_depends_def depends_names_def)
    from z(2) [OF this] a that show False by auto
  qed
  with i show ?thesis by (auto simp: DependentsStopped_def list_all_iff)
qed

section \<open>Progress\<close>

text \<open>A run of calls of the daemon.\<close>

inductive manager_calls :: "'w launcher \<Rightarrow> 'w \<times> Manager \<Rightarrow> 'w \<times> Manager \<Rightarrow> bool" for L wm where
  start: "manager_calls L wm wm"
| call: "manager_calls L wm wm' \<Longrightarrow> op_allowed op (snd wm') \<Longrightarrow> manager_calls L wm (run_op L now op wm')"


context obedient_launcher
begin

definition closing :: "'w \<times> Manager \<Rightarrow> bool" where
  "closing wm \<longleftrightarrow> obliging wm \<and> mg_shuttingDown (snd wm)"

lemma closing_csteps:
  assumes "csteps L now orderly_call wm wm'" and "closing wm"
  shows "closing wm'" and "length (mg_services (snd wm')) = length (mg_services (snd wm))"
proof -
  have n: "csteps L now normal_call wm wm'" by (rule csteps_orderly [OF assms(1)])
  have sh: "shape (snd wm') = shape (snd wm)" by (rule csteps_shape [OF n])
  show "closing wm'"
    using assms(2) obliging_msteps [OF csteps_msteps [OF n]] shape_fields(1) [OF sh] by (simp add: closing_def)
  show "length (mg_services (snd wm')) = length (mg_services (snd wm))" by (rule shape_length [OF sh])
qed

lemma closing_at:
  assumes "closing wm" and "i < length (mg_services (snd wm))"
  shows "service_inv (svc_at wm i)" and "owned (svc_at wm i) \<subseteq> live (fst wm)" and "asked (fst wm, svc_at wm i)"
  using assms owns_live [of "fst wm" "snd wm" "svc_at wm i"]
  by (auto simp: closing_def obliging_def manager_inv_def)

text \<open>A tick of the shutdown reaps a stopping service and raises no weight.\<close>

lemma Tick_reaps:
  assumes "service_inv s" and "owned s \<subseteq> live w" and "asked (w, s)" and "sv_state s = Stopping"
  shows "sv_state (snd (Service_Tick L now False ready (w, s))) = Stopped"
proof -
  obtain h where h: "sv_child s = Some h" using alive_child [OF assms(1)] assms(4) by auto
  with assms(2) have "h \<in> live w" by (simp add: owned_def)
  moreover have "gone h w" using assms(3,4) h by (simp add: asked_def)
  ultimately have "fst (l_Poll L h w) \<noteq> None" by (rule gone_poll)
  then obtain status w1 where "l_Poll L h w = (Some status, w1)" by (cases "l_Poll L h w") auto
  with h assms(4) show ?thesis
    by (simp add: Service_Tick_def poll_child_def HandleExit_unfold Let_def tick_state_def)
qed

lemma tick_one_at:
  assumes "closing wm" and "i < length (mg_services (snd wm))"
  shows "weight (sv_state (svc_at (tick_one L now i wm) i)) \<le> weight (sv_state (svc_at wm i))"
    and "sv_state (svc_at wm i) = Stopping \<Longrightarrow> weight (sv_state (svc_at (tick_one L now i wm) i)) = 0"
proof -
  let ?ready = "DependenciesRunning (snd wm) (svc_at wm i)"
  have at: "svc_at (tick_one L now i wm) i = snd (Service_Tick L now False ?ready (fst wm, svc_at wm i))"
    using assms by (simp add: tick_one_def on_service_at closing_def)
  note c = closing_at [OF assms]
  from path_Tick [OF c(1), of False ?ready L now "fst wm"]
  show "weight (sv_state (svc_at (tick_one L now i wm) i)) \<le> weight (sv_state (svc_at wm i))"
    unfolding at by (intro weight_path) simp
  show "weight (sv_state (svc_at (tick_one L now i wm) i)) = 0" if "sv_state (svc_at wm i) = Stopping"
    unfolding at using Tick_reaps [OF c that] by simp
qed

lemma tick_loop_at:
  assumes "closing wm" and "i < length (mg_services (snd wm))"
    and "wm1 = fold (tick_one L now) [0..<length (mg_services (snd wm))] wm"
  shows "weight (sv_state (svc_at wm1 i)) \<le> weight (sv_state (svc_at wm i))"
    and "sv_state (svc_at wm i) = Stopping \<Longrightarrow> weight (sv_state (svc_at wm1 i)) = 0"
proof -
  let ?n = "length (mg_services (snd wm))"
  let ?I = "\<lambda>v. closing v \<and> length (mg_services (snd v)) = ?n"
  have body: "?I (tick_one L now k v) \<and> (\<forall>j. j \<noteq> k \<longrightarrow> svc_at (tick_one L now k v) j = svc_at v j)"
    if "k < ?n" "?I v" for k v
    using that closing_csteps [OF tick_one_steps [of k v L now]]
    by (auto simp: tick_one_def on_service_other)
  have start: "?I wm" using assms(1) by simp
  obtain v where v: "?I v" "svc_at v i = svc_at wm i" "svc_at wm1 i = svc_at (tick_one L now i v) i"
    using fold_at [where I = ?I and S = svc_at and f = "tick_one L now" and n = ?n, OF body start assms(2)]
      assms(3) by auto
  have cv: "closing v" "i < length (mg_services (snd v))" using v(1) assms(2) by simp_all
  show "weight (sv_state (svc_at wm1 i)) \<le> weight (sv_state (svc_at wm i))"
    and "sv_state (svc_at wm i) = Stopping \<Longrightarrow> weight (sv_state (svc_at wm1 i)) = 0"
    using tick_one_at [OF cv, of now] v(2,3) by simp_all
qed

lemma tick_loops_at:
  assumes "closing wm" and "wm1 = fold (tick_one L now) [0..<length (mg_services (snd wm))] wm"
    and "wm2 = fold (settle_one L now) [0..<length (mg_services (snd wm))] wm1"
    and "i < length (mg_services (snd wm))"
  shows "sv_state (svc_at wm2 i)
    = asked_state (DependentsStopped (snd wm1) (svc_at wm1 i)) (sv_state (svc_at wm1 i))"
proof -
  have steps: "csteps L now orderly_call wm wm1"
    unfolding assms(2) by (intro fold_orderly tick_one_steps) auto
  have c1: "closing wm1" "length (mg_services (snd wm1)) = length (mg_services (snd wm))"
    using closing_csteps [OF steps assms(1)] by simp_all
  let ?n = "length (mg_services (snd wm))"
  have "fold (settle_one L now) ks v = fold (stop_one L now) ks v"
    if "closing v" "set ks \<subseteq> {..<length (mg_services (snd v))}" for ks v
    using that
  proof (induction ks arbitrary: v)
    case (Cons k ks)
    have eq: "settle_one L now k v = stop_one L now k v"
      using Cons.prems(1) by (simp add: closing_def settle_one_shutting)
    have "closing (stop_one L now k v)"
      and "length (mg_services (snd (stop_one L now k v))) = length (mg_services (snd v))"
      using closing_csteps [OF stop_one_steps [of k v L now] Cons.prems(1)] Cons.prems(2) by simp_all
    with Cons eq show ?case by simp
  qed simp
  with c1 assms(3) have "wm2 = fold (stop_one L now) [0..<?n] wm1" by (simp add: subset_iff)
  then show ?thesis using stop_loop_state [of i wm1 L now] assms(4) c1(2) by simp
qed

lemma asked_weight: "weight (asked_state free st) \<le> weight st"
  by (cases st) (simp_all add: asked_state_def)

lemma tick_progress:
  fixes wm :: "'w \<times> Manager"
  assumes "closing wm" and "acyclic (manager_depends (snd wm))" and "burden (snd wm) \<noteq> 0"
  shows "burden (snd (Manager_Tick L now wm)) < burden (snd wm)"
proof -
  let ?n = "length (mg_services (snd wm))"
  define wm1 where "wm1 = fold (tick_one L now) [0..<?n] wm"
  define wm2 where "wm2 = fold (settle_one L now) [0..<?n] wm1"
  have st1: "csteps L now orderly_call wm wm1"
    unfolding wm1_def by (intro fold_orderly tick_one_steps) auto
  have st2: "csteps L now orderly_call wm wm2"
    unfolding wm2_def wm1_def by (rule tick_loops_steps)
  have len: "length (mg_services (snd wm1)) = ?n" "length (mg_services (snd wm2)) = ?n"
    using closing_csteps(2) [OF st1 assms(1)] closing_csteps(2) [OF st2 assms(1)] by simp_all
  note one = tick_loop_at [OF assms(1) _ wm1_def]
  note two = tick_loops_at [OF assms(1) wm1_def wm2_def]
  have le: "weight (sv_state (svc_at wm2 i)) \<le> weight (sv_state (svc_at wm1 i))" if "i < ?n" for i
    using two [OF that] asked_weight by simp
  have less: "\<exists>i < ?n. weight (sv_state (svc_at wm2 i)) < weight (sv_state (svc_at wm i))"
  proof (cases "\<forall>i < ?n. sv_state (svc_at wm1 i) \<noteq> Stopping
      \<and> weight (sv_state (svc_at wm1 i)) = weight (sv_state (svc_at wm i))")
    case False
    then obtain i where i: "i < ?n" "sv_state (svc_at wm1 i) = Stopping
        \<or> weight (sv_state (svc_at wm1 i)) \<noteq> weight (sv_state (svc_at wm i))" by blast
    have "weight (sv_state (svc_at wm1 i)) < weight (sv_state (svc_at wm i))"
    proof (cases "sv_state (svc_at wm1 i) = Stopping")
      case True
      with one [OF i(1)] have "weight (sv_state (svc_at wm i)) \<noteq> 1"
        by (cases "sv_state (svc_at wm i)") auto
      with True one(1) [OF i(1)] show ?thesis by simp
    next
      case False
      with i one(1) [OF i(1)] show ?thesis by simp
    qed
    with le [OF i(1)] i(1) show ?thesis by fastforce
  next
    case True
    have "burden (snd wm1) = burden (snd wm)" using True len(1) by (simp add: burden_nth)
    with assms(3) have "\<not> AllStopped (snd wm1)" by (simp add: burden_AllStopped [symmetric])
    moreover have "manager_depends (snd wm1) = manager_depends (snd wm)"
      by (rule manager_depends_setups [OF plain_setups [OF csteps_mono [OF st1 orderly_plain]]])
    ultimately obtain i where i: "i < ?n" "IsAlive (sv_state (svc_at wm1 i))"
      "DependentsStopped (snd wm1) (svc_at wm1 i)"
      using free_service [of "snd wm1"] assms(2) len(1) by auto
    have "sv_state (svc_at wm1 i) \<noteq> Stopping" using True i(1) by blast
    with i(2) have "weight (sv_state (svc_at wm1 i)) = 2" unfolding weight_up by blast
    moreover have "sv_state (svc_at wm2 i) = Stopping" using two [OF i(1)] i by (simp add: asked_state_def)
    ultimately have "weight (sv_state (svc_at wm2 i)) < weight (sv_state (svc_at wm i))" using True i(1) by simp
    with i(1) show ?thesis by blast
  qed
  have "burden (snd wm2) < burden (snd wm)"
  proof -
    from less obtain i where "i < ?n" "weight (sv_state (svc_at wm2 i)) < weight (sv_state (svc_at wm i))" by blast
    then show ?thesis
      using le one(1) by (intro burden_less(2) [OF len(2), of i]) (auto intro: le_trans)
  qed
  then show ?thesis by (simp add: Manager_Tick_def Let_def wm1_def wm2_def)
qed

lemma burden_tick:
  assumes "closing wm"
  shows "burden (snd (Manager_Tick L now wm)) \<le> burden (snd wm)"
proof -
  let ?n = "length (mg_services (snd wm))"
  define wm1 where "wm1 = fold (tick_one L now) [0..<?n] wm"
  define wm2 where "wm2 = fold (settle_one L now) [0..<?n] wm1"
  have "csteps L now orderly_call wm wm2" unfolding wm2_def wm1_def by (rule tick_loops_steps)
  then have len: "length (mg_services (snd wm2)) = ?n" using closing_csteps(2) assms by blast
  have "weight (sv_state (svc_at wm2 i)) \<le> weight (sv_state (svc_at wm i))" if "i < ?n" for i
    using tick_loops_at [OF assms wm1_def wm2_def that] tick_loop_at(1) [OF assms that wm1_def]
      asked_weight le_trans by metis
  then have "burden (snd wm2) \<le> burden (snd wm)" by (rule burden_less(1) [OF len])
  then show ?thesis by (simp add: Manager_Tick_def Let_def wm1_def wm2_def)
qed

lemma tick_closing:
  assumes "closing wm" and "acyclic (manager_depends (snd wm))"
  shows "closing (Manager_Tick L now wm)" and "acyclic (manager_depends (snd (Manager_Tick L now wm)))"
proof -
  have m: "msteps L now normal_call wm (Manager_Tick L now wm)" by (rule msteps_orderly [OF Manager_Tick_steps])
  show "closing (Manager_Tick L now wm)"
    using assms(1) obliging_msteps [OF m] msteps_shutting [OF m] by (simp add: closing_def)
  let ?v = "fold (settle_one L now) [0..<length (mg_services (snd wm))]
     (fold (tick_one L now) [0..<length (mg_services (snd wm))] wm)"
  have "manager_depends (snd ?v) = manager_depends (snd wm)"
    by (rule manager_depends_setups [OF plain_setups [OF csteps_mono [OF tick_loops_steps orderly_plain]]])
  then have "manager_depends (snd (Manager_Tick L now wm)) \<subseteq> manager_depends (snd wm)"
    using manager_depends_remove [of "snd ?v"] by (simp add: Manager_Tick_def Let_def)
  with assms(2) show "acyclic (manager_depends (snd (Manager_Tick L now wm)))" by (rule acyclic_subset)
qed

lemma ticks_stop_all:
  "closing wm \<Longrightarrow> acyclic (manager_depends (snd wm)) \<Longrightarrow> burden (snd wm) \<le> length nows \<Longrightarrow>
   AllStopped (snd (fold (Manager_Tick L) nows wm))"
proof (induction nows arbitrary: wm)
  case (Cons now nows)
  have "burden (snd (Manager_Tick L now wm)) \<le> length nows"
    using tick_progress [OF Cons.prems(1,2), of now] burden_tick [OF Cons.prems(1), of now] Cons.prems(3)
    by (cases "burden (snd wm) = 0") auto
  with Cons.IH [OF tick_closing [OF Cons.prems(1,2)]] show ?case by simp
qed (simp add: burden_AllStopped)

lemma StopAll_closing:
  assumes "obliging wm" and "acyclic (manager_depends (snd wm))"
  shows "closing (StopAll L now wm)" and "acyclic (manager_depends (snd (StopAll L now wm)))"
    and "length (mg_services (snd (StopAll L now wm))) = length (mg_services (snd wm))"
proof -
  let ?m = "(fst wm, (snd wm)\<lparr>mg_shuttingDown := True\<rparr>)"
  have c: "csteps L now orderly_call ?m (StopAll L now wm)"
    unfolding StopAll_def by (intro fold_orderly stop_one_steps) auto
  have m: "closing ?m"
    using assms(1) by (simp add: closing_def obliging_def manager_inv_def owns_def children_def)
  show "closing (StopAll L now wm)" by (rule closing_csteps(1) [OF c m])
  show "length (mg_services (snd (StopAll L now wm))) = length (mg_services (snd wm))"
    using closing_csteps(2) [OF c m] by simp
  have "manager_depends (snd (StopAll L now wm)) = manager_depends (snd ?m)"
    by (rule manager_depends_setups [OF plain_setups [OF csteps_mono [OF c orderly_plain]]])
  with assms(2) show "acyclic (manager_depends (snd (StopAll L now wm)))" by (simp add: manager_depends_def)
qed

lemma shutdown_ends:
  assumes "obliging wm" and "acyclic (manager_depends (snd wm))"
    and "2 * length (mg_services (snd wm)) \<le> length nows"
  shows "AllStopped (snd (fold (Manager_Tick L) nows (StopAll L now wm)))"
  using ticks_stop_all [OF StopAll_closing(1,2) [OF assms(1,2)]] StopAll_closing(3) [OF assms(1,2), of now]
    burden_bound [of "snd (StopAll L now wm)"] assms(3) by simp

lemma obliging_calls: "manager_calls L wm wm' \<Longrightarrow> obliging wm \<Longrightarrow> obliging wm'"
  by (induction rule: manager_calls.induct) (auto intro: obliging_run_op)

end

end
