(* ===== verification/Launch_Order.thy ===== *)
theory Launch_Order
  imports Shutdown_Progress
begin

text \<open>
  When the manager launches a program (\<open>ServiceManager.cpp\<close>). A call of the manager passes through
  \<open>stages\<close>: the states between the turns of its loops over the services. The programs that appear
  from one stage to the next belong to services whose dependencies all run (\<open>stages_guarded\<close>).
\<close>

section \<open>Stages\<close>

text \<open>A service of the later state with a child object that the earlier state does not know.\<close>

definition launched :: "('w \<Rightarrow> handle set) \<Rightarrow> 'w \<times> Manager \<Rightarrow> 'w \<times> Manager \<Rightarrow> Service \<Rightarrow> bool" where
  "launched live y z s \<longleftrightarrow> s \<in> set (mg_services (snd z)) \<and> (\<exists>h. sv_child s = Some h \<and> h \<notin> live (fst y))"

definition guarded :: "('w \<Rightarrow> handle set) \<Rightarrow> 'w \<times> Manager \<Rightarrow> 'w \<times> Manager \<Rightarrow> bool" where
  "guarded live y z \<longleftrightarrow>
     (\<forall>s. launched live y z s \<longrightarrow> \<not> mg_shuttingDown (snd y) \<and> DependenciesRunning (snd y) s)"

text \<open>The states before, between and after the turns of a loop.\<close>

definition turns :: "(nat \<Rightarrow> 'a \<Rightarrow> 'a) \<Rightarrow> nat \<Rightarrow> 'a \<Rightarrow> 'a list" where
  "turns f n x = map (\<lambda>k. fold f [0..<k] x) [0..<Suc n]"

definition command_stages ::
  "'w launcher \<Rightarrow> Instant \<Rightarrow> CommandCode \<Rightarrow> CommandMessage \<Rightarrow> 'w \<times> Manager \<Rightarrow> ('w \<times> Manager) list" where
  "command_stages L now code msg wm =
     (if cm_serviceName msg = all_services \<and> code \<noteq> CC_Reload \<and> code \<noteq> CC_Heartbeat \<and> \<not> mg_shuttingDown (snd wm)
      then map (\<lambda>(acted, failed, started, wm). wm)
             (turns (execute_all_step L code now) (length (mg_services (snd wm))) (0, 0, [], wm))
      else [wm, snd (Execute L msg now wm)])"

definition unlisted_stopped ::
  "'w launcher \<Rightarrow> Instant \<Rightarrow> ServiceConfig list \<Rightarrow> 'w \<times> Manager \<Rightarrow> 'w \<times> Manager" where
  "unlisted_stopped L now configs wm =
     (case fold apply_config configs (\<lparr>rs_added = 0, rs_removed = 0, rs_changed = 0\<rparr>, [], snd wm) of
        (summary, added, m) \<Rightarrow>
          snd (fold (drop_unlisted L now configs) [0..<length (mg_services m)] (summary, fst wm, m)))"

fun stages :: "'w launcher \<Rightarrow> Instant \<Rightarrow> manager_op \<Rightarrow> 'w \<times> Manager \<Rightarrow> ('w \<times> Manager) list" where
  "stages L now Op_Tick wm =
     (let n = length (mg_services (snd wm)); ticked = turns (tick_one L now) n wm
      in ticked @ turns (settle_one L now) n (last ticked) @ [Manager_Tick L now wm])"
| "stages L now (Op_Execute msg) wm =
     (case CommandCodeFromByte (cm_command msg) of
        None \<Rightarrow> [wm, snd (Execute L msg now wm)]
      | Some code \<Rightarrow> command_stages L now code msg wm)"
| "stages L now (Op_Apply configs) wm = [wm, unlisted_stopped L now configs wm, run_op L now (Op_Apply configs) wm]"
| "stages L now op wm = [wm, run_op L now op wm]"

lemma turns_nth: "k \<le> n \<Longrightarrow> turns f n x ! k = fold f [0..<k] x"
  unfolding turns_def by (subst nth_map) (simp_all del: upt_Suc)

lemma length_turns [simp]: "length (turns f n x) = Suc n"
  by (simp add: turns_def)

lemma turns_ends [simp]: "turns f n x \<noteq> []" "hd (turns f n x) = x" "last (turns f n x) = fold f [0..<n] x"
proof -
  show some: "turns f n x \<noteq> []" by (simp flip: length_0_conv)
  show "hd (turns f n x) = x" by (simp add: hd_conv_nth some turns_nth)
  show "last (turns f n x) = fold f [0..<n] x" by (simp add: last_conv_nth some turns_nth)
qed

lemma successively_turns:
  assumes "\<And>k. k < n \<Longrightarrow> R (fold f [0..<k] x) (f k (fold f [0..<k] x))"
  shows "successively R (turns f n x)"
  unfolding successively_conv_nth
proof (intro allI impI)
  fix k assume "Suc k < length (turns f n x)"
  then have "k < n" by simp
  with assms [OF this] show "R (turns f n x ! k) (turns f n x ! Suc k)" by (simp add: turns_nth)
qed

section \<open>Who runs while services are started\<close>

definition runs :: "Manager \<Rightarrow> (string \<times> bool) list" where
  "runs m = map (\<lambda>s. (Service_Name s, sv_state s = Running)) (mg_services m)"

lemma DependenciesRunning_runs:
  "DependenciesRunning m s \<longleftrightarrow> list_all (\<lambda>d. map_of (runs m) d = Some True) (sc_dependsOn (sv_config s))"
proof -
  have "(case find (\<lambda>s. Service_Name s = d) ss of None \<Rightarrow> False | Some other \<Rightarrow> sv_state other = Running)
      = (map_of (map (\<lambda>s. (Service_Name s, sv_state s = Running)) ss) d = Some True)" for d ss
    by (induction ss) auto
  then show ?thesis by (simp add: DependenciesRunning_def Manager_Find_def runs_def)
qed

text \<open>The readiness the manager computes, in terms of the services.\<close>

lemma DependenciesRunning_met:
  assumes "DependenciesRunning m s" and "d \<in> set (sc_dependsOn (sv_config s))"
  shows "\<exists>t \<in> set (mg_services m). Service_Name t = d \<and> sv_state t = Running"
proof -
  from assms have "map_of (runs m) d = Some True" by (simp add: DependenciesRunning_runs list_all_iff)
  then have "(d, True) \<in> set (runs m)" by (rule map_of_SomeD)
  then show ?thesis by (auto simp: runs_def)
qed

lemma Start_runs: "sv_state (snd (snd (Service_Start L now ready (w, s)))) = Running \<longleftrightarrow> sv_state s = Running"
  using Start_next [of L now ready w s]
  by (auto simp: start_states_def launch_states_def policy_states_def split: if_splits)

section \<open>Which calls change the child\<close>

lemma Relaunch_child [simp]: "sv_child (snd (Relaunch L now False ws)) = sv_child (snd ws)"
  by (simp add: Relaunch_def)

lemma HandleExit_child:
  assumes "\<not> (allowed \<and> ready)"
  shows "sv_child (snd (HandleExit L now status allowed ready (w, s))) = None"
  using assms by (cases allowed) (simp_all add: HandleExit_unfold Let_def)

lemma CheckHeartbeat_child: "sv_child (snd (CheckHeartbeat L now ws)) = sv_child (snd ws)"
  by (simp add: CheckHeartbeat_def Let_def)

lemma tick_state_child:
  assumes "\<not> (allowed \<and> ready)"
  shows "sv_child (snd (tick_state L now allowed ready ws)) = sv_child (snd ws)"
  using assms
  by (cases "sv_state (snd ws)"; cases allowed)
    (simp_all add: tick_state_def child_call_def CheckHeartbeat_child Let_def split: option.split)

lemma poll_child_child:
  assumes "\<not> (allowed \<and> ready)"
  shows "sv_child (snd (poll_child L now allowed ready (w, s))) \<in> {None, sv_child s}"
  by (auto simp: poll_child_def HandleExit_child [OF assms] split: option.split prod.split)

lemma Tick_child:
  assumes "\<not> (allowed \<and> ready)"
  shows "sv_child (snd (Service_Tick L now allowed ready (w, s))) \<in> {None, sv_child s}"
  using poll_child_child [OF assms, of L now w s] by (simp add: Service_Tick_def tick_state_child [OF assms])

lemma Start_child: "sv_child (snd (snd (Service_Start L now False (w, s)))) = sv_child s"
  by (cases "sv_state s") (simp_all add: Service_Start_def Let_def)

lemma Restart_child: "sv_child (snd (snd (Service_Restart L now False (w, s)))) = sv_child s"
  by (cases "sv_state s") (simp_all add: Service_Restart_def Start_child Let_def)

lemma Stop_child: "sv_child (snd (snd (Service_Stop L now (w, s)))) = sv_child s"
  by (cases "sv_state s") (simp_all add: Service_Stop_def Let_def)

lemma perform_child:
  assumes "\<not> may_launch op"
  shows "sv_child (snd (perform L now op (w, s))) \<in> {None, sv_child s}"
proof (cases op)
  case (Do_Tick allowed ready)
  with assms Tick_child [of allowed ready L now w s] show ?thesis by simp
next
  case Do_Kill
  then show ?thesis by (simp add: Service_Kill_def Let_def split: option.split)
next
  case (Do_Sample table)
  then show ?thesis by (simp add: Service_Sample_def Let_def split: option.split prod.split)
qed (use assms in \<open>simp_all add: Start_child Restart_child Stop_child Service_Heartbeat_def Service_Abandon_def
       SetGpuUsage_def Service_Replace_def SetRemoving_def\<close>)

section \<open>Launches with running dependencies\<close>

text \<open>
  \<open>launches_ok y z\<close>: a service that has another child object in \<open>z\<close> than in \<open>y\<close> has dependencies that
  all run in \<open>y\<close>, and \<open>y\<close> is not shutting down.
\<close>

definition launches_ok :: "'w \<times> Manager \<Rightarrow> 'w \<times> Manager \<Rightarrow> bool" where
  "launches_ok y z \<longleftrightarrow> length (mg_services (snd z)) = length (mg_services (snd y))
     \<and> (\<forall>j < length (mg_services (snd y)). sv_child (svc_at z j) \<in> {None, sv_child (svc_at y j)}
          \<or> \<not> mg_shuttingDown (snd y) \<and> DependenciesRunning (snd y) (svc_at z j))"

lemma launches_ok_refl: "launches_ok y y"
  by (simp add: launches_ok_def)

lemma DependenciesRunning_same:
  "runs m' = runs m \<Longrightarrow> sv_config s' = sv_config s \<Longrightarrow> DependenciesRunning m' s' = DependenciesRunning m s"
  by (simp add: DependenciesRunning_runs)

lemma length_on_service [simp]:
  "length (mg_services (snd (on_service i f wm))) = length (mg_services (snd wm))"
  by (simp add: on_service_def split: prod.split)

text \<open>After starts, the same services run with the same configurations; one more call may follow.\<close>

lemma launches_ok_call:
  assumes ok: "launches_ok y x" and same: "runs (snd x) = runs (snd y)" "setups (snd x) = setups (snd y)"
    and i: "i < length (mg_services (snd x))" and op: "keeps_setup op"
    and may: "may_launch op \<Longrightarrow> \<not> mg_shuttingDown (snd y) \<and> DependenciesRunning (snd x) (svc_at x i)"
  shows "launches_ok y (on_service i (perform L now op) x)"
  unfolding launches_ok_def
proof (intro conjI allI impI)
  let ?z = "on_service i (perform L now op) x"
  have len: "length (mg_services (snd x)) = length (mg_services (snd y))" using ok by (simp add: launches_ok_def)
  then show "length (mg_services (snd ?z)) = length (mg_services (snd y))" by simp
  fix j assume j: "j < length (mg_services (snd y))"
  note old = ok [unfolded launches_ok_def, THEN conjunct2, rule_format, OF j]
  show "sv_child (svc_at ?z j) \<in> {None, sv_child (svc_at y j)}
      \<or> \<not> mg_shuttingDown (snd y) \<and> DependenciesRunning (snd y) (svc_at ?z j)"
  proof (cases "j = i")
    case False
    with old show ?thesis by (simp add: on_service_other)
  next
    case True
    have z: "svc_at ?z i = snd (perform L now op (fst x, svc_at x i))" using i by (rule on_service_at)
    have c: "sv_config (svc_at ?z i) = sv_config (svc_at x i)"
      using setup_perform [OF op, of "svc_at x i" L now "fst x"] z by (simp add: same_setup_def)
    then have dep: "DependenciesRunning (snd y) (svc_at ?z i) = DependenciesRunning (snd x) (svc_at x i)"
      "DependenciesRunning (snd y) (svc_at ?z i) = DependenciesRunning (snd y) (svc_at x i)"
      using same(1) by (simp_all add: DependenciesRunning_runs)
    show ?thesis
    proof (cases "may_launch op")
      case may_launch: True
      with may dep(1) True show ?thesis by simp
    next
      case False
      with perform_child [OF False, of L now "fst x" "svc_at x i"] z old True dep(2) show ?thesis by auto
    qed
  qed
qed

lemmas single_call = launches_ok_call [OF launches_ok_refl refl refl]

lemma start_runs:
  assumes "i < length (mg_services (snd wm))"
  shows "runs (snd (on_service i (perform L now (Do_Start ready)) wm)) = runs (snd wm)"
proof -
  obtain w' s' where p: "perform L now (Do_Start ready) (fst wm, svc_at wm i) = (w', s')" by (rule prod.exhaust)
  have "sv_state s' = Running \<longleftrightarrow> sv_state (svc_at wm i) = Running"
    using Start_runs [of L now ready "fst wm" "svc_at wm i"] p by simp
  moreover have "Service_Name s' = Service_Name (svc_at wm i)"
    using setup_perform [of "Do_Start ready" "svc_at wm i" L now "fst wm"] p by (simp add: same_setup_def)
  ultimately show ?thesis
    using assms p by (simp add: runs_def on_service_def map_update list_update_same_conv)
qed

lemma start_path:
  assumes "csteps L now start_call y z"
  shows "launches_ok y z \<and> runs (snd z) = runs (snd y)"
  using assms
proof (induction rule: rtranclp_induct)
  case base
  then show ?case by (simp add: launches_ok_refl)
next
  case (step x z)
  from step.hyps(2) obtain i where i: "i < length (mg_services (snd x))" "\<not> mg_shuttingDown (snd x)"
    and z: "z = on_service i (perform L now (Do_Start (DependenciesRunning (snd x) (svc_at x i)))) x"
    by (auto elim!: cstepE simp: start_call_def)
  have plain: "csteps L now plain_call y x" by (rule csteps_started [OF step.hyps(1)])
  have "launches_ok y z"
    unfolding z using step.IH plain_setups [OF plain] i shape_fields(1) [OF plain_shape [OF plain]]
    by (intro launches_ok_call) auto
  with step.IH z start_runs [OF i(1)] show ?case by simp
qed

section \<open>The operations\<close>

lemma StartWithDependencies_ok:
  assumes "\<not> mg_shuttingDown (snd wm)" and "i < length (mg_services (snd wm))"
    and "StartWithDependencies L now i restart started wm = (r, started', wm')"
  shows "launches_ok wm wm'"
proof -
  from StartWithDependencies_split [OF assms] obtain wm1 where s1: "csteps L now start_call wm wm1"
    and sh: "shape (snd wm1) = shape (snd wm)"
    and wm': "wm' = on_service i (perform L now
        ((if restart then Do_Restart else Do_Start) (DependenciesRunning (snd wm1) (svc_at wm1 i)))) wm1"
    by blast
  show ?thesis
    unfolding wm' using start_path [OF s1] plain_setups [OF csteps_started [OF s1]] assms(1,2) shape_length [OF sh]
    by (intro launches_ok_call) (auto split: if_splits)
qed

lemma ExecuteOne_ok:
  assumes "\<not> mg_shuttingDown (snd wm) \<or> code = CC_Heartbeat" and "i < length (mg_services (snd wm))"
    and "ExecuteOne L code now i started wm = (r, started', wm')"
  shows "launches_ok wm wm'"
proof (cases code)
  case CC_Stop
  then have "wm' = on_service i (perform L now Do_Stop) wm"
    using assms(3) at_Stop [of i L now wm] by (auto simp: ExecuteOne_def split: prod.splits)
  with assms(2) show ?thesis by (auto intro!: single_call)
next
  case CC_Heartbeat
  then have "wm' = on_service i (perform L now Do_Heartbeat) wm"
    using assms(3) at_Heartbeat [of i now wm L] by (auto simp: ExecuteOne_def split: prod.splits)
  with assms(2) show ?thesis by (auto intro!: single_call)
qed (use assms in \<open>auto simp: ExecuteOne_def launches_ok_refl intro: StartWithDependencies_ok\<close>)

lemma tick_one_ok: "i < length (mg_services (snd wm)) \<Longrightarrow> launches_ok wm (tick_one L now i wm)"
  unfolding tick_one_perform by (intro single_call) auto

lemma settle_one_ok:
  assumes "i < length (mg_services (snd wm))"
  shows "launches_ok wm (settle_one L now i wm)"
  unfolding settle_one_def Let_def at_operations on_Abandon [of i _ wm L now]
  using assms by (auto intro!: single_call launches_ok_refl split: option.split)

text \<open>A command for one service, or one that is refused.\<close>

lemma Execute_one_ok:
  assumes "\<not> (cm_serviceName msg = all_services \<and> code \<noteq> CC_Reload \<and> code \<noteq> CC_Heartbeat \<and> \<not> mg_shuttingDown (snd wm))"
    and code: "CommandCodeFromByte (cm_command msg) = Some code"
  shows "launches_ok wm (snd (Execute L msg now wm))"
proof (cases "code = CC_Reload \<or> (mg_shuttingDown (snd wm) \<and> code \<noteq> CC_Heartbeat) \<or> cm_serviceName msg = all_services")
  case True
  with assms have "snd (Execute L msg now wm) = wm" by (auto simp: Execute_def Let_def)
  then show ?thesis by (simp add: launches_ok_refl)
next
  case go: False
  show ?thesis
  proof (cases "FindMutable (snd wm) (cm_serviceName msg)")
    case None
    with go code have "snd (Execute L msg now wm) = wm" by (auto simp: Execute_def Let_def)
    then show ?thesis by (simp add: launches_ok_refl)
  next
    case (Some i)
    obtain r st wm1 where ex: "ExecuteOne L code now i [] wm = (r, st, wm1)" by (metis prod_cases3)
    have "launches_ok wm wm1"
      using go FindMutable_Some [OF Some] by (intro ExecuteOne_ok [OF _ _ ex]) auto
    moreover have "snd (Execute L msg now wm) \<in> {wm, wm1}"
      using code go Some ex by (cases r) (auto simp: Execute_def Let_def)
    ultimately show ?thesis by (auto simp: launches_ok_refl)
  qed
qed

lemma Execute_unknown: "CommandCodeFromByte (cm_command msg) = None \<Longrightarrow> snd (Execute L msg now wm) = wm"
  by (simp add: Execute_def Let_def)

text \<open>A command for all services: one turn of its loop.\<close>

lemma execute_all_step_ok:
  assumes "\<not> mg_shuttingDown (snd wm)" and "i < length (mg_services (snd wm))"
    and "execute_all_step L code now i (acted, failed, started, wm) = (acted', failed', started', wm')"
  shows "launches_ok wm wm'"
  using assms(3) ExecuteOne_ok [of wm code i L now started] assms(1,2)
  by (auto simp: execute_all_step_def Let_def launches_ok_refl split: prod.splits if_splits)

lemma Execute_all:
  assumes "cm_serviceName msg = all_services" and "code \<noteq> CC_Reload" and "code \<noteq> CC_Heartbeat"
    and "\<not> mg_shuttingDown (snd wm)" and "CommandCodeFromByte (cm_command msg) = Some code"
  shows "snd (Execute L msg now wm)
    = snd (snd (snd (fold (execute_all_step L code now) [0..<length (mg_services (snd wm))] (0, 0, [], wm))))"
  using assms by (simp add: Execute_def Let_def split: prod.split)

text \<open>Measuring leaves the children alone.\<close>

lemma same_children_ok:
  "map sv_child (mg_services (snd z)) = map sv_child (mg_services (snd y)) \<Longrightarrow> launches_ok y z"
  unfolding launches_ok_def by (metis insertI1 insertI2 length_map nth_map)

lemma on_service_children:
  assumes "\<And>ws. sv_child (snd (f ws)) = sv_child (snd ws)"
  shows "map sv_child (mg_services (snd (on_service i f wm))) = map sv_child (mg_services (snd wm))"
proof (cases "i < length (mg_services (snd wm))")
  case True
  obtain w' s' where f: "f (fst wm, svc_at wm i) = (w', s')" by (rule prod.exhaust)
  then have "sv_child s' = sv_child (svc_at wm i)" using assms [of "(fst wm, svc_at wm i)"] by simp
  with True f show ?thesis by (simp add: on_service_def map_update list_update_same_conv)
qed (auto simp: on_service_def list_update_beyond split: prod.split)

lemma Manager_Sample_ok: "launches_ok wm (Manager_Sample L now table gpu wm)"
proof (rule same_children_ok)
  have "sv_child (snd (Service_Sample L now table ws)) = sv_child (snd ws)" for ws
    by (simp add: Service_Sample_def Let_def split: option.split prod.split)
  then have one: "map sv_child (mg_services (snd (sample_one L now table gpu i v))) = map sv_child (mg_services (snd v))" for i v
    by (simp add: sample_one_def on_service_children SetGpuUsage_def Let_def split: prod.split)
  have "map sv_child (mg_services (snd (fold (sample_one L now table gpu) ks v))) = map sv_child (mg_services (snd v))" for ks v
    by (induction ks arbitrary: v) (simp_all add: one)
  then show "map sv_child (mg_services (snd (Manager_Sample L now table gpu wm))) = map sv_child (mg_services (snd wm))"
    by (simp add: Manager_Sample_def)
qed

section \<open>The stages under the contract of the launcher\<close>

context process_launcher
begin

lemma guarded_ok:
  assumes "owns y" and "launches_ok y z"
  shows "guarded live y z"
  unfolding guarded_def
proof (intro allI impI)
  fix s assume "launched live y z s"
  then obtain j h where j: "j < length (mg_services (snd z))" "s = svc_at z j" and h: "sv_child s = Some h" "h \<notin> live (fst y)"
    by (auto simp: launched_def in_set_conv_nth)
  have jy: "j < length (mg_services (snd y))" using assms(2) j(1) by (simp add: launches_ok_def)
  then have "svc_at y j \<in> set (mg_services (snd y))" by simp
  then have "owned (svc_at y j) \<subseteq> live (fst y)" using assms(1) owns_live [of "fst y" "snd y"] by simp
  then have "sv_child (svc_at y j) \<noteq> Some h" using h(2) by (auto simp: owned_def)
  with h(1) have "sv_child s \<notin> {None, sv_child (svc_at y j)}" by auto
  with assms(2) jy j(2) show "\<not> mg_shuttingDown (snd y) \<and> DependenciesRunning (snd y) s"
    unfolding launches_ok_def by blast
qed

lemma guarded_quiet:
  assumes "owns z" and "live (fst z) \<subseteq> live (fst y)"
  shows "guarded live y z"
proof -
  have "h \<in> live (fst y)" if "s \<in> set (mg_services (snd z))" "sv_child s = Some h" for s h
    using assms owns_live [of "fst z" "snd z" s] that by auto
  then show ?thesis by (auto simp: guarded_def launched_def)
qed

lemma drop_unlisted_live:
  fixes wm :: "'w \<times> Manager"
  shows "live (fst (snd (fold (drop_unlisted L now configs) ks (summary, wm)))) = live (fst wm)"
proof -
  have stop: "live (fst (snd (Service_Stop L now ws))) = live (fst ws)" for ws
    by (cases "sv_state (snd ws)") (simp_all add: Service_Stop_def)
  have one: "live (fst (snd (drop_unlisted L now configs i (su, v)))) = live (fst v)" for i su and v :: "'w \<times> Manager"
    using stop by (simp add: drop_unlisted_def at_service_def on_service_def Let_def split: prod.split) (metis fst_conv snd_conv)
  show ?thesis
  proof (induction ks arbitrary: summary wm)
    case (Cons i ks)
    obtain su and v :: "'w \<times> Manager" where v: "drop_unlisted L now configs i (summary, wm) = (su, v)"
      by (rule prod.exhaust)
    with Cons [of su v] one [of i summary wm] show ?case by simp
  qed simp
qed

lemma successively_orderly:
  fixes wm :: "'w \<times> Manager"
  assumes steps: "\<And>i v. i < length (mg_services (snd v)) \<Longrightarrow> csteps L now orderly_call v (f i v)"
    and ok: "\<And>i v. i < length (mg_services (snd v)) \<Longrightarrow> launches_ok v (f i v)"
    and inv: "manager_inv (snd wm)" "owns wm"
  shows "successively (guarded live) (turns f (length (mg_services (snd wm))) wm)"
proof (rule successively_turns)
  fix k assume k: "k < length (mg_services (snd wm))"
  let ?v = "fold f [0..<k] wm"
  have s: "csteps L now orderly_call wm ?v" by (rule fold_orderly [OF steps]) (use k in auto)
  then have "owns ?v" using inv by (intro owns_msteps [OF csteps_msteps [OF csteps_orderly [OF s]]])
  moreover have "k < length (mg_services (snd ?v))" using k shape_length [OF csteps_shape [OF csteps_orderly [OF s]]] by simp
  ultimately show "guarded live ?v (f k ?v)" by (intro guarded_ok ok)
qed

lemma Tick_stages:
  fixes wm :: "'w \<times> Manager"
  assumes inv: "manager_inv (snd wm)" "owns wm"
  shows "successively (guarded live) (stages L now Op_Tick wm) \<and> last (stages L now Op_Tick wm) = run_op L now Op_Tick wm"
proof -
  let ?n = "length (mg_services (snd wm))"
  let ?a = "fold (tick_one L now) [0..<?n] wm"
  let ?b = "fold (settle_one L now) [0..<?n] ?a"
  have a: "csteps L now orderly_call wm ?a" by (rule fold_orderly [OF tick_one_steps]) auto
  have len: "length (mg_services (snd ?a)) = ?n" using shape_length [OF csteps_shape [OF csteps_orderly [OF a]]] by simp
  have inv_a: "manager_inv (snd ?a)" "owns ?a"
    using inv csteps_msteps [OF csteps_orderly [OF a]] by (blast intro: owns_msteps manager_inv_msteps)+
  have "csteps L now orderly_call ?a ?b" by (rule fold_orderly [OF settle_one_steps]) (auto simp: len)
  then have inv_b: "manager_inv (snd ?b)" "owns ?b"
    using inv_a by (blast intro: owns_msteps manager_inv_msteps csteps_msteps csteps_orderly)+
  have tick: "Manager_Tick L now wm = (fst ?b, remove_finished (snd ?b))" by (simp add: Manager_Tick_def Let_def)
  have "mstep L now normal_call ?b (fst ?b, remove_finished (snd ?b))"
    using mstep.remove [of L now normal_call "fst ?b" "snd ?b"] by simp
  then have "owns (Manager_Tick L now wm)" unfolding tick using inv_b by (rule owns_mstep)
  then have c: "guarded live ?b (Manager_Tick L now wm)" by (rule guarded_quiet) (simp add: tick)
  have one: "successively (guarded live) (turns (tick_one L now) ?n wm)"
    by (rule successively_orderly [OF tick_one_steps tick_one_ok inv])
  have two: "successively (guarded live) (turns (settle_one L now) ?n ?a)"
    by (rule successively_orderly [OF settle_one_steps settle_one_ok inv_a, unfolded len])
  have same: "guarded live ?a ?a" by (rule guarded_ok [OF inv_a(2) launches_ok_refl])
  from one two c same show ?thesis by (simp add: successively_append_iff Let_def)
qed

lemma Execute_stages:
  fixes wm :: "'w \<times> Manager"
  assumes inv: "manager_inv (snd wm)" "owns wm" and code: "CommandCodeFromByte (cm_command msg) = Some code"
  shows "successively (guarded live) (command_stages L now code msg wm)
    \<and> last (command_stages L now code msg wm) = snd (Execute L msg now wm) \<and> hd (command_stages L now code msg wm) = wm"
proof (cases "cm_serviceName msg = all_services \<and> code \<noteq> CC_Reload \<and> code \<noteq> CC_Heartbeat \<and> \<not> mg_shuttingDown (snd wm)")
  case False
  then have "command_stages L now code msg wm = [wm, snd (Execute L msg now wm)]"
    unfolding command_stages_def by (rule if_not_P)
  with guarded_ok [OF inv(2) Execute_one_ok [OF False code]] show ?thesis by simp
next
  case True
  let ?n = "length (mg_services (snd wm))" and ?f = "execute_all_step L code now" and ?st = "(0 :: int, 0 :: int, [] :: string list, wm)"
  let ?w = "\<lambda>(acted :: int, failed :: int, started :: string list, wm :: 'w \<times> Manager). wm"
  have st: "command_stages L now code msg wm = map ?w (turns ?f ?n ?st)" using True by (simp add: command_stages_def)
  have "successively (\<lambda>a b. guarded live (?w a) (?w b)) (turns ?f ?n ?st)"
  proof (rule successively_turns)
    fix k assume k: "k < ?n"
    obtain a f s v where before: "fold ?f [0..<k] ?st = (a, f, s, v)" by (rule prod_cases4)
    obtain a' f' s' v' where after: "?f k (a, f, s, v) = (a', f', s', v')" by (rule prod_cases4)
    have c: "csteps L now plain_call wm v" by (rule execute_all_steps [OF _ _ before]) (use True k in auto)
    have sh: "shape (snd v) = shape (snd wm)" by (rule plain_shape [OF c])
    have "owns v" by (rule owns_msteps [OF csteps_msteps [OF csteps_plain [OF c]] inv])
    moreover have "launches_ok v v'"
      using True k by (intro execute_all_step_ok [OF _ _ after]) (simp_all add: shape_length [OF sh] shape_fields [OF sh])
    ultimately show "guarded live (?w (fold ?f [0..<k] ?st)) (?w (?f k (fold ?f [0..<k] ?st)))"
      by (simp add: before after guarded_ok)
  qed
  moreover have "last (map ?w (turns ?f ?n ?st)) = snd (Execute L msg now wm)"
    using Execute_all [of msg code wm L now] True code by (simp add: last_map case_prod_beta)
  ultimately show ?thesis by (simp add: st successively_map hd_map)
qed

lemma Apply_stages:
  fixes wm :: "'w \<times> Manager"
  assumes inv: "manager_inv (snd wm)" "owns wm"
  shows "successively (guarded live) (stages L now (Op_Apply configs) wm)"
proof -
  obtain s1 added m1 where one: "fold apply_config configs
      (\<lparr>rs_added = 0, rs_removed = 0, rs_changed = 0\<rparr>, [], snd wm) = (s1, added, m1)" by (metis prod_cases3)
  obtain s2 and v :: "'w \<times> Manager" where two:
    "fold (drop_unlisted L now configs) [0..<length (mg_services m1)] (s1, fst wm, m1) = (s2, v)" by (rule prod.exhaust)
  have v: "unlisted_stopped L now configs wm = v" by (simp add: unlisted_stopped_def one two)
  have final: "run_op L now (Op_Apply configs) wm = fold (start_added L now) added v"
    by (simp add: Manager_Apply_def one two)
  have "msteps L now normal_call wm (fst wm, m1)"
    using apply_configs_steps [OF one, of L now "fst wm"] by simp
  moreover have "csteps L now normal_call (fst wm, m1) v" by (rule drop_unlisted_steps [OF _ two]) auto
  ultimately have "msteps L now normal_call wm v" by (rule msteps_trans [OF _ csteps_msteps])
  then have "owns v" using inv by (rule owns_msteps)
  moreover have "live (fst v) = live (fst wm)"
    using drop_unlisted_live [of now configs "[0..<length (mg_services m1)]" s1 "(fst wm, m1)"] two by simp
  moreover have "launches_ok v (fold (start_added L now) added v)" using start_path [OF start_added_starts] by blast
  ultimately show ?thesis by (simp add: v final [simplified] guarded_quiet guarded_ok)
qed

lemma flagged_quiet:
  assumes "csteps L now normal_call (flagged wm) z" and "manager_inv (snd wm)" and "owns wm"
  shows "guarded live wm z"
proof -
  have f: "manager_inv (snd (flagged wm))" "owns (flagged wm)" "mg_shuttingDown (snd (flagged wm))"
    using assms(2,3) by (simp_all add: manager_inv_def owns_def children_def)
  from csteps_msteps [OF assms(1)] have s: "msteps L now normal_call (flagged wm) z" .
  have "owns z" by (rule owns_msteps [OF s f(1,2)])
  moreover have "live (fst z) \<subseteq> live (fst wm)" using shutdown_msteps [OF s] f by simp
  ultimately show ?thesis by (rule guarded_quiet)
qed

lemma stages_guarded:
  fixes wm :: "'w \<times> Manager"
  assumes reach: "manager_reach L live wm" and allowed: "op_allowed op (snd wm)"
  shows "hd (stages L now op wm) = wm \<and> last (stages L now op wm) = run_op L now op wm
    \<and> successively (guarded live) (stages L now op wm)"
proof -
  note inv = manager_reach_inv [OF reach] manager_reach_owns [OF reach]
  show ?thesis
  proof (cases op)
    case Op_StartAutostart
    with allowed have "\<not> mg_shuttingDown (snd wm)" by (simp add: op_allowed_def)
    then have "launches_ok wm (StartAutostart L now wm)"
      using start_path [OF StartAutostart_starts] by blast
    with Op_StartAutostart inv show ?thesis by (simp add: guarded_ok)
  next
    case (Op_Execute msg)
    show ?thesis
    proof (cases "CommandCodeFromByte (cm_command msg)")
      case None
      with Op_Execute Execute_unknown [OF None, of L now wm] inv show ?thesis
        by (simp add: guarded_ok launches_ok_refl)
    next
      case (Some code)
      with Op_Execute Execute_stages [OF inv Some, of now] show ?thesis by simp
    qed
  next
    case (Op_Apply configs)
    with Apply_stages [OF inv, of now configs] show ?thesis by simp
  next
    case Op_Tick
    with Tick_stages [OF inv, of now] show ?thesis by (simp add: Let_def)
  next
    case (Op_Sample table gpu)
    with inv show ?thesis by (simp add: guarded_ok Manager_Sample_ok)
  next
    case Op_StopAll
    with flagged_quiet [OF csteps_orderly [OF StopAll_loop] inv] show ?thesis by simp
  next
    case Op_KillAll
    with flagged_quiet [OF csteps_plain [OF KillAll_loop] inv] show ?thesis by simp
  next
    case Op_TakeRemoved
    have "launches_ok wm (fst wm, snd (TakeRemoved (snd wm)))" by (rule same_children_ok) simp
    with Op_TakeRemoved inv show ?thesis by (simp add: guarded_ok)
  qed
qed

end

end
