(* ===== verification/Stop_Order.thy ===== *)
theory Stop_Order
  imports Shutdown_Progress
begin

text \<open>
  What \<open>ServiceManager::StopAll\<close> does to the whole manager and to the processes: the requests it
  makes, in which order, and the record of every service after it.
\<close>

section \<open>The order of a shutdown\<close>

text \<open>A service is asked to stop when it is up and no living service depends on it.\<close>

definition still_needed :: "Manager \<Rightarrow> Service \<Rightarrow> bool" where
  "still_needed m s \<longleftrightarrow>
     (\<exists>other \<in> set (mg_services m). Service_Name s \<in> set (sc_dependsOn (sv_config other)) \<and> IsAlive (sv_state other))"

definition asked_to_stop :: "Manager \<Rightarrow> Service \<Rightarrow> bool" where
  "asked_to_stop m s \<longleftrightarrow> sv_state s \<in> {Starting, Running, Unhealthy} \<and> \<not> still_needed m s"

definition stop_request :: "'w launcher \<Rightarrow> Service \<Rightarrow> 'w \<Rightarrow> 'w" where
  "stop_request L s w = l_RequestStop L (the (sv_child s)) (sc_stopSignal (sv_config s)) w"

definition stopping_record :: "Instant \<Rightarrow> Service \<Rightarrow> Service" where
  "stopping_record now s = s\<lparr>sv_state := Stopping, sv_pendingStart := False, sv_restartAfterStop := False,
     sv_stopDeadline := in_steady now + ns_of_ms (sc_stopTimeout (sv_config s)),
     sv_killSent := (sc_stopSignal (sv_config s) = SS_Kill),
     sv_killDeadline := in_steady now + ns_of_ms kill_grace, sv_stuckReported := False\<rparr>"

text \<open>
  One that waits, backs off or has failed is just stopped, unless a living service depends on it; any
  other service is left alone.
\<close>

definition stopped_record :: "Manager \<Rightarrow> Instant \<Rightarrow> Service \<Rightarrow> Service" where
  "stopped_record m now s =
     (if asked_to_stop m s then stopping_record now s
      else if sv_state s \<in> {Waiting, Backoff, Failed} \<and> \<not> still_needed m s then s\<lparr>sv_state := Stopped\<rparr>
      else s)"

section \<open>The loop\<close>

lemma still_needed_code: "still_needed m s \<longleftrightarrow> \<not> DependentsStopped m s"
  by (auto simp: still_needed_def DependentsStopped_def list_all_iff)

lemma asked_to_stop_code:
  "asked_to_stop m s \<longleftrightarrow> sv_state s \<in> {Starting, Running, Unhealthy} \<and> DependentsStopped m s"
  by (simp add: asked_to_stop_def still_needed_code)

lemma stopped_record_profile:
  "sv_config (stopped_record m now s) = sv_config s"
  "IsAlive (sv_state (stopped_record m now s)) = IsAlive (sv_state s)"
  by (auto simp: stopped_record_def stopping_record_def asked_to_stop_code still_needed_code)

lemma stop_one_record:
  assumes "i < length (mg_services m)" and "service_inv (mg_services m ! i)"
  shows "stop_one L now i (w, m) =
    ((if asked_to_stop m (mg_services m ! i) then stop_request L (mg_services m ! i) w else w),
     m\<lparr>mg_services := (mg_services m)[i := stopped_record m now (mg_services m ! i)]\<rparr>)"
proof -
  let ?s = "mg_services m ! i"
  have up: "\<exists>h. sv_child ?s = Some h" if "sv_state ?s \<in> {Starting, Running, Unhealthy}"
    using assms(2) that by (auto simp: service_inv_def)
  show ?thesis
    using up
    by (cases "sv_state ?s")
      (auto simp: stop_one_def at_service_def Service_Stop_def BeginStop_def child_call_def stop_request_def
        stopped_record_def stopping_record_def asked_to_stop_code still_needed_code Let_def)
qed

text \<open>After the first \<open>k\<close> services.\<close>

lemma stop_loop:
  assumes "\<forall>s \<in> set (mg_services m). service_inv s" and "k \<le> length (mg_services m)"
  shows "fold (stop_one L now) [0..<k] (w, m) =
    (fold (stop_request L) (filter (asked_to_stop m) (take k (mg_services m))) w,
     m\<lparr>mg_services := map (stopped_record m now) (take k (mg_services m)) @ drop k (mg_services m)\<rparr>)"
  using assms(2)
proof (induction k)
  case (Suc k)
  let ?ss = "mg_services m"
  let ?m = "m\<lparr>mg_services := map (stopped_record m now) (take k ?ss) @ drop k ?ss\<rparr>"
  have k: "k < length ?ss" using Suc.prems by simp
  have at: "mg_services ?m ! k = ?ss ! k" using k by (simp add: nth_append)
  have "map (\<lambda>s. (sv_config s, IsAlive (sv_state s))) (take k ?ss) @ map (\<lambda>s. (sv_config s, IsAlive (sv_state s))) (drop k ?ss)
      = map (\<lambda>s. (sv_config s, IsAlive (sv_state s))) ?ss"
    by (simp flip: map_append)
  then have same: "profile ?m = profile m" by (simp add: profile_def stopped_record_profile comp_def)
  then have asked: "asked_to_stop ?m s = asked_to_stop m s" "stopped_record ?m now s = stopped_record m now s" for s
    by (simp_all add: asked_to_stop_code stopped_record_def still_needed_code DependentsStopped_profile)
  have inv: "service_inv (mg_services ?m ! k)" using assms(1) k at by simp
  have len: "k < length (mg_services ?m)" using k by simp
  have "(map (stopped_record m now) (take k ?ss) @ drop k ?ss)[k := stopped_record m now (?ss ! k)]
      = map (stopped_record m now) (take (Suc k) ?ss) @ drop (Suc k) ?ss"
    using k by (simp add: list_update_append take_Suc_conv_app_nth flip: Cons_nth_drop_Suc)
  then have upd: "?m\<lparr>mg_services := (mg_services ?m)[k := stopped_record m now (?ss ! k)]\<rparr>
      = m\<lparr>mg_services := map (stopped_record m now) (take (Suc k) ?ss) @ drop (Suc k) ?ss\<rparr>" by simp
  let ?w = "fold (stop_request L) (filter (asked_to_stop m) (take k ?ss)) w"
  note step = stop_one_record [OF len inv, of L now ?w, unfolded at asked upd]
  have "fold (stop_one L now) [0..<Suc k] (w, m) = stop_one L now k (fold (stop_one L now) [0..<k] (w, m))" by simp
  also have "fold (stop_one L now) [0..<k] (w, m) = (?w, ?m)" using Suc.IH Suc.prems by simp
  finally show ?case unfolding step using k by (simp add: take_Suc_conv_app_nth)
qed simp

lemma StopAll_exact:
  assumes "\<forall>s \<in> set (mg_services m). service_inv s"
  shows "StopAll L now (w, m) =
    (fold (stop_request L) (filter (asked_to_stop m) (mg_services m)) w,
     m\<lparr>mg_shuttingDown := True, mg_services := map (stopped_record m now) (mg_services m)\<rparr>)"
proof -
  let ?m = "m\<lparr>mg_shuttingDown := True\<rparr>"
  have same: "asked_to_stop ?m = asked_to_stop m" "stopped_record ?m now = stopped_record m now"
    by (simp_all add: fun_eq_iff asked_to_stop_code stopped_record_def still_needed_code DependentsStopped_def)
  have "\<forall>s \<in> set (mg_services ?m). service_inv s" using assms by simp
  from stop_loop [OF this order_refl, of L now w] show ?thesis by (simp add: StopAll_def same)
qed

end
