(* ===== verification/Fake_Launcher.thy ===== *)
theory Fake_Launcher
  imports Shutdown_Progress
begin

text \<open>
  The launcher the repository's tests drive (\<open>src/manager/tests/FakeLauncher.hpp\<close>): a provider of
  the launcher interface whose processes do what the test says. It is the concrete world in which
  the properties of services and of the manager are evaluated. A process is known by its place in
  the list of processes; \<open>fl_children\<close> holds the \<open>FakeChild\<close> objects that exist.
\<close>

record FakeProcess =
  fp_pid :: int
  fp_stopRequested :: bool
  fp_lastSignal :: StopSignal
  fp_killed :: bool
  fp_exitOnStop :: bool
  fp_exit :: "ExitStatus option"
  fp_usage :: UsageSample
  fp_members :: "int list"

definition new_FakeProcess :: "int \<Rightarrow> bool \<Rightarrow> FakeProcess" where
  "new_FakeProcess pid exitOnStop =
     \<lparr>fp_pid = pid, fp_stopRequested = False, fp_lastSignal = SS_Terminate, fp_killed = False,
      fp_exitOnStop = exitOnStop, fp_exit = None, fp_usage = default_UsageSample, fp_members = []\<rparr>"

text \<open>\<open>fl_nextCode\<close> is \<open>None\<close> for \<open>LaunchCode::Ok\<close>.\<close>

record FakeLauncher =
  fl_requests :: "LaunchRequest list"
  fl_processes :: "FakeProcess list"
  fl_children :: "handle list"
  fl_nextCode :: "LaunchCode option"
  fl_exitOnStop :: bool
  fl_nextPid :: int

definition new_FakeLauncher :: FakeLauncher where
  "new_FakeLauncher =
     \<lparr>fl_requests = [], fl_processes = [], fl_children = [], fl_nextCode = None,
      fl_exitOnStop = True, fl_nextPid = 1000\<rparr>"

definition fake_Launch ::
  "LaunchRequest \<Rightarrow> FakeLauncher \<Rightarrow> ((LaunchCode \<times> string) + handle) \<times> FakeLauncher" where
  "fake_Launch request w =
     (let w = w\<lparr>fl_requests := fl_requests w @ [request]\<rparr>
      in case fl_nextCode w of
           Some code \<Rightarrow> (Inl (code, ''fake launch failure''), w)
         | None \<Rightarrow>
             (Inr (length (fl_processes w)),
              w\<lparr>fl_nextPid := fl_nextPid w + 1,
                fl_processes := fl_processes w @ [new_FakeProcess (fl_nextPid w) (fl_exitOnStop w)],
                fl_children := length (fl_processes w) # fl_children w\<rparr>))"

definition at_process :: "handle \<Rightarrow> (FakeProcess \<Rightarrow> FakeProcess) \<Rightarrow> FakeLauncher \<Rightarrow> FakeLauncher" where
  "at_process h f w = w\<lparr>fl_processes := (fl_processes w)[h := f (fl_processes w ! h)]\<rparr>"

definition fake_RequestStop :: "StopSignal \<Rightarrow> FakeProcess \<Rightarrow> FakeProcess" where
  "fake_RequestStop sig p =
     (let p = p\<lparr>fp_stopRequested := True, fp_lastSignal := sig\<rparr>
      in if fp_exitOnStop p then p\<lparr>fp_exit := Some \<lparr>ex_code = 0, ex_signal = 15\<rparr>\<rparr> else p)"

definition fake_Kill :: "FakeProcess \<Rightarrow> FakeProcess" where
  "fake_Kill p = p\<lparr>fp_killed := True, fp_exit := Some \<lparr>ex_code = 0, ex_signal = 9\<rparr>\<rparr>"

definition fake_launcher :: "FakeLauncher launcher" where
  "fake_launcher =
     \<lparr>l_Launch = fake_Launch,
      l_Pid = \<lambda>h w. fp_pid (fl_processes w ! h),
      l_Poll = \<lambda>h w. (fp_exit (fl_processes w ! h), w),
      l_RequestStop = \<lambda>h sig. at_process h (fake_RequestStop sig),
      l_Kill = \<lambda>h. at_process h fake_Kill,
      l_Sample = \<lambda>h table w. (fp_usage (fl_processes w ! h), w),
      l_MemberPids = \<lambda>h table w.
        (if fp_members (fl_processes w ! h) = [] then [fp_pid (fl_processes w ! h)]
         else fp_members (fl_processes w ! h)),
      l_Destroy = \<lambda>h w. w\<lparr>fl_children := filter (\<lambda>c. c \<noteq> h) (fl_children w)\<rparr>\<rparr>"

definition MakeService :: "string \<Rightarrow> ServiceConfig" where
  "MakeService n = default_ServiceConfig\<lparr>sc_name := n, sc_binary := ''/bin/'' @ n\<rparr>"

text \<open>A moment some milliseconds after the epoch of both clocks.\<close>

definition instant :: "millis \<Rightarrow> Instant" where
  "instant ms = \<lparr>in_steady = ns_of_ms ms, in_wallNs = ns_of_ms ms\<rparr>"

definition fake_live :: "FakeLauncher \<Rightarrow> handle set" where
  "fake_live w = {h \<in> set (fl_children w). h < length (fl_processes w)}"

interpretation fake: process_launcher fake_launcher fake_live
  by unfold_locales
    (auto simp: fake_launcher_def fake_live_def fake_Launch_def at_process_def Let_def
      split: option.splits)

text \<open>
  With \<open>fl_exitOnStop\<close> left on, the fake processes exit when they are asked to: the contract of an
  orderly shutdown.
\<close>

definition fake_gone :: "handle \<Rightarrow> FakeLauncher \<Rightarrow> bool" where
  "fake_gone h w \<longleftrightarrow> h < length (fl_processes w) \<and> fp_exit (fl_processes w ! h) \<noteq> None"

definition fake_willing :: "FakeLauncher \<Rightarrow> bool" where
  "fake_willing w \<longleftrightarrow> fl_exitOnStop w \<and> list_all fp_exitOnStop (fl_processes w)"

lemma nth_update_if: "xs[i := v] ! j = (if i = j \<and> i < length xs then v else xs ! j)"
  by (cases "i < length xs") (auto simp: nth_list_update list_update_beyond not_less)

lemma kept_fake:
  "kept fake_gone fake_willing K w (snd (fake_Launch rq w))"
  "kept fake_gone fake_willing K w (at_process h (fake_RequestStop sig) w)"
  "kept fake_gone fake_willing K w (at_process h fake_Kill w)"
  "kept fake_gone fake_willing K w (w\<lparr>fl_children := cs\<rparr>)"
  by (auto simp: fake_Launch_def Let_def new_FakeProcess_def nth_append fake_RequestStop_def fake_Kill_def
      kept_def fake_gone_def fake_willing_def at_process_def list_all_length nth_update_if split: option.splits)

lemma fake_told:
  "h \<in> fake_live w \<Longrightarrow> fake_willing w \<Longrightarrow> fake_gone h (at_process h (fake_RequestStop sig) w)"
  "h \<in> fake_live w \<Longrightarrow> fake_gone h (at_process h fake_Kill w)"
  by (auto simp: fake_gone_def at_process_def fake_RequestStop_def fake_Kill_def Let_def
      fake_live_def fake_willing_def list_all_length)

interpretation fake: obedient_launcher fake_launcher fake_live fake_gone fake_willing
  by unfold_locales (simp_all add: fake_launcher_def kept_fake fake_told, simp add: fake_gone_def)

end
