(* ===== verification/Proc_Fs.thy ===== *)
theory Proc_Fs
  imports Process_Table
begin

text \<open>
  Reading the proc and cgroup file systems (\<open>src/manager/include/ProcFs.hpp\<close>, \<open>ProcFs.cpp\<close>): the
  parsers, the files they are applied to, and the process snapshot of POSIX hosts
  (\<open>src/posix/ProcessTable.cpp\<close>). File contents and directory listings come from the operating
  system, a record \<open>os_files\<close> of functions over the outside world. The lemmas print what the kernel
  documents and parse it back. The load averages and the uptime are in the theory \<open>System_Monitor\<close>.
\<close>

section \<open>Words and lines\<close>

definition is_blank :: "char \<Rightarrow> bool" where
  "is_blank c \<longleftrightarrow> c = CHR '' '' \<or> c = CHR 0x09 \<or> c = CHR 0x0A \<or> c = CHR 0x0D"

function SplitWords :: "string \<Rightarrow> string list" where
  "SplitWords text =
     (let rest = dropWhile is_blank text
      in if rest = [] then []
         else takeWhile (\<lambda>c. \<not> is_blank c) rest # SplitWords (dropWhile (\<lambda>c. \<not> is_blank c) rest))"
  by pat_completeness auto
termination
proof (relation "measure length")
  fix t and rest :: string
  assume rest: "rest = dropWhile is_blank t" and ne: "rest \<noteq> []"
  then have "\<not> is_blank (hd rest)" by (simp add: hd_dropWhile)
  with ne have "length (dropWhile (\<lambda>c. \<not> is_blank c) rest) < length rest"
    by (cases rest) (auto simp: le_imp_less_Suc length_dropWhile_le)
  also have "\<dots> \<le> length t" using rest by (simp add: length_dropWhile_le)
  finally show "(dropWhile (\<lambda>c. \<not> is_blank c) rest, t) \<in> measure length" by simp
qed simp

declare SplitWords.simps [simp del]

function SplitLines :: "string \<Rightarrow> string list" where
  "SplitLines text =
     (if text = [] then []
      else takeWhile (\<lambda>c. c \<noteq> CHR 0x0A) text # SplitLines (tl (dropWhile (\<lambda>c. c \<noteq> CHR 0x0A) text)))"
  by pat_completeness auto
termination
proof (relation "measure length")
  fix t :: string
  assume "t \<noteq> []"
  then have "length (tl (dropWhile (\<lambda>c. c \<noteq> CHR 0x0A) t)) < length t"
    using length_dropWhile_le [of "\<lambda>c. c \<noteq> CHR 0x0A" t] by (cases t) (auto simp: le_imp_less_Suc)
  then show "(tl (dropWhile (\<lambda>c. c \<noteq> CHR 0x0A) t), t) \<in> measure length" by simp
qed simp

declare SplitLines.simps [simp del]

section \<open>Numbers\<close>

definition ToUnsigned :: "string \<Rightarrow> 64 word option" where
  "ToUnsigned s =
     (if s = [] then None
      else case from_chars_unsigned uint64_max s of
             (Inr v, rest) \<Rightarrow> (if rest = [] then Some (word_of_int v) else None)
           | (Inl e, rest) \<Rightarrow> None)"

definition ToSigned :: "string \<Rightarrow> int option" where
  "ToSigned s =
     (if s = [] then None
      else case from_chars_signed int64_min int64_max s of
             (Inr v, rest) \<Rightarrow> (if rest = [] then Some v else None)
           | (Inl e, rest) \<Rightarrow> None)"

definition NonNegative :: "string \<Rightarrow> 64 word" where
  "NonNegative s =
     (case ToSigned s of None \<Rightarrow> 0 | Some v \<Rightarrow> if v < 0 then 0 else word_of_int v)"

definition value_or_zero :: "64 word option \<Rightarrow> 64 word" where
  "value_or_zero v = (case v of Some x \<Rightarrow> x | None \<Rightarrow> 0)"

text \<open>The first line whose first word is \<open>key\<close> decides, with or without a number.\<close>

fun find_value :: "(string \<Rightarrow> bool) \<Rightarrow> string list \<Rightarrow> 64 word option" where
  "find_value is_key [] = None"
| "find_value is_key (line # lines) =
     (let words = SplitWords line
      in if 2 \<le> length words \<and> is_key (words ! 0) then ToUnsigned (words ! 1)
         else find_value is_key lines)"

definition FindKeyedValue :: "string \<Rightarrow> string \<Rightarrow> 64 word option" where
  "FindKeyedValue t key =
     find_value (\<lambda>w. length w = length key + 1 \<and> take (length key) w = key \<and> last w = CHR '':'')
       (SplitLines t)"

definition FindFlatValue :: "string \<Rightarrow> string \<Rightarrow> 64 word option" where
  "FindFlatValue t key = find_value (\<lambda>w. w = key) (SplitLines t)"

definition is_octal :: "char \<Rightarrow> bool" where
  "is_octal c \<longleftrightarrow> 48 \<le> char_code c \<and> char_code c \<le> 55"

text \<open>Three octal digits after a backslash are one byte (\<open>static_cast<char>\<close> keeps eight bits).\<close>

fun UnescapeMountField :: "string \<Rightarrow> string" where
  "UnescapeMountField (b # x # y # z # cs) =
     (if b = CHR 0x5C \<and> is_octal x \<and> is_octal y \<and> is_octal z
      then char_of (((digit_val x * 8 + digit_val y) * 8 + digit_val z) mod 256 :: nat) # UnescapeMountField cs
      else b # UnescapeMountField (x # y # z # cs))"
| "UnescapeMountField (c # cs) = c # UnescapeMountField cs"
| "UnescapeMountField [] = []"

section \<open>The parsers\<close>

record ProcessStat =
  ps_pid :: int
  ps_comm :: string
  ps_state :: char
  ps_parentPid :: int
  ps_processGroup :: int
  ps_session :: int
  ps_userTicks :: "64 word"
  ps_systemTicks :: "64 word"
  ps_childUserTicks :: "64 word"
  ps_childSystemTicks :: "64 word"
  ps_threads :: int
  ps_startTicks :: "64 word"
  ps_rssPages :: "64 word"

text \<open>The text before the first opening and after the last closing parenthesis, and between.\<close>

definition split_comm :: "string \<Rightarrow> (string \<times> string \<times> string) option" where
  "split_comm t =
     (if CHR ''('' \<in> set t \<and> CHR '')'' \<in> set t then
        let head = takeWhile (\<lambda>c. c \<noteq> CHR ''('') t;
            tail = rev (takeWhile (\<lambda>c. c \<noteq> CHR '')'') (rev t));
            close = length t - length tail - 1
        in if close < length head then None
           else Some (head, take (close - length head - 1) (drop (length head + 1) t), tail)
      else None)"

definition ParseProcessStat :: "string \<Rightarrow> ProcessStat option" where
  "ParseProcessStat t =
     (case split_comm t of
        None \<Rightarrow> None
      | Some (before, comm, after) \<Rightarrow>
          (let head = SplitWords before; words = SplitWords after
           in if length head \<noteq> 1 \<or> length words < 22 \<or> words ! 0 = [] then None
              else case (ToSigned (head ! 0), ToSigned (words ! 1), ToSigned (words ! 2),
                         ToSigned (words ! 3), ToUnsigned (words ! 11), ToUnsigned (words ! 12),
                         ToSigned (words ! 17), ToUnsigned (words ! 19)) of
                (Some pid, Some parent, Some pgrp, Some session, Some user, Some system,
                 Some threads, Some start) \<Rightarrow>
                  Some \<lparr>ps_pid = to_int32 pid, ps_comm = comm, ps_state = words ! 0 ! 0,
                        ps_parentPid = to_int32 parent, ps_processGroup = to_int32 pgrp,
                        ps_session = to_int32 session, ps_userTicks = user, ps_systemTicks = system,
                        ps_childUserTicks = NonNegative (words ! 13),
                        ps_childSystemTicks = NonNegative (words ! 14),
                        ps_threads = to_int32 threads, ps_startTicks = start,
                        ps_rssPages = NonNegative (words ! 21)\<rparr>
              | _ \<Rightarrow> None))"

record CpuTimes =
  ct_busy :: "64 word"
  ct_total :: "64 word"

fun find_cpu_line :: "string list \<Rightarrow> CpuTimes option" where
  "find_cpu_line [] = None"
| "find_cpu_line (line # lines) =
     (let words = SplitWords line
      in if length words < 5 \<or> words ! 0 \<noteq> ''cpu'' then find_cpu_line lines
         else let value = (\<lambda>i. if i + 1 < length words then value_or_zero (ToUnsigned (words ! (i + 1))) else 0);
                  idle = value 3 + value 4;
                  busy = value 0 + value 1 + value 2 + value 5 + value 6 + value 7
              in Some \<lparr>ct_busy = busy, ct_total = busy + idle\<rparr>)"

definition ParseSystemCpu :: "string \<Rightarrow> CpuTimes option" where
  "ParseSystemCpu t = find_cpu_line (SplitLines t)"

record MemoryInfo =
  mi_totalBytes :: "64 word"
  mi_availableBytes :: "64 word"

definition ParseMemInfo :: "string \<Rightarrow> MemoryInfo option" where
  "ParseMemInfo t =
     (case FindKeyedValue t ''MemTotal'' of
        None \<Rightarrow> None
      | Some all \<Rightarrow>
          (let available =
             (case FindKeyedValue t ''MemAvailable'' of
                Some a \<Rightarrow> a
              | None \<Rightarrow> value_or_zero (FindKeyedValue t ''MemFree'')
                  + value_or_zero (FindKeyedValue t ''Buffers'')
                  + value_or_zero (FindKeyedValue t ''Cached''))
           in Some \<lparr>mi_totalBytes = all * 1024, mi_availableBytes = available * 1024\<rparr>))"

record IoCounters =
  io_readBytes :: "64 word"
  io_writeBytes :: "64 word"

definition ParseProcessIo :: "string \<Rightarrow> IoCounters option" where
  "ParseProcessIo t =
     (case (FindKeyedValue t ''read_bytes'', FindKeyedValue t ''write_bytes'') of
        (Some r, Some w) \<Rightarrow> Some \<lparr>io_readBytes = r, io_writeBytes = w\<rparr>
      | _ \<Rightarrow> None)"

definition ParseCgroupCpuStat :: "string \<Rightarrow> 64 word option" where
  "ParseCgroupCpuStat t = FindFlatValue t ''usage_usec''"

record DeviceIo =
  di_device :: string
  di_readBytes :: "64 word"
  di_writeBytes :: "64 word"

definition io_word :: "string \<Rightarrow> DeviceIo \<Rightarrow> DeviceIo" where
  "io_word w d =
     (if CHR ''='' \<notin> set w then d
      else let key = takeWhile (\<lambda>c. c \<noteq> CHR ''='') w;
               value = value_or_zero (ToUnsigned (drop (length key + 1) w))
           in if key = ''rbytes'' then d\<lparr>di_readBytes := value\<rparr>
              else if key = ''wbytes'' then d\<lparr>di_writeBytes := value\<rparr>
              else d)"

definition ParseCgroupIoStat :: "string \<Rightarrow> DeviceIo list" where
  "ParseCgroupIoStat t =
     map (\<lambda>words. fold io_word (tl words) \<lparr>di_device = hd words, di_readBytes = 0, di_writeBytes = 0\<rparr>)
       (filter (\<lambda>words. words \<noteq> []) (map SplitWords (SplitLines t)))"

definition ParseMemoryEvents :: "string \<Rightarrow> 32 word option" where
  "ParseMemoryEvents t = map_option (\<lambda>k. ucast k) (FindFlatValue t ''oom_kill'')"

text \<open>The words of a mountinfo line after its first dash, from the seventh word on.\<close>

fun after_dash :: "string list \<Rightarrow> string list" where
  "after_dash [] = []"
| "after_dash (w # ws) = (if w = ''-'' then ws else after_dash ws)"

fun find_mount :: "string list \<Rightarrow> string option" where
  "find_mount [] = None"
| "find_mount (line # lines) =
     (let words = SplitWords line; fs = after_dash (drop 6 words)
      in if fs \<noteq> [] \<and> hd fs = ''cgroup2'' \<and> length words > 4
         then Some (UnescapeMountField (words ! 4))
         else find_mount lines)"

definition FindCgroup2Mount :: "string \<Rightarrow> string option" where
  "FindCgroup2Mount mountInfo = find_mount (SplitLines mountInfo)"

definition FindUnifiedCgroupPath :: "string \<Rightarrow> string option" where
  "FindUnifiedCgroupPath selfCgroup =
     map_option (\<lambda>line. rev (dropWhile is_blank (rev (drop 3 line))))
       (find (\<lambda>line. take 3 line = ''0::'') (SplitLines selfCgroup))"

section \<open>The files\<close>

text \<open>
  What the program asks of the file system: the contents of a file it can read, whether a path is
  a directory or exists, and the entries of a directory with whether each is one (no value when it
  cannot be listed).
\<close>

record 'w os_files =
  of_read :: "string \<Rightarrow> 'w \<Rightarrow> string option"
  of_isDirectory :: "string \<Rightarrow> 'w \<Rightarrow> bool"
  of_exists :: "string \<Rightarrow> 'w \<Rightarrow> bool"
  of_list :: "string \<Rightarrow> 'w \<Rightarrow> (string \<times> bool) list option"

definition ReadTextFile :: "('w, 'more) os_files_scheme \<Rightarrow> string \<Rightarrow> 'w \<Rightarrow> string option" where
  "ReadTextFile os path w = of_read os path w"

definition pid_of_name :: "string \<Rightarrow> int option" where
  "pid_of_name n =
     (case ToUnsigned n of
        Some v \<Rightarrow> (if 0 < v \<and> v \<le> 0x7fffffff then Some (uint v) else None)
      | None \<Rightarrow> None)"

definition ProcFs_ListPids :: "('w, 'more) os_files_scheme \<Rightarrow> string \<Rightarrow> 'w \<Rightarrow> int list" where
  "ProcFs_ListPids os root w =
     (case of_list os root w of
        None \<Rightarrow> []
      | Some entries \<Rightarrow> List.map_filter (\<lambda>(n, dir). pid_of_name n) entries)"

definition pid_path :: "string \<Rightarrow> int \<Rightarrow> string \<Rightarrow> string" where
  "pid_path root pid leaf = root @ ''/'' @ to_string pid @ leaf"

definition ReadProcessStat ::
  "('w, 'more) os_files_scheme \<Rightarrow> string \<Rightarrow> int \<Rightarrow> 'w \<Rightarrow> ProcessStat option" where
  "ReadProcessStat os root pid w =
     Option.bind (ReadTextFile os (pid_path root pid ''/stat'') w) ParseProcessStat"

definition ReadProcessIo ::
  "('w, 'more) os_files_scheme \<Rightarrow> string \<Rightarrow> int \<Rightarrow> 'w \<Rightarrow> IoCounters option" where
  "ReadProcessIo os root pid w =
     Option.bind (ReadTextFile os (pid_path root pid ''/io'') w) ParseProcessIo"

definition CountOpenFiles :: "('w, 'more) os_files_scheme \<Rightarrow> string \<Rightarrow> int \<Rightarrow> 'w \<Rightarrow> int" where
  "CountOpenFiles os root pid w =
     (case of_list os (pid_path root pid ''/fd'') w of
        None \<Rightarrow> - 1 | Some entries \<Rightarrow> int (length entries))"

definition ProcessExists :: "('w, 'more) os_files_scheme \<Rightarrow> string \<Rightarrow> int \<Rightarrow> 'w \<Rightarrow> bool" where
  "ProcessExists os root pid w = of_isDirectory os (pid_path root pid []) w"

definition ReadSystemCpu :: "('w, 'more) os_files_scheme \<Rightarrow> string \<Rightarrow> 'w \<Rightarrow> CpuTimes option" where
  "ReadSystemCpu os root w = Option.bind (ReadTextFile os (root @ ''/stat'') w) ParseSystemCpu"

definition ReadMemory :: "('w, 'more) os_files_scheme \<Rightarrow> string \<Rightarrow> 'w \<Rightarrow> MemoryInfo option" where
  "ReadMemory os root w = Option.bind (ReadTextFile os (root @ ''/meminfo'') w) ParseMemInfo"

section \<open>The snapshot of the process table\<close>

definition stat_entry :: "64 word \<Rightarrow> 64 word \<Rightarrow> ProcessStat \<Rightarrow> ProcessEntry" where
  "stat_entry ticksPerSecond pageSize stat =
     \<lparr>pe_pid = ps_pid stat, pe_parentPid = ps_parentPid stat,
      pe_processGroup = ps_processGroup stat, pe_session = ps_session stat,
      pe_cpuTimeUsec = (ps_userTicks stat + ps_systemTicks stat) * 1000000 div ticksPerSecond,
      pe_childCpuTimeUsec =
        (ps_childUserTicks stat + ps_childSystemTicks stat) * 1000000 div ticksPerSecond,
      pe_rssBytes = ps_rssPages stat * pageSize, pe_threads = ps_threads stat,
      pe_zombie = (ps_state stat = CHR ''Z'' \<or> ps_state stat = CHR ''X'')\<rparr>"

text \<open>\<open>ticks\<close> and \<open>page\<close> are the results of \<open>sysconf\<close>.\<close>

definition ProcessTable_Capture ::
  "('w, 'more) os_files_scheme \<Rightarrow> int \<Rightarrow> int \<Rightarrow> 'w \<Rightarrow> ProcessTable" where
  "ProcessTable_Capture os ticks page w =
     (let ticksPerSecond = (if ticks > 0 then word_of_int ticks else 100);
          pageSize = (if page > 0 then word_of_int page else 4096)
      in fold (\<lambda>pid table.
           case ReadProcessStat os ''/proc'' pid w of
             None \<Rightarrow> table
           | Some stat \<Rightarrow> ProcessTable_Add (stat_entry ticksPerSecond pageSize stat) table)
         (ProcFs_ListPids os ''/proc'' w) [])"

section \<open>What the kernel prints parses back\<close>

definition plain_word :: "string \<Rightarrow> bool" where
  "plain_word w \<longleftrightarrow> w \<noteq> [] \<and> (\<forall>c \<in> set w. \<not> is_blank c)"

fun spaced :: "string list \<Rightarrow> string" where
  "spaced [] = []"
| "spaced [w] = w"
| "spaced (w # ws) = w @ CHR '' '' # spaced ws"

definition printed_lines :: "string list \<Rightarrow> string" where
  "printed_lines ls = concat (map (\<lambda>l. l @ [CHR 0x0A]) ls)"

lemma SplitWords_blanks: "\<forall>c \<in> set t. is_blank c \<Longrightarrow> SplitWords t = []"
  by (subst SplitWords.simps) (simp add: dropWhile_eq_Nil_conv)

lemma SplitWords_skip: "is_blank c \<Longrightarrow> SplitWords (c # t) = SplitWords t"
  by (subst (1 2) SplitWords.simps) simp

lemma SplitWords_word:
  assumes "plain_word w" and "t = [] \<or> is_blank (hd t)"
  shows "SplitWords (w @ t) = w # SplitWords t"
proof -
  obtain c cs where w: "w = c # cs" using assms(1) by (cases w) (auto simp: plain_word_def)
  then have first: "dropWhile is_blank (w @ t) = w @ t" using assms(1) by (simp add: plain_word_def)
  have parts: "takeWhile (\<lambda>c. \<not> is_blank c) (w @ t) = w" "dropWhile (\<lambda>c. \<not> is_blank c) (w @ t) = t"
    using assms by (auto simp: plain_word_def takeWhile_append dropWhile_append takeWhile_eq_Nil_iff
        dropWhile_eq_self_iff)
  have "SplitWords (w @ t) = takeWhile (\<lambda>c. \<not> is_blank c) (w @ t) # SplitWords (dropWhile (\<lambda>c. \<not> is_blank c) (w @ t))"
    using w by (subst SplitWords.simps, unfold first Let_def) simp
  with parts show ?thesis by simp
qed

lemma SplitWords_spaced:
  assumes "\<forall>w \<in> set ws. plain_word w" and "\<forall>c \<in> set t. is_blank c"
  shows "SplitWords (spaced ws @ t) = ws"
  using assms
proof (induction ws rule: spaced.induct)
  case (2 w)
  have "t = [] \<or> is_blank (hd t)" using assms(2) by (cases t) auto
  with 2 show ?case by (simp add: SplitWords_word SplitWords_blanks)
next
  case (3 w v ws)
  have blank: "is_blank (CHR '' '')" by (simp add: is_blank_def)
  have "SplitWords (w @ CHR '' '' # spaced (v # ws) @ t) = w # SplitWords (CHR '' '' # spaced (v # ws) @ t)"
    using 3(2) blank by (intro SplitWords_word) auto
  with 3 blank show ?case by (simp add: SplitWords_skip)
qed (simp add: SplitWords_blanks)

lemma SplitLines_Cons:
  "CHR 0x0A \<notin> set l \<Longrightarrow> SplitLines (l @ CHR 0x0A # t) = l # SplitLines t"
  by (subst SplitLines.simps) (simp add: takeWhile_append dropWhile_append)

lemma SplitLines_printed:
  "\<forall>l \<in> set ls. CHR 0x0A \<notin> set l \<Longrightarrow> SplitLines (printed_lines ls) = ls"
proof (induction ls)
  case Nil
  then show ?case by (subst SplitLines.simps) (simp add: printed_lines_def)
next
  case (Cons l ls)
  then show ?case by (simp add: printed_lines_def SplitLines_Cons)
qed

lemma ToUnsigned_to_string [simp]: "ToUnsigned (to_string (uint (w :: 64 word))) = Some w"
proof -
  have "uint w < 2 ^ LENGTH(64)" by (rule uint_lt2p)
  then show ?thesis
    by (simp add: ToUnsigned_def to_string_def from_chars_unsigned_def uint64_max_def not_less Let_def)
qed

lemma ToSigned_to_string:
  "- (2 ^ 63) \<le> i \<Longrightarrow> i < 2 ^ 63 \<Longrightarrow> ToSigned (to_string i) = Some i"
  by (simp add: ToSigned_def from_chars_signed_to_string int64_min_def int64_max_def) (simp add: to_string_def)

lemma NonNegative_to_string:
  fixes w :: "64 word"
  assumes "uint w < 2 ^ 63"
  shows "NonNegative (to_string (uint w)) = w"
proof -
  have "(- (2 ^ 63) :: int) \<le> 0" by simp
  also have "0 \<le> uint w" by simp
  finally show ?thesis using assms by (simp add: NonNegative_def ToSigned_to_string)
qed

lemma to_string_chars: "c \<in> set (to_string i) \<Longrightarrow> is_digit c \<or> c = CHR ''-''"
  by (auto simp: to_string_def digits10_digits split: if_splits)

lemma digit_not_special: "is_digit c \<or> c = CHR ''-'' \<Longrightarrow>
  \<not> is_blank c \<and> c \<noteq> CHR ''('' \<and> c \<noteq> CHR '')'' \<and> c \<noteq> CHR 0x0A"
  by (auto simp: is_digit_def is_blank_def char_code_def)

lemma plain_to_string [simp]: "plain_word (to_string i)"
  using to_string_chars digit_not_special by (fastforce simp: plain_word_def to_string_def)

lemma to_string_no_paren [simp]:
  "CHR ''('' \<notin> set (to_string i)" "CHR '')'' \<notin> set (to_string i)" "CHR 0x0A \<notin> set (to_string i)"
  using to_string_chars digit_not_special by blast+

lemma split_comm_printed:
  assumes "CHR ''('' \<notin> set head" and "CHR '')'' \<notin> set tail"
  shows "split_comm (head @ CHR ''('' # comm @ CHR '')'' # tail) = Some (head, comm, tail)"
proof -
  let ?t = "head @ CHR ''('' # comm @ CHR '')'' # tail"
  have h: "takeWhile (\<lambda>c. c \<noteq> CHR ''('') ?t = head" using assms(1) by (simp add: takeWhile_append)
  have t: "takeWhile (\<lambda>c. c \<noteq> CHR '')'') (rev ?t) = rev tail" using assms(2) by (simp add: takeWhile_append)
  show ?thesis
    unfolding split_comm_def h t by (simp add: Let_def)
qed

text \<open>
  \<open>/proc/PID/stat\<close> as the kernel prints it: \<open>other\<close> gives the fields the manager does not read, by
  their place after the command name, and \<open>extra\<close> the ones after the last it reads.
\<close>

definition stat_words :: "ProcessStat \<Rightarrow> (nat \<Rightarrow> string) \<Rightarrow> string list \<Rightarrow> string list" where
  "stat_words p other extra =
     [[ps_state p], to_string (ps_parentPid p), to_string (ps_processGroup p), to_string (ps_session p)]
     @ map other [4..<11]
     @ [to_string (uint (ps_userTicks p)), to_string (uint (ps_systemTicks p)),
        to_string (uint (ps_childUserTicks p)), to_string (uint (ps_childSystemTicks p)),
        other 15, other 16, to_string (ps_threads p), other 18, to_string (uint (ps_startTicks p)),
        other 20, to_string (uint (ps_rssPages p))] @ extra"

definition stat_text :: "ProcessStat \<Rightarrow> (nat \<Rightarrow> string) \<Rightarrow> string list \<Rightarrow> string" where
  "stat_text p other extra =
     to_string (ps_pid p) @ '' ('' @ ps_comm p @ '') '' @ spaced (stat_words p other extra) @ [CHR 0x0A]"

definition int32 :: "int \<Rightarrow> bool" where
  "int32 i \<longleftrightarrow> - (2 ^ 31) \<le> i \<and> i < 2 ^ 31"

definition stat_fits :: "ProcessStat \<Rightarrow> bool" where
  "stat_fits p \<longleftrightarrow> int32 (ps_pid p) \<and> int32 (ps_parentPid p) \<and> int32 (ps_processGroup p)
     \<and> int32 (ps_session p) \<and> int32 (ps_threads p) \<and> \<not> is_blank (ps_state p) \<and> ps_state p \<noteq> CHR '')''
     \<and> uint (ps_childUserTicks p) < 2 ^ 63 \<and> uint (ps_childSystemTicks p) < 2 ^ 63
     \<and> uint (ps_rssPages p) < 2 ^ 63"

definition stat_word :: "string \<Rightarrow> bool" where
  "stat_word w \<longleftrightarrow> plain_word w \<and> CHR '')'' \<notin> set w"

lemma int32_simps [simp]:
  "int32 i \<Longrightarrow> to_int32 i = i" "int32 i \<Longrightarrow> ToSigned (to_string i) = Some i"
  by (simp_all add: int32_def to_int32_id ToSigned_to_string)

lemma set_spaced: "set (spaced ws) \<subseteq> insert (CHR '' '') (\<Union>w \<in> set ws. set w)"
  by (induction ws rule: spaced.induct) auto

lemma ParseProcessStat_printed:
  assumes "stat_fits p" and "\<And>i. stat_word (other i)" and "\<forall>w \<in> set extra. stat_word w"
  shows "ParseProcessStat (stat_text p other extra) = Some p"
proof -
  let ?ws = "stat_words p other extra"
  let ?tail = "CHR '' '' # spaced ?ws @ [CHR 0x0A]"
  have words: "\<forall>w \<in> set ?ws. stat_word w"
    using assms by (auto simp: stat_words_def stat_word_def stat_fits_def plain_word_def [of "[_]"])
  have "CHR '')'' \<notin> set ?tail"
    using set_spaced [of ?ws] words by (auto simp: stat_word_def)
  then have "split_comm (stat_text p other extra) = Some (to_string (ps_pid p) @ '' '', ps_comm p, ?tail)"
    using split_comm_printed [of "to_string (ps_pid p) @ '' ''" ?tail "ps_comm p"]
    by (simp add: stat_text_def)
  moreover have "SplitWords (to_string (ps_pid p) @ '' '') = [to_string (ps_pid p)]"
    using SplitWords_spaced [of "[to_string (ps_pid p)]" "'' ''"] by (simp add: is_blank_def)
  moreover have "SplitWords ?tail = ?ws"
    using SplitWords_spaced [of ?ws "[CHR 0x0A]"] words by (simp add: SplitWords_skip is_blank_def stat_word_def)
  ultimately show ?thesis
    using assms(1) by (simp add: ParseProcessStat_def stat_words_def upt_conv_Cons stat_fits_def NonNegative_to_string)
qed

subsection \<open>Mounts\<close>

text \<open>The kernel prints a blank or a backslash of a path as its octal code.\<close>

fun mangled :: "string \<Rightarrow> string" where
  "mangled [] = []"
| "mangled (c # cs) =
     (if c = CHR '' '' then CHR 0x5C # ''040'' @ mangled cs
      else if c = CHR 0x09 then CHR 0x5C # ''011'' @ mangled cs
      else if c = CHR 0x0A then CHR 0x5C # ''012'' @ mangled cs
      else if c = CHR 0x5C then CHR 0x5C # ''134'' @ mangled cs
      else c # mangled cs)"

lemma Unescape_other: "c \<noteq> CHR 0x5C \<Longrightarrow> UnescapeMountField (c # cs) = c # UnescapeMountField cs"
  by (cases cs; cases "tl cs"; cases "tl (tl cs)") (auto split: list.splits)

lemma char_codes:
  "char_of (32 :: nat) = CHR '' ''" "char_of (9 :: nat) = CHR 0x09" "char_of (10 :: nat) = CHR 0x0A"
  "char_of (92 :: nat) = CHR 0x5C"
  by code_simp+

lemma Unescape_mangled [simp]: "UnescapeMountField (mangled s) = s"
  by (induction s) (auto simp: Unescape_other is_octal_def digit_val_def char_code_def char_codes)

record Mount =
  mt_ids :: "string list"
  mt_point :: string
  mt_options :: string
  mt_optional :: "string list"
  mt_type :: string
  mt_source :: string
  mt_super :: string

definition mount_words :: "Mount \<Rightarrow> string list" where
  "mount_words m = mt_ids m @ [mangled (mt_point m), mt_options m] @ mt_optional m
     @ [''-'', mt_type m, mt_source m, mt_super m]"

definition mount_fits :: "Mount \<Rightarrow> bool" where
  "mount_fits m \<longleftrightarrow> length (mt_ids m) = 4 \<and> list_all plain_word (mt_ids m) \<and> mt_point m \<noteq> []
     \<and> CHR 0x0D \<notin> set (mt_point m) \<and> plain_word (mt_options m)
     \<and> list_all (\<lambda>w. plain_word w \<and> w \<noteq> ''-'') (mt_optional m)
     \<and> plain_word (mt_type m) \<and> plain_word (mt_source m) \<and> plain_word (mt_super m)"

lemma plain_mangled: "s \<noteq> [] \<Longrightarrow> CHR 0x0D \<notin> set s \<Longrightarrow> plain_word (mangled s)"
proof -
  have "c \<in> set (mangled s) \<Longrightarrow> CHR 0x0D \<notin> set s \<Longrightarrow> \<not> is_blank c" for c
    by (induction s) (auto simp: is_blank_def split: if_splits)
  moreover have "s \<noteq> [] \<Longrightarrow> mangled s \<noteq> []" by (cases s) auto
  ultimately show "s \<noteq> [] \<Longrightarrow> CHR 0x0D \<notin> set s \<Longrightarrow> plain_word (mangled s)" by (auto simp: plain_word_def)
qed

lemma mount_words_plain: "mount_fits m \<Longrightarrow> \<forall>w \<in> set (mount_words m). plain_word w"
  by (auto simp: mount_fits_def mount_words_def plain_mangled list_all_iff)
    (auto simp: plain_word_def is_blank_def)

lemma after_dash_append: "''-'' \<notin> set ws \<Longrightarrow> after_dash (ws @ ''-'' # vs) = vs"
  by (induction ws) auto

lemma after_dash_mount:
  assumes "mount_fits m"
  shows "after_dash (drop 6 (mount_words m)) = [mt_type m, mt_source m, mt_super m]"
    and "mount_words m ! 4 = mangled (mt_point m)" and "length (mount_words m) > 4"
proof -
  obtain a b c d where ids: "mt_ids m = [a, b, c, d]"
    using assms by (auto simp: mount_fits_def length_Suc_conv numeral_eq_Suc)
  have "''-'' \<notin> set (mt_optional m)" using assms by (auto simp: mount_fits_def list_all_iff)
  then show "after_dash (drop 6 (mount_words m)) = [mt_type m, mt_source m, mt_super m]"
    using ids after_dash_append [of "mt_optional m"] by (simp add: mount_words_def)
  show "mount_words m ! 4 = mangled (mt_point m)" "length (mount_words m) > 4"
    using ids by (simp_all add: mount_words_def)
qed

lemma spaced_no_newline: "\<forall>w \<in> set ws. plain_word w \<Longrightarrow> CHR 0x0A \<notin> set (spaced ws)"
  using set_spaced [of ws] by (fastforce simp: plain_word_def is_blank_def)

lemma FindCgroup2Mount_printed:
  assumes "\<forall>m \<in> set ms. mount_fits m"
  shows "FindCgroup2Mount (printed_lines (map (\<lambda>m. spaced (mount_words m)) ms))
    = map_option mt_point (find (\<lambda>m. mt_type m = ''cgroup2'') ms)"
proof -
  have "SplitLines (printed_lines (map (\<lambda>m. spaced (mount_words m)) ms)) = map (\<lambda>m. spaced (mount_words m)) ms"
    using assms by (intro SplitLines_printed) (auto intro!: spaced_no_newline mount_words_plain)
  moreover have "SplitWords (spaced (mount_words m)) = mount_words m" if "mount_fits m" for m
    using SplitWords_spaced [OF mount_words_plain [OF that], of "[]"] by simp
  then have "find_mount (map (\<lambda>m. spaced (mount_words m)) ms)
      = map_option mt_point (find (\<lambda>m. mt_type m = ''cgroup2'') ms)"
    using assms by (induction ms) (auto simp: Let_def after_dash_mount)
  ultimately show ?thesis by (simp add: FindCgroup2Mount_def)
qed

section \<open>Properties\<close>

text \<open>
  C39: \<open>/proc/PID/stat\<close> as the kernel prints it is read back field by field, for any command name,
  blanks, parentheses and line ends included.
\<close>

theorem process_stat_round_trip:
  assumes "stat_fits p" and "\<And>i. stat_word (other i)" and "\<forall>w \<in> set extra. stat_word w"
  shows "ParseProcessStat (stat_text p other extra) = Some p"
  using assms by (rule ParseProcessStat_printed)

definition sample_stat :: ProcessStat where
  "sample_stat =
     \<lparr>ps_pid = 42, ps_comm = ''a) (b'', ps_state = CHR ''S'', ps_parentPid = 1, ps_processGroup = 42,
      ps_session = 42, ps_userTicks = 7, ps_systemTicks = 8, ps_childUserTicks = 0,
      ps_childSystemTicks = 0, ps_threads = 3, ps_startTicks = 99, ps_rssPages = 12\<rparr>"

theorem process_stat_round_trip_witness:
  "ParseProcessStat (stat_text sample_stat (\<lambda>i. ''0'') []) = Some sample_stat
   \<and> take 16 (stat_text sample_stat (\<lambda>i. ''0'') []) = ''42 (a) (b) S 1 4''"
proof -
  have "stat_fits sample_stat" by (simp add: stat_fits_def sample_stat_def int32_def is_blank_def)
  moreover have "stat_word ''0''" by (simp add: stat_word_def plain_word_def is_blank_def)
  ultimately have "ParseProcessStat (stat_text sample_stat (\<lambda>i. ''0'') []) = Some sample_stat"
    by (intro process_stat_round_trip) simp_all
  moreover have "take 16 (stat_text sample_stat (\<lambda>i. ''0'') []) = ''42 (a) (b) S 1 4''" by code_simp
  ultimately show ?thesis by blast
qed

text \<open>
  From the mount table the parser returns the mount point of the first cgroup v2 file system,
  with the octal escapes of the kernel undone, and nothing when there is none.
\<close>

theorem cgroup_mount_found:
  assumes "\<forall>m \<in> set ms. mount_fits m"
  shows "FindCgroup2Mount (printed_lines (map (\<lambda>m. spaced (mount_words m)) ms))
    = map_option mt_point (find (\<lambda>m. mt_type m = ''cgroup2'') ms)"
  using assms by (rule FindCgroup2Mount_printed)

definition sample_mount :: "string \<Rightarrow> string \<Rightarrow> Mount" where
  "sample_mount point type =
     \<lparr>mt_ids = [''30'', ''23'', ''0:26'', ''/''], mt_point = point, mt_options = ''rw'',
      mt_optional = [''shared:9''], mt_type = type, mt_source = ''x'', mt_super = ''rw''\<rparr>"

theorem cgroup_mount_found_witness:
  "FindCgroup2Mount (printed_lines (map (\<lambda>m. spaced (mount_words m))
     [sample_mount ''/proc'' ''proc'', sample_mount ''/my groups'' ''cgroup2''])) = Some ''/my groups''"
  by (subst cgroup_mount_found)
    (auto simp: sample_mount_def mount_fits_def plain_word_def is_blank_def)

end
