(* ===== verification/Cgroup_Tree.thy ===== *)
theory Cgroup_Tree
  imports Proc_Fs "HOL-Library.List_Lexorder" "HOL-Library.Char_ord"
begin

text \<open>
  The cgroup directories of the manager and its services (\<open>src/manager/include/CgroupTree.hpp\<close>,
  \<open>CgroupTree.cpp\<close>), as on Linux. The system calls are functions over the outside world that report
  an error number; an operation that changes the world returns the new one. The lemmas show what
  the operations write and when they leave the world alone.
\<close>

section \<open>The operating system\<close>

text \<open>
  \<open>fopen\<close> for writing gives the error number or a stream, \<open>fwrite\<close> the number of bytes taken and
  the error number, \<open>fclose\<close> whether it failed and the error number, \<open>create_directory\<close> and
  \<open>remove\<close> the error number or 0.
\<close>

record 'w os_cgroup = "'w os_files" +
  of_fopen :: "string \<Rightarrow> 'w \<Rightarrow> (int + nat) \<times> 'w"
  of_fwrite :: "nat \<Rightarrow> string \<Rightarrow> 'w \<Rightarrow> (nat \<times> int) \<times> 'w"
  of_fclose :: "nat \<Rightarrow> 'w \<Rightarrow> (bool \<times> int) \<times> 'w"
  of_createDirectory :: "string \<Rightarrow> 'w \<Rightarrow> int \<times> 'w"
  of_remove :: "string \<Rightarrow> 'w \<Rightarrow> int \<times> 'w"
  of_writable :: "string \<Rightarrow> 'w \<Rightarrow> bool"
  of_kill :: "int \<Rightarrow> int \<Rightarrow> 'w \<Rightarrow> 'w"
  of_sleep :: "millis \<Rightarrow> 'w \<Rightarrow> 'w"
  of_errorText :: "int \<Rightarrow> string"

definition EPERM :: int where "EPERM = 1"
definition EIO :: int where "EIO = 5"
definition EACCES :: int where "EACCES = 13"
definition EROFS :: int where "EROFS = 30"
definition SIGKILL :: int where "SIGKILL = 9"

datatype CgroupCode = CG_Ok | CG_Unsupported | CG_NoPermission | CG_Failed

record CgroupStats =
  cs_cpuUsageUsec :: "64 word"
  cs_ioReadBytes :: "64 word"
  cs_ioWriteBytes :: "64 word"
  cs_oomKills :: "32 word"
  cs_hasCpu :: bool
  cs_hasIo :: bool

record CgroupTree =
  cg_root :: string
  cg_blockDevices :: string
  cg_enabled :: "string list"

section \<open>Helpers\<close>

fun words_loop :: "string \<Rightarrow> string \<Rightarrow> string list \<Rightarrow> string list" where
  "words_loop [] current ws = (if current \<noteq> [] then ws @ [current] else ws)"
| "words_loop (c # cs) current ws =
     (if c = CHR '' '' \<or> c = CHR 0x0A \<or> c = CHR 0x09 \<or> c = CHR 0x0D
      then (if current \<noteq> [] then words_loop cs [] (ws @ [current]) else words_loop cs current ws)
      else words_loop cs (current @ [c]) ws)"

definition Words :: "string \<Rightarrow> string list" where
  "Words t = words_loop t [] []"

text \<open>
  The digits of a word and whether it has nothing else. The code computes in \<open>int\<close>; the process
  IDs of the kernel stay below \<open>2 ^ 22\<close>.
\<close>

definition pid_digit :: "char \<Rightarrow> bool \<times> int \<Rightarrow> bool \<times> int" where
  "pid_digit c st =
     (let digits = fst st \<and> is_digit c
      in (digits, if digits then snd st * 10 + int (digit_val c) else 0))"

definition word_pid :: "string \<Rightarrow> int option" where
  "word_pid w =
     (let (digits, pid) = fold pid_digit w (w \<noteq> [], 0) in if digits \<and> pid > 0 then Some pid else None)"

definition ReadPids :: "('w, 'more) os_files_scheme \<Rightarrow> string \<Rightarrow> 'w \<Rightarrow> int list" where
  "ReadPids os path w =
     (case ReadTextFile os path w of None \<Rightarrow> [] | Some t \<Rightarrow> List.map_filter word_pid (Words t))"

text \<open>The result is 0 or the error number of the failing call.\<close>

definition or_EIO :: "int \<Rightarrow> int" where
  "or_EIO e = (if e \<noteq> 0 then e else EIO)"

definition WriteText :: "('w, 'more) os_cgroup_scheme \<Rightarrow> string \<Rightarrow> string \<Rightarrow> 'w \<Rightarrow> int \<times> 'w" where
  "WriteText os path t w =
     (case of_fopen os path w of
        (Inl e, w) \<Rightarrow> (or_EIO e, w)
      | (Inr f, w) \<Rightarrow>
          (case of_fwrite os f t w of
             ((n, e), w) \<Rightarrow>
               (let failure = (if n \<noteq> length t then or_EIO e else 0)
                in case of_fclose os f w of
                     ((failed, e), w) \<Rightarrow> (if failed \<and> failure = 0 then or_EIO e else failure, w))))"

definition CodeFor :: "int \<Rightarrow> CgroupCode" where
  "CodeFor e = (if e = EACCES \<or> e = EPERM \<or> e = EROFS then CG_NoPermission else CG_Failed)"

section \<open>Paths and controllers\<close>

definition task_prefix :: string where "task_prefix = ''task_''"
definition supervisor_leaf :: string where "supervisor_leaf = ''supervisor''"
definition cpu_period_usec :: "64 word" where "cpu_period_usec = 100000"
definition kill_attempts :: nat where "kill_attempts = 10"
definition kill_pass_pause :: millis where "kill_pass_pause = 2"

definition GroupPath :: "CgroupTree \<Rightarrow> string \<Rightarrow> string" where
  "GroupPath t service = cg_root t @ ''/'' @ task_prefix @ service"

definition ProcsPath :: "CgroupTree \<Rightarrow> string \<Rightarrow> string" where
  "ProcsPath t service = GroupPath t service @ ''/cgroup.procs''"

definition ControllerEnabled :: "CgroupTree \<Rightarrow> string \<Rightarrow> bool" where
  "ControllerEnabled t controller \<longleftrightarrow> controller \<in> set (cg_enabled t)"

definition text_or_empty :: "string option \<Rightarrow> string" where
  "text_or_empty t = (case t of Some s \<Rightarrow> s | None \<Rightarrow> [])"

definition LoadEnabled :: "('w, 'more) os_files_scheme \<Rightarrow> 'w \<Rightarrow> CgroupTree \<Rightarrow> CgroupTree" where
  "LoadEnabled os w t =
     t\<lparr>cg_enabled := Words (text_or_empty (ReadTextFile os (cg_root t @ ''/cgroup.subtree_control'') w))\<rparr>"

definition new_CgroupTree :: "('w, 'more) os_files_scheme \<Rightarrow> string \<Rightarrow> string \<Rightarrow> 'w \<Rightarrow> CgroupTree" where
  "new_CgroupTree os root blockDevices w =
     LoadEnabled os w \<lparr>cg_root = root, cg_blockDevices = blockDevices, cg_enabled = []\<rparr>"

text \<open>\<open>IsStacked\<close>: the device is digits and colons, and its \<open>slaves\<close> directory has an entry.\<close>

definition IsStacked :: "('w, 'more) os_files_scheme \<Rightarrow> 'w \<Rightarrow> CgroupTree \<Rightarrow> string \<Rightarrow> bool" where
  "IsStacked os w t device \<longleftrightarrow>
     device \<noteq> [] \<and> list_all (\<lambda>c. is_digit c \<or> c = CHR '':'') device
     \<and> (case of_list os (cg_blockDevices t @ ''/'' @ device @ ''/slaves'') w of
          None \<Rightarrow> False | Some entries \<Rightarrow> entries \<noteq> [])"

section \<open>Setting up\<close>

text \<open>The directory of this process, or a code with the reason.\<close>

definition Locate ::
  "('w, 'more) os_cgroup_scheme \<Rightarrow> string \<Rightarrow> 'w \<Rightarrow> (CgroupCode \<times> string) + string" where
  "Locate os procRoot w =
     (case ReadTextFile os (procRoot @ ''/self/mountinfo'') w of
        None \<Rightarrow> Inl (CG_Unsupported, ''cannot read '' @ procRoot @ ''/self/mountinfo'')
      | Some mountInfo \<Rightarrow>
          (case FindCgroup2Mount mountInfo of
             None \<Rightarrow> Inl (CG_Unsupported, ''no cgroup v2 file system is mounted'')
           | Some mount \<Rightarrow>
               (case Option.bind (ReadTextFile os (procRoot @ ''/self/cgroup'') w) FindUnifiedCgroupPath of
                  None \<Rightarrow> Inl (CG_Unsupported, ''this process has no cgroup v2 path'')
                | Some path \<Rightarrow>
                    (let candidate = (if path = ''/'' then mount else mount @ path)
                     in if \<not> of_isDirectory os candidate w
                        then Inl (CG_Unsupported, candidate @ '' does not exist'')
                        else if \<not> of_writable os candidate w
                             \<or> \<not> of_writable os (candidate @ ''/cgroup.procs'') w
                        then Inl (CG_NoPermission, candidate @
                               '' is not writable (run as root, or with Delegate=yes under systemd)'')
                        else Inr candidate))))"

definition join_error :: "string \<Rightarrow> string \<Rightarrow> string" where
  "join_error error t = error @ (if error = [] then [] else ''; '') @ t"

definition enable_controller ::
  "('w, 'more) os_cgroup_scheme \<Rightarrow> string \<Rightarrow> string \<Rightarrow> string \<times> 'w \<Rightarrow> string \<times> 'w" where
  "enable_controller os root controller st =
     (case WriteText os (root @ ''/cgroup.subtree_control'') (''+'' @ controller) (snd st) of
        (failure, w) \<Rightarrow>
          (if failure \<noteq> 0 then join_error (fst st) (controller @ '' controller: '' @ of_errorText os failure)
           else fst st, w))"

definition missing_controllers :: "('w, 'more) os_files_scheme \<Rightarrow> 'w \<Rightarrow> CgroupTree \<Rightarrow> string list" where
  "missing_controllers os w t =
     (let available = Words (text_or_empty (ReadTextFile os (cg_root t @ ''/cgroup.controllers'') w))
      in filter (\<lambda>c. c \<in> set available \<and> \<not> ControllerEnabled t c) [''cpu'', ''memory'', ''io'', ''pids''])"

text \<open>Moving the manager out of its cgroup; the result is a failure, or nothing.\<close>

definition move_manager ::
  "('w, 'more) os_cgroup_scheme \<Rightarrow> string \<Rightarrow> int \<Rightarrow> 'w \<Rightarrow> (CgroupCode \<times> string) option \<times> 'w" where
  "move_manager os root managerPid w =
     (let leaf = root @ ''/'' @ supervisor_leaf
      in case of_createDirectory os leaf w of
           (status, w) \<Rightarrow>
             if status \<noteq> 0
             then (Some (CodeFor status, ''cannot create '' @ leaf @ '': '' @ of_errorText os status), w)
             else (case WriteText os (leaf @ ''/cgroup.procs'') (to_string managerPid) w of
                     (failure, w) \<Rightarrow>
                       (if failure \<noteq> 0
                        then Some (CodeFor failure, ''cannot move the manager to '' @ leaf @ '': ''
                                     @ of_errorText os failure)
                        else None, w)))"

definition Prepare ::
  "('w, 'more) os_cgroup_scheme \<Rightarrow> int \<Rightarrow> 'w \<times> CgroupTree \<Rightarrow> (CgroupCode \<times> string) \<times> 'w \<times> CgroupTree" where
  "Prepare os managerPid wt =
     (let w = fst wt; t = snd wt; root = cg_root t; missing = missing_controllers os w t;
          enable = (\<lambda>w. case fold (enable_controller os root) missing ([], w) of
                      (error, w) \<Rightarrow> ((CG_Ok, error), w, LoadEnabled os w t))
      in if missing = [] then ((CG_Ok, []), w, t)
         else if of_exists os (root @ ''/cgroup.type'') w then
           (if list_ex (\<lambda>pid. pid \<noteq> managerPid) (ReadPids os (root @ ''/cgroup.procs'') w)
            then ((CG_Ok, root @ '' also holds other processes, so the manager leaves its controllers off ''
                    @ ''and memory_max and cpu_max are not applied''), w, t)
            else case move_manager os root managerPid w of
                   (Some failure, w) \<Rightarrow> (failure, w, t)
                 | (None, w) \<Rightarrow> enable w)
         else enable w)"

section \<open>Task groups\<close>

definition CreateGroup ::
  "('w, 'more) os_cgroup_scheme \<Rightarrow> CgroupTree \<Rightarrow> string \<Rightarrow> 'w \<Rightarrow> (CgroupCode \<times> string) \<times> 'w" where
  "CreateGroup os t service w =
     (case of_createDirectory os (GroupPath t service) w of
        (status, w) \<Rightarrow>
          (if status \<noteq> 0
           then (CodeFor status, ''cannot create '' @ GroupPath t service @ '': '' @ of_errorText os status)
           else (CG_Ok, []), w))"

definition memory_limit :: "64 word \<Rightarrow> string" where
  "memory_limit memoryMax = (if memoryMax > 0 then to_string (uint memoryMax) else ''max'')"

definition cpu_quota :: "32 word \<Rightarrow> 64 word" where
  "cpu_quota percent = (ucast percent :: 64 word) * cpu_period_usec div 100"

definition cpu_limit :: "32 word \<Rightarrow> string" where
  "cpu_limit cpuMaxPercent =
     (if cpuMaxPercent > 0 then to_string (uint (cpu_quota cpuMaxPercent)) else ''max'')
       @ '' '' @ to_string (uint cpu_period_usec)"

definition apply_memory ::
  "('w, 'more) os_cgroup_scheme \<Rightarrow> CgroupTree \<Rightarrow> string \<Rightarrow> 64 word \<Rightarrow> 'w \<Rightarrow> (CgroupCode \<times> string) \<times> 'w" where
  "apply_memory os t service memoryMax w =
     (if ControllerEnabled t ''memory'' then
        (case WriteText os (GroupPath t service @ ''/memory.max'') (memory_limit memoryMax) w of
           (failure, w) \<Rightarrow>
             (if failure \<noteq> 0 then (CodeFor failure, ''memory.max: '' @ of_errorText os failure)
              else (CG_Ok, []), w))
      else if memoryMax > 0
      then ((CG_Unsupported, ''the memory controller is not enabled, so memory_max is not applied''), w)
      else ((CG_Ok, []), w))"

definition ApplyLimits ::
  "('w, 'more) os_cgroup_scheme \<Rightarrow> CgroupTree \<Rightarrow> string \<Rightarrow> 64 word \<Rightarrow> 32 word \<Rightarrow> 'w
   \<Rightarrow> (CgroupCode \<times> string) \<times> 'w" where
  "ApplyLimits os t service memoryMax cpuMaxPercent w =
     (case apply_memory os t service memoryMax w of
        ((result, error), w) \<Rightarrow>
          if ControllerEnabled t ''cpu'' then
            (case WriteText os (GroupPath t service @ ''/cpu.max'') (cpu_limit cpuMaxPercent) w of
               (failure, w) \<Rightarrow>
                 (if failure \<noteq> 0
                  then (if result = CG_Ok then CodeFor failure else result,
                        join_error error (''cpu.max: '' @ of_errorText os failure))
                  else (result, error), w))
          else if cpuMaxPercent > 0
          then ((if result = CG_Ok then CG_Unsupported else result,
                 join_error error ''the cpu controller is not enabled, so cpu_max is not applied''), w)
          else ((result, error), w))"

definition add_device ::
  "('w, 'more) os_files_scheme \<Rightarrow> 'w \<Rightarrow> CgroupTree \<Rightarrow> DeviceIo \<Rightarrow> CgroupStats \<Rightarrow> CgroupStats" where
  "add_device os w t d stats =
     (if IsStacked os w t (di_device d) then stats
      else stats\<lparr>cs_ioReadBytes := cs_ioReadBytes stats + di_readBytes d,
                 cs_ioWriteBytes := cs_ioWriteBytes stats + di_writeBytes d\<rparr>)"

definition ReadStats :: "('w, 'more) os_files_scheme \<Rightarrow> 'w \<Rightarrow> CgroupTree \<Rightarrow> string \<Rightarrow> CgroupStats" where
  "ReadStats os w t service =
     (let path = GroupPath t service;
          cpu = Option.bind (ReadTextFile os (path @ ''/cpu.stat'') w) ParseCgroupCpuStat;
          stats = \<lparr>cs_cpuUsageUsec = value_or_zero cpu, cs_ioReadBytes = 0, cs_ioWriteBytes = 0,
                   cs_oomKills = 0, cs_hasCpu = (cpu \<noteq> None), cs_hasIo = False\<rparr>;
          stats = (case ReadTextFile os (path @ ''/io.stat'') w of
                     None \<Rightarrow> stats
                   | Some io \<Rightarrow> fold (add_device os w t) (ParseCgroupIoStat io) (stats\<lparr>cs_hasIo := True\<rparr>))
      in case Option.bind (ReadTextFile os (path @ ''/memory.events'') w) ParseMemoryEvents of
           None \<Rightarrow> stats
         | Some kills \<Rightarrow> stats\<lparr>cs_oomKills := kills\<rparr>)"

definition ReadMembers :: "('w, 'more) os_files_scheme \<Rightarrow> 'w \<Rightarrow> CgroupTree \<Rightarrow> string \<Rightarrow> int list" where
  "ReadMembers os w t service = ReadPids os (ProcsPath t service) w"

text \<open>The passes without \<open>cgroup.kill\<close>.\<close>

fun kill_passes :: "nat \<Rightarrow> ('w, 'more) os_cgroup_scheme \<Rightarrow> CgroupTree \<Rightarrow> string \<Rightarrow> 'w \<Rightarrow> CgroupCode \<times> 'w" where
  "kill_passes 0 os t service w =
     (if ReadMembers os w t service = [] then CG_Ok else CG_Failed, w)"
| "kill_passes (Suc n) os t service w =
     (let members = ReadMembers os w t service
      in if members = [] then (CG_Ok, w)
         else kill_passes n os t service
                (of_sleep os kill_pass_pause (fold (\<lambda>pid. of_kill os pid SIGKILL) members w)))"

definition KillMembers :: "('w, 'more) os_cgroup_scheme \<Rightarrow> CgroupTree \<Rightarrow> string \<Rightarrow> 'w \<Rightarrow> CgroupCode \<times> 'w" where
  "KillMembers os t service w =
     (let path = GroupPath t service
      in if \<not> of_isDirectory os path w \<or> ReadMembers os w t service = [] then (CG_Ok, w)
         else if of_exists os (path @ ''/cgroup.kill'') w then
           (case WriteText os (path @ ''/cgroup.kill'') ''1'' w of
              (failure, w) \<Rightarrow>
                if failure = 0 then (CG_Ok, w) else kill_passes kill_attempts os t service w)
         else kill_passes kill_attempts os t service w)"

definition RemoveGroup :: "('w, 'more) os_cgroup_scheme \<Rightarrow> CgroupTree \<Rightarrow> string \<Rightarrow> 'w \<Rightarrow> CgroupCode \<times> 'w" where
  "RemoveGroup os t service w =
     (if \<not> of_exists os (GroupPath t service) w then (CG_Ok, w)
      else case of_remove os (GroupPath t service) w of
             (status, w) \<Rightarrow> (if status \<noteq> 0 then CG_Failed else CG_Ok, w))"

definition ListGroups :: "('w, 'more) os_files_scheme \<Rightarrow> 'w \<Rightarrow> CgroupTree \<Rightarrow> string list" where
  "ListGroups os w t =
     (case of_list os (cg_root t) w of
        None \<Rightarrow> []
      | Some entries \<Rightarrow>
          sort (map (\<lambda>(n, dir). drop (length task_prefix) n)
            (filter (\<lambda>(n, dir). dir \<and> length n > length task_prefix
                       \<and> take (length task_prefix) n = task_prefix) entries)))"

section \<open>What the operations do\<close>

lemma words_loop_blank:
  "is_blank c \<Longrightarrow> words_loop (c # cs) current ws = words_loop cs [] (if current \<noteq> [] then ws @ [current] else ws)"
  by (auto simp: is_blank_def)

lemma words_loop_append: "words_loop t current ws = ws @ words_loop t current []"
proof (induction t arbitrary: current ws)
  case (Cons c cs)
  show ?case
    using Cons [of "[]" ws] Cons [of "[]" "ws @ [current]"] Cons [of "[]" "[current]"] Cons [of current ws] Cons [of "current @ [c]" ws]
    by simp
qed simp

lemma words_loop_word:
  "\<forall>c \<in> set w. \<not> is_blank c \<Longrightarrow> words_loop (w @ t) current ws = words_loop t (current @ w) ws"
  by (induction w arbitrary: current) (auto simp: is_blank_def)

text \<open>The two ways of the program to split a text into words agree.\<close>

lemma Words_SplitWords: "Words t = SplitWords t"
proof (induction t rule: SplitWords.induct)
  case (1 t)
  let ?rest = "dropWhile is_blank t"
  have skip: "words_loop t [] [] = words_loop ?rest [] []"
    by (induction t) (auto simp: is_blank_def)
  show ?case
  proof (cases "?rest = []")
    case True
    with skip show ?thesis by (subst SplitWords.simps) (simp add: Words_def)
  next
    case False
    let ?w = "takeWhile (\<lambda>c. \<not> is_blank c) ?rest" and ?more = "dropWhile (\<lambda>c. \<not> is_blank c) ?rest"
    have "\<not> is_blank (hd ?rest)" using False by (rule hd_dropWhile)
    with False have w: "?w \<noteq> []" by (cases ?rest) auto
    have "words_loop ?rest [] [] = words_loop (?w @ ?more) [] []" by (simp only: takeWhile_dropWhile_id)
    also have "\<dots> = words_loop ?more ?w []"
      by (subst words_loop_word) (auto dest: set_takeWhileD)
    also have "\<dots> = ?w # words_loop ?more [] []"
    proof (cases ?more)
      case Nil
      with w show ?thesis unfolding Nil by simp
    next
      case (Cons c cs)
      then have "is_blank c" using hd_dropWhile [of "\<lambda>c. \<not> is_blank c" ?rest] by simp
      with w show ?thesis
        unfolding Cons by (simp add: words_loop_blank words_loop_append [of cs "[]" "[_]"] del: words_loop.simps)
    qed
    finally have "Words t = ?w # Words ?more" using skip by (simp add: Words_def)
    moreover have "Words ?more = SplitWords ?more" using 1 False by simp
    ultimately show ?thesis using False by (subst SplitWords.simps) (simp add: Let_def)
  qed
qed

text \<open>\<open>cgroup.procs\<close> lists one process ID per line.\<close>

lemma pid_digits:
  "list_all is_digit ds \<Longrightarrow> fold pid_digit ds (True, int v) = (True, int (foldl (\<lambda>v c. v * 10 + digit_val c) v ds))"
proof (induction ds arbitrary: v)
  case (Cons d ds)
  then have "pid_digit d (True, int v) = (True, int (v * 10 + digit_val d))" by (simp add: pid_digit_def)
  with Cons show ?case by (simp del: of_nat_add of_nat_mult)
qed simp

lemma word_pid_to_string: "0 < pid \<Longrightarrow> word_pid (to_string pid) = Some pid"
  using pid_digits [of "digits10 (nat pid)" 0] undigits_digits10 [of "nat pid"]
  by (simp add: word_pid_def to_string_def undigits_def list_all_iff)

lemma SplitWords_lines:
  "\<forall>w \<in> set ws. plain_word w \<Longrightarrow> SplitWords (printed_lines ws) = ws"
proof (induction ws)
  case Nil
  then show ?case by (simp add: printed_lines_def SplitWords_blanks)
next
  case (Cons w ws)
  have "SplitWords (w @ CHR 0x0A # printed_lines ws) = w # SplitWords (CHR 0x0A # printed_lines ws)"
    using Cons.prems by (intro SplitWords_word) (auto simp: is_blank_def)
  with Cons show ?case by (simp add: printed_lines_def SplitWords_skip is_blank_def)
qed

lemma ReadPids_printed:
  assumes "of_read os path w = Some (printed_lines (map to_string pids))" and "\<forall>p \<in> set pids. 0 < p"
  shows "ReadPids os path w = pids"
proof -
  have "Words (printed_lines (map to_string pids)) = map to_string pids"
    by (simp add: Words_SplitWords SplitWords_lines)
  moreover have "List.map_filter word_pid (map to_string pids) = pids"
    using assms(2) by (induction pids) (simp_all add: word_pid_to_string List.map_filter_simps)
  ultimately show ?thesis using assms(1) by (simp add: ReadPids_def ReadTextFile_def)
qed

text \<open>The limits: the CPU quota over the period is the percentage of one core.\<close>

lemma cpu_quota_exact: "uint (cpu_quota percent) * 100 = uint percent * uint cpu_period_usec"
proof -
  have p: "uint percent < 2 ^ 32" using uint_lt2p [of percent] by simp
  then have "uint (ucast percent :: 64 word) = uint percent" by (simp add: unsigned_ucast_eq take_bit_int_eq_self)
  moreover have "uint percent * 100000 < 2 ^ 64" using p by simp
  ultimately have "uint ((ucast percent :: 64 word) * cpu_period_usec) = uint percent * 100000"
    by (simp add: uint_word_ariths cpu_period_usec_def)
  then have "uint (cpu_quota percent) = uint percent * 1000"
    by (simp add: cpu_quota_def uint_div_distrib)
  then show ?thesis by (simp add: cpu_period_usec_def)
qed

text \<open>Nothing is moved or written while another process shares the manager's cgroup.\<close>

lemma Prepare_shared:
  assumes "of_exists os (cg_root t @ ''/cgroup.type'') w"
    and "\<exists>pid \<in> set (ReadPids os (cg_root t @ ''/cgroup.procs'') w). pid \<noteq> managerPid"
  shows "snd (Prepare os managerPid (w, t)) = (w, t) \<and> fst (fst (Prepare os managerPid (w, t))) = CG_Ok"
  using assms by (simp add: Prepare_def Let_def list_ex_iff)

text \<open>I/O through a stacked device is counted on the devices below it only.\<close>

definition unstacked :: "('w, 'more) os_files_scheme \<Rightarrow> 'w \<Rightarrow> CgroupTree \<Rightarrow> string \<Rightarrow> DeviceIo list" where
  "unstacked os w t service =
     (case ReadTextFile os (GroupPath t service @ ''/io.stat'') w of
        None \<Rightarrow> [] | Some io \<Rightarrow> filter (\<lambda>d. \<not> IsStacked os w t (di_device d)) (ParseCgroupIoStat io))"

lemma add_devices:
  "fold (add_device os w t) ds stats = stats\<lparr>
     cs_ioReadBytes := cs_ioReadBytes stats + sum_list (map di_readBytes (filter (\<lambda>d. \<not> IsStacked os w t (di_device d)) ds)),
     cs_ioWriteBytes := cs_ioWriteBytes stats + sum_list (map di_writeBytes (filter (\<lambda>d. \<not> IsStacked os w t (di_device d)) ds))\<rparr>"
  by (induction ds arbitrary: stats) (simp_all add: add_device_def add.assoc)

lemma ReadStats_io:
  "cs_ioReadBytes (ReadStats os w t service) = sum_list (map di_readBytes (unstacked os w t service))"
  "cs_ioWriteBytes (ReadStats os w t service) = sum_list (map di_writeBytes (unstacked os w t service))"
  by (simp_all add: ReadStats_def Let_def unstacked_def add_devices split: option.splits)

text \<open>Without \<open>cgroup.kill\<close> the result says whether the group is empty.\<close>

lemma kill_passes_result:
  "fst (kill_passes n os t service w) = CG_Ok
     \<longleftrightarrow> ReadMembers os (snd (kill_passes n os t service w)) t service = []"
  by (induction n arbitrary: w) (simp_all add: Let_def)

lemma KillMembers_result:
  assumes "of_isDirectory os (GroupPath t service) w" and "\<not> of_exists os (GroupPath t service @ ''/cgroup.kill'') w"
  shows "fst (KillMembers os t service w) = CG_Ok
    \<longleftrightarrow> ReadMembers os (snd (KillMembers os t service w)) t service = []"
  using assms by (simp add: KillMembers_def Let_def kill_passes_result)

text \<open>The task groups listed are the services whose directory exists.\<close>

lemma ListGroups_set:
  assumes "of_list os (cg_root t) w = Some entries"
  shows "set (ListGroups os w t) = {service. service \<noteq> [] \<and> (task_prefix @ service, True) \<in> set entries}"
    and "sorted (ListGroups os w t)"
proof -
  have "n = task_prefix @ drop (length task_prefix) n" if "take (length task_prefix) n = task_prefix" for n
    using append_take_drop_id [of "length task_prefix" n] that by metis
  then have "(n, True) \<in> set entries \<Longrightarrow> take (length task_prefix) n = task_prefix \<Longrightarrow>
      (task_prefix @ drop (length task_prefix) n, True) \<in> set entries" for n by metis
  then show "set (ListGroups os w t) = {service. service \<noteq> [] \<and> (task_prefix @ service, True) \<in> set entries}"
    using assms by (force simp: ListGroups_def image_iff)
  show "sorted (ListGroups os w t)" using assms by (simp add: ListGroups_def)
qed

section \<open>Properties\<close>


text \<open>A file system where every file reads as the members 100 and 200; nothing can be written.\<close>

definition sample_os :: "unit os_cgroup" where
  "sample_os =
     \<lparr>of_read = \<lambda>path w. Some (printed_lines (map to_string [100, 200])),
      of_isDirectory = \<lambda>path w. True, of_exists = \<lambda>path w. path = ''/cg/cgroup.type'', of_list = \<lambda>path w. None,
      of_fopen = \<lambda>path w. (Inl EACCES, w), of_fwrite = \<lambda>f t w. ((0, EIO), w),
      of_fclose = \<lambda>f w. ((False, 0), w), of_createDirectory = \<lambda>path w. (EACCES, w),
      of_remove = \<lambda>path w. (EACCES, w), of_writable = \<lambda>path w. True, of_kill = \<lambda>pid sig w. w,
      of_sleep = \<lambda>d w. w, of_errorText = \<lambda>e. ''error''\<rparr>"

definition sample_tree :: CgroupTree where
  "sample_tree = \<lparr>cg_root = ''/cg'', cg_blockDevices = ''/dev'', cg_enabled = []\<rparr>"

text \<open>
  A hierarchy that offers two controllers, with the manager 100 and another process in its cgroup; the
  world is the list of the paths that were changed.
\<close>

definition shared_os :: "string list os_cgroup" where
  "shared_os =
     \<lparr>of_read = \<lambda>path w. (if path = ''/cg/cgroup.controllers'' then Some ''cpu memory''
                 else if path = ''/cg/cgroup.procs'' then Some (printed_lines (map to_string [100, 200]))
                 else None),
      of_isDirectory = \<lambda>path w. True, of_exists = \<lambda>path w. path = ''/cg/cgroup.type'', of_list = \<lambda>path w. None,
      of_fopen = \<lambda>path w. (Inr 3, path # w), of_fwrite = \<lambda>f t w. ((length t, 0), w),
      of_fclose = \<lambda>f w. ((True, 0), w), of_createDirectory = \<lambda>path w. (0, path # w),
      of_remove = \<lambda>path w. (0, path # w), of_writable = \<lambda>path w. True, of_kill = \<lambda>pid sig w. w,
      of_sleep = \<lambda>d w. w, of_errorText = \<lambda>e. ''error''\<rparr>"

lemma shared_missing: "missing_controllers shared_os [] sample_tree = [''cpu'', ''memory'']"
  by code_simp


text \<open>
  I/O through a stacked device is counted on the devices below it only: the bytes of a service
  are the sums over the devices of its \<open>io.stat\<close> that are not stacked; and a CPU limit is written as
  a quota whose share of the period is the percentage of one core.
\<close>

theorem cgroup_accounting:
  "cs_ioReadBytes (ReadStats os w t service) = sum_list (map di_readBytes (unstacked os w t service))
   \<and> cs_ioWriteBytes (ReadStats os w t service) = sum_list (map di_writeBytes (unstacked os w t service))
   \<and> uint (cpu_quota percent) * 100 = uint percent * uint cpu_period_usec"
  by (simp add: ReadStats_io cpu_quota_exact)

text \<open>
  Killing a group without \<open>cgroup.kill\<close> takes at most ten passes, and succeeds exactly when the
  group is empty at the end.
\<close>

theorem KillMembers_tells_empty:
  assumes "of_isDirectory os (GroupPath t service) w" and "\<not> of_exists os (GroupPath t service @ ''/cgroup.kill'') w"
  shows "fst (KillMembers os t service w) = CG_Ok
    \<longleftrightarrow> ReadMembers os (snd (KillMembers os t service w)) t service = []"
  using assms by (rule KillMembers_result)

theorem KillMembers_tells_empty_witness:
  "fst (KillMembers sample_os sample_tree ''camera'' ()) \<noteq> CG_Ok"
proof -
  have "ReadMembers sample_os () sample_tree ''camera'' = [100, 200]"
    unfolding ReadMembers_def by (rule ReadPids_printed) (simp_all add: sample_os_def)
  moreover have "of_isDirectory sample_os (GroupPath sample_tree ''camera'') ()"
    "\<not> of_exists sample_os (GroupPath sample_tree ''camera'' @ ''/cgroup.kill'') ()"
    by (simp_all add: sample_os_def sample_tree_def GroupPath_def task_prefix_def)
  ultimately show ?thesis
    using KillMembers_tells_empty [of sample_os sample_tree "''camera''" "()"] by simp
qed

text \<open>
  The task groups listed, for the clean-up of an earlier run, are exactly the services whose
  \<open>task_\<close> directory exists below the manager's, in ascending order.
\<close>

theorem ListGroups_complete:
  assumes "of_list os (cg_root t) w = Some entries"
  shows "set (ListGroups os w t) = {service. service \<noteq> [] \<and> (task_prefix @ service, True) \<in> set entries}
    \<and> sorted (ListGroups os w t)"
  using ListGroups_set [OF assms] by blast

theorem ListGroups_complete_witness:
  "set (ListGroups (sample_os\<lparr>of_list := \<lambda>path w. Some [(''task_b'', True), (''task_'', True),
      (''task_x'', False), (''supervisor'', True)]\<rparr>) () sample_tree) = {''b''}"
  using ListGroups_complete [of "sample_os\<lparr>of_list := \<lambda>path w. Some [(''task_b'', True), (''task_'', True),
      (''task_x'', False), (''supervisor'', True)]\<rparr>" sample_tree "()"]
  by (auto simp: task_prefix_def)

end
