(* ===== verification/Posix_Launcher.thy ===== *)
theory Posix_Launcher
  imports Cgroup_Tree Launch_Order
begin

text \<open>
  The launcher of POSIX hosts (\<open>src/manager/src/posix/NativeLauncher.cpp\<close>): finding the program,
  its environment, the steps of \<open>Launch\<close> with their failures, and the child object. System calls
  are functions over the outside world. \<open>fork\<close> is followed by the child's steps up to \<open>execve\<close>
  (\<open>RunChild\<close>) before the parent goes on: the parent waits in \<open>read\<close> until the child has reported a
  failure or its end of the pipe is closed.
\<close>

section \<open>The operating system\<close>

datatype FileKind = RegularFile | DirectoryFile | SocketFile | OtherFile

datatype WaitStatus = WExited int | WSignaled int | WOther

datatype OpenMode = OpenReadWrite | OpenAppend | OpenWrite

text \<open>
  Where a call can fail the left value is \<open>errno\<close>. \<open>of_waitid\<close> is \<open>waitid\<close> with \<open>WEXITED\<close>, \<open>WNOHANG\<close>
  and \<open>WNOWAIT\<close>: whether the process has exited. \<open>of_fork\<close> gives the process ID of the child,
  \<open>of_write\<close>, \<open>of_chdir\<close> and \<open>of_execve\<close> are made by the child. \<open>of_blockSignals\<close> and
  \<open>of_restoreSignals\<close> are the two calls of \<open>pthread_sigmask\<close> in the parent, \<open>of_unblockSignals\<close> is
  \<open>sigprocmask\<close> with the empty set in the child. \<open>of_sendText\<close> is \<open>write\<close> to the socket of the journal,
  made again while a signal interrupts it.
\<close>

record 'w os_process = "'w os_cgroup" +
  of_ticks :: int
  of_page :: int
  of_steady :: "'w \<Rightarrow> nanos"
  of_waitid :: "int \<Rightarrow> 'w \<Rightarrow> (int + bool) \<times> 'w"
  of_waitpid :: "int \<Rightarrow> 'w \<Rightarrow> (int + WaitStatus) \<times> 'w"
  of_stat :: "string \<Rightarrow> 'w \<Rightarrow> FileKind option"
  of_executable :: "string \<Rightarrow> 'w \<Rightarrow> bool"
  of_absolute :: "string \<Rightarrow> 'w \<Rightarrow> string option"
  of_getenv :: "string \<Rightarrow> 'w \<Rightarrow> string option"
  of_environ :: "'w \<Rightarrow> string list"
  of_open :: "string \<Rightarrow> OpenMode \<Rightarrow> 'w \<Rightarrow> (int + nat) \<times> 'w"
  of_close :: "nat \<Rightarrow> 'w \<Rightarrow> 'w"
  of_pipe :: "'w \<Rightarrow> (int + nat \<times> nat) \<times> 'w"
  of_fork :: "'w \<Rightarrow> (int + int) \<times> 'w"
  of_getpid :: "'w \<Rightarrow> int"
  of_getppid :: "'w \<Rightarrow> int"
  of_setsid :: "'w \<Rightarrow> 'w"
  of_write :: "nat \<Rightarrow> string \<Rightarrow> 'w \<Rightarrow> (int + nat) \<times> 'w"
  of_chdir :: "string \<Rightarrow> 'w \<Rightarrow> int \<times> 'w"
  of_execve :: "string \<Rightarrow> string list \<Rightarrow> string list \<Rightarrow> 'w \<Rightarrow> int \<times> 'w"
  of_blockSignals :: "'w \<Rightarrow> 'w"
  of_restoreSignals :: "'w \<Rightarrow> 'w"
  of_unblockSignals :: "'w \<Rightarrow> 'w"
  of_defaultAction :: "int \<Rightarrow> 'w \<Rightarrow> 'w"
  of_parentDeath :: "int \<Rightarrow> 'w \<Rightarrow> 'w"
  of_dup2 :: "nat \<Rightarrow> nat \<Rightarrow> 'w \<Rightarrow> 'w"
  of_socket :: "'w \<Rightarrow> (int + nat) \<times> 'w"
  of_connect :: "nat \<Rightarrow> string \<Rightarrow> 'w \<Rightarrow> bool \<times> 'w"
  of_shutdown :: "nat \<Rightarrow> 'w \<Rightarrow> 'w"
  of_sendText :: "nat \<Rightarrow> string \<Rightarrow> 'w \<Rightarrow> (int + nat) \<times> 'w"

definition SIGCONT :: int where "SIGCONT = 18"

definition journal_socket :: string where "journal_socket = ''/run/systemd/journal/stdout''"

section \<open>Finding the program\<close>

definition IsExecutableFile :: "('w, 'more) os_process_scheme \<Rightarrow> string \<Rightarrow> 'w \<Rightarrow> bool" where
  "IsExecutableFile os path w \<longleftrightarrow> of_stat os path w = Some RegularFile \<and> of_executable os path w"

definition IsDirectory :: "('w, 'more) os_process_scheme \<Rightarrow> string \<Rightarrow> 'w \<Rightarrow> bool" where
  "IsDirectory os path w \<longleftrightarrow> of_stat os path w = Some DirectoryFile"

definition AbsolutePath :: "('w, 'more) os_process_scheme \<Rightarrow> string \<Rightarrow> 'w \<Rightarrow> string" where
  "AbsolutePath os path w =
     (if path = [] \<or> hd path = CHR ''/'' then path
      else case of_absolute os path w of None \<Rightarrow> path | Some a \<Rightarrow> a)"

definition JournalAvailable :: "('w, 'more) os_process_scheme \<Rightarrow> 'w \<Rightarrow> bool" where
  "JournalAvailable os w \<longleftrightarrow> of_stat os journal_socket w = Some SocketFile"

text \<open>The last override of a variable, or the manager's own value, or nothing.\<close>

definition VariableFor ::
  "('w, 'more) os_process_scheme \<Rightarrow> EnvironmentVariable list \<Rightarrow> string \<Rightarrow> 'w \<Rightarrow> string" where
  "VariableFor os overrides n w =
     (case find (\<lambda>v. ev_name v = n) (rev overrides) of
        Some v \<Rightarrow> ev_value v
      | None \<Rightarrow> text_or_empty (of_getenv os n w))"

text \<open>The directories between colons, an empty one included.\<close>

fun split_colons :: "string \<Rightarrow> string \<Rightarrow> string list" where
  "split_colons current [] = [current]"
| "split_colons current (c # cs) =
     (if c = CHR '':'' then current # split_colons [] cs else split_colons (current @ [c]) cs)"

definition path_candidates :: "string \<Rightarrow> string \<Rightarrow> string list" where
  "path_candidates search binary =
     map (\<lambda>d. (if d = [] then ''.'' else d) @ ''/'' @ binary) (split_colons [] search)"

definition ResolveBinary ::
  "('w, 'more) os_process_scheme \<Rightarrow> LaunchRequest \<Rightarrow> 'w \<Rightarrow> (LaunchCode \<times> string) + string" where
  "ResolveBinary os request w =
     (let binary = lr_binary request
      in if CHR ''/'' \<notin> set binary then
           (let search = VariableFor os (lr_environment request) ''PATH'' w;
                search = (if search = [] then ''/usr/local/bin:/usr/bin:/bin'' else search)
            in case find (\<lambda>c. IsExecutableFile os c w) (path_candidates search binary) of
                 Some candidate \<Rightarrow> Inr (AbsolutePath os candidate w)
               | None \<Rightarrow> Inl (BinaryNotFound, binary @ '' was not found on PATH''))
         else
           (let path = AbsolutePath os
                         (if hd binary = CHR ''/'' \<or> lr_workingDirectory request = [] then binary
                          else lr_workingDirectory request @ ''/'' @ binary) w
            in if IsExecutableFile os path w then Inr path
               else Inl (BinaryNotFound,
                      path @ (if of_stat os path w \<noteq> None then '' is not an executable file''
                              else '' does not exist''))))"

section \<open>The environment\<close>

definition unit_variables :: "string list" where
  "unit_variables = [''NOTIFY_SOCKET'', ''WATCHDOG_USEC'', ''WATCHDOG_PID'', ''LISTEN_FDS'',
     ''LISTEN_PID'', ''LISTEN_FDNAMES'']"

text \<open>\<open>std::map\<close>: an association list sorted by its keys.\<close>

fun env_put :: "string \<Rightarrow> string \<Rightarrow> (string \<times> string) list \<Rightarrow> (string \<times> string) list" where
  "env_put k v [] = [(k, v)]"
| "env_put k v ((k', v') # es) =
     (if k < k' then (k, v) # (k', v') # es
      else if k = k' then (k, v) # es
      else (k', v') # env_put k v es)"

definition env_erase :: "string \<Rightarrow> (string \<times> string) list \<Rightarrow> (string \<times> string) list" where
  "env_erase k es = filter (\<lambda>e. fst e \<noteq> k) es"

text \<open>An entry of the manager's environment needs a name before its equals sign.\<close>

definition put_entry :: "string \<Rightarrow> (string \<times> string) list \<Rightarrow> (string \<times> string) list" where
  "put_entry entry es =
     (let k = takeWhile (\<lambda>c. c \<noteq> CHR ''='') entry
      in if CHR ''='' \<in> set entry \<and> k \<noteq> [] then env_put k (drop (length k + 1) entry) es else es)"

definition environment_map ::
  "string list \<Rightarrow> EnvironmentVariable list \<Rightarrow> (string \<times> string) list" where
  "environment_map own overrides =
     fold (\<lambda>v. env_put (ev_name v) (ev_value v)) overrides
       (fold env_erase unit_variables (fold put_entry own []))"

definition BuildEnvironment ::
  "('w, 'more) os_process_scheme \<Rightarrow> EnvironmentVariable list \<Rightarrow> 'w \<Rightarrow> string list" where
  "BuildEnvironment os overrides w =
     map (\<lambda>(k, v). k @ ''='' @ v) (environment_map (of_environ os w) overrides)"

section \<open>The child object\<close>

fun SignalNumber :: "StopSignal \<Rightarrow> int" where
  "SignalNumber SS_Terminate = 15"
| "SignalNumber SS_Interrupt = 2"
| "SignalNumber SS_Hangup = 1"
| "SignalNumber SS_Quit = 3"
| "SignalNumber SS_Kill = 9"
| "SignalNumber SS_User1 = 10"
| "SignalNumber SS_User2 = 12"

record PosixChild =
  pc_pid :: int
  pc_service :: string
  pc_exit :: "ExitStatus option"
  pc_mainExited :: bool
  pc_drainDeadline :: nanos
  pc_peakMemory :: "64 word"

definition new_PosixChild :: "int \<Rightarrow> string \<Rightarrow> PosixChild" where
  "new_PosixChild pid service =
     \<lparr>pc_pid = pid, pc_service = service, pc_exit = None, pc_mainExited = False,
      pc_drainDeadline = 0, pc_peakMemory = 0\<rparr>"

definition Capture :: "('w, 'more) os_process_scheme \<Rightarrow> 'w \<Rightarrow> ProcessTable" where
  "Capture os w = ProcessTable_Capture os (of_ticks os) (of_page os) w"

definition KillLeftovers ::
  "('w, 'more) os_process_scheme \<Rightarrow> CgroupTree option \<Rightarrow> PosixChild \<Rightarrow> 'w \<Rightarrow> nat \<times> 'w" where
  "KillLeftovers os cgroups child w =
     (let w = of_kill os (- pc_pid child) SIGKILL w
      in case cgroups of
           Some t \<Rightarrow>
             (let left = length (ReadMembers os w t (pc_service child))
              in (left, if left > 0 then snd (KillMembers os t (pc_service child) w) else w))
         | None \<Rightarrow>
             (let members = ProcessTable_Members (Capture os w) (pc_pid child)
              in (length members, fold (\<lambda>pid. of_kill os pid SIGKILL) members w)))"

definition LostTrack ::
  "('w, 'more) os_process_scheme \<Rightarrow> CgroupTree option \<Rightarrow> 'w \<times> PosixChild
   \<Rightarrow> ExitStatus option \<times> 'w \<times> PosixChild" where
  "LostTrack os cgroups wc =
     (let exit = Some \<lparr>ex_code = 255, ex_signal = 0\<rparr>
      in (exit,
          (case cgroups of
             Some t \<Rightarrow> snd (KillMembers os t (pc_service (snd wc)) (fst wc)) | None \<Rightarrow> fst wc),
          (snd wc)\<lparr>pc_exit := exit\<rparr>))"

fun exit_of :: "WaitStatus \<Rightarrow> ExitStatus" where
  "exit_of (WExited code) = \<lparr>ex_code = code, ex_signal = 0\<rparr>"
| "exit_of (WSignaled sig) = \<lparr>ex_code = 0, ex_signal = sig\<rparr>"
| "exit_of WOther = \<lparr>ex_code = 255, ex_signal = 0\<rparr>"

text \<open>The second half of \<open>Poll\<close>, once the main process is known to have exited.\<close>

definition drain ::
  "('w, 'more) os_process_scheme \<Rightarrow> CgroupTree option \<Rightarrow> 'w \<times> PosixChild
   \<Rightarrow> ExitStatus option \<times> 'w \<times> PosixChild" where
  "drain os cgroups wc =
     (case KillLeftovers os cgroups (snd wc) (fst wc) of
        (left, w) \<Rightarrow>
          if left > 0 \<and> of_steady os w < pc_drainDeadline (snd wc) then (None, w, snd wc)
          else case of_waitpid os (pc_pid (snd wc)) w of
            (Inl e, w) \<Rightarrow> LostTrack os cgroups (w, snd wc)
          | (Inr status, w) \<Rightarrow>
              (Some (exit_of status), w, (snd wc)\<lparr>pc_exit := Some (exit_of status)\<rparr>))"

definition PosixChild_Poll ::
  "('w, 'more) os_process_scheme \<Rightarrow> CgroupTree option \<Rightarrow> 'w \<times> PosixChild
   \<Rightarrow> ExitStatus option \<times> 'w \<times> PosixChild" where
  "PosixChild_Poll os cgroups wc =
     (let child = snd wc
      in if pc_exit child \<noteq> None then (pc_exit child, wc)
         else if pc_mainExited child then drain os cgroups wc
         else case of_waitid os (pc_pid child) (fst wc) of
           (Inl e, w) \<Rightarrow> LostTrack os cgroups (w, child)
         | (Inr False, w) \<Rightarrow> (None, w, child)
         | (Inr True, w) \<Rightarrow>
             drain os cgroups
               (w, child\<lparr>pc_mainExited := True, pc_drainDeadline := of_steady os w + ns_of_ms kill_grace\<rparr>))"

definition PosixChild_RequestStop ::
  "('w, 'more) os_process_scheme \<Rightarrow> StopSignal \<Rightarrow> PosixChild \<Rightarrow> 'w \<Rightarrow> 'w" where
  "PosixChild_RequestStop os sig child w =
     (if pc_exit child \<noteq> None then w
      else let number = SignalNumber sig;
               w = of_kill os (- pc_pid child) number w
           in if number \<noteq> SIGKILL then of_kill os (- pc_pid child) SIGCONT w else w)"

definition PosixChild_Kill ::
  "('w, 'more) os_process_scheme \<Rightarrow> CgroupTree option \<Rightarrow> PosixChild \<Rightarrow> 'w \<Rightarrow> 'w" where
  "PosixChild_Kill os cgroups child w =
     (if pc_exit child = None then snd (KillLeftovers os cgroups child w) else w)"

text \<open>The destructor.\<close>

definition PosixChild_Destroy ::
  "('w, 'more) os_process_scheme \<Rightarrow> CgroupTree option \<Rightarrow> PosixChild \<Rightarrow> 'w \<Rightarrow> 'w" where
  "PosixChild_Destroy os cgroups child w =
     (if pc_exit child = None
      then snd (of_waitpid os (pc_pid child) (PosixChild_Kill os cgroups child w)) else w)"

definition PosixChild_MemberPids ::
  "('w, 'more) os_process_scheme \<Rightarrow> CgroupTree option \<Rightarrow> ProcessTable \<Rightarrow> PosixChild \<Rightarrow> 'w \<Rightarrow> int list" where
  "PosixChild_MemberPids os cgroups table child w =
     (let own = ProcessTable_Members table (pc_pid child)
      in case cgroups of
           None \<Rightarrow> own
         | Some t \<Rightarrow> (let members = ReadMembers os w t (pc_service child)
                      in if members \<noteq> [] then sort members else own))"

text \<open>One member's share of the sample: the figures, the open files and whether they are known.\<close>

definition sample_member ::
  "('w, 'more) os_process_scheme \<Rightarrow> 'w \<Rightarrow> ProcessTable \<Rightarrow> int
   \<Rightarrow> UsageSample \<times> int \<times> bool \<Rightarrow> UsageSample \<times> int \<times> bool" where
  "sample_member os w table pid st =
     (case st of (sample, files, known) \<Rightarrow>
        let sample = (case ProcessTable_Find table pid of
                        None \<Rightarrow> sample
                      | Some e \<Rightarrow> sample\<lparr>
                          us_cpuTimeUsec := us_cpuTimeUsec sample + (pe_cpuTimeUsec e + pe_childCpuTimeUsec e),
                          us_memoryBytes := us_memoryBytes sample + pe_rssBytes e,
                          us_threadCount := us_threadCount sample + pe_threads e\<rparr>);
            open = CountOpenFiles os ''/proc'' pid w;
            files' = (if open \<ge> 0 then files + open else files);
            known' = (if \<not> open \<ge> 0 \<and> ProcessExists os ''/proc'' pid w then False else known);
            sample = (case ReadProcessIo os ''/proc'' pid w of
                        None \<Rightarrow> sample
                      | Some io \<Rightarrow> sample\<lparr>us_ioReadBytes := us_ioReadBytes sample + io_readBytes io,
                          us_ioWriteBytes := us_ioWriteBytes sample + io_writeBytes io\<rparr>)
        in (sample, files', known'))"

definition apply_stats :: "CgroupStats \<Rightarrow> UsageSample \<Rightarrow> UsageSample" where
  "apply_stats stats sample =
     (let sample = (if cs_hasCpu stats then sample\<lparr>us_cpuTimeUsec := cs_cpuUsageUsec stats\<rparr> else sample);
          sample = (if cs_hasIo stats
                    then sample\<lparr>us_ioReadBytes := cs_ioReadBytes stats, us_ioWriteBytes := cs_ioWriteBytes stats\<rparr>
                    else sample)
      in sample\<lparr>us_oomKills := cs_oomKills stats, us_cgroup := True\<rparr>)"

definition PosixChild_Sample ::
  "('w, 'more) os_process_scheme \<Rightarrow> CgroupTree option \<Rightarrow> ProcessTable \<Rightarrow> 'w \<Rightarrow> PosixChild
   \<Rightarrow> UsageSample \<times> PosixChild" where
  "PosixChild_Sample os cgroups table w child =
     (let members = PosixChild_MemberPids os cgroups table child w;
          start = default_UsageSample\<lparr>us_processCount := int (length members)\<rparr>;
          (sample, files, known) = fold (sample_member os w table) members (start, 0, members \<noteq> []);
          sample = sample\<lparr>us_openFiles := (if known then files else - 1)\<rparr>;
          sample = (case cgroups of
                      None \<Rightarrow> sample
                    | Some t \<Rightarrow> apply_stats (ReadStats os w t (pc_service child)) sample);
          peak = max (pc_peakMemory child) (us_memoryBytes sample)
      in (sample\<lparr>us_memoryPeakBytes := peak\<rparr>, child\<lparr>pc_peakMemory := peak\<rparr>))"

section \<open>Launching\<close>

text \<open>What the child of \<open>fork\<close> ends in: the program, a report on the pipe, or nothing (its parent is gone).\<close>

datatype ChildOutcome = Executed | Reported int int | Orphaned

definition stage_cgroup :: int where "stage_cgroup = 1"
definition stage_chdir :: int where "stage_chdir = 2"
definition stage_exec :: int where "stage_exec = 3"

record ChildPlan =
  cp_path :: string
  cp_argv :: "string list"
  cp_envp :: "string list"
  cp_workingDirectory :: "string option"
  cp_devNull :: nat
  cp_outputFd :: "nat option"
  cp_cgroupFd :: "nat option"
  cp_journal :: bool
  cp_journalHeader :: string
  cp_parent :: int

definition join_cgroup :: "('w, 'more) os_process_scheme \<Rightarrow> ChildPlan \<Rightarrow> 'w \<Rightarrow> int option \<times> 'w" where
  "join_cgroup os plan w =
     (case cp_cgroupFd plan of
        None \<Rightarrow> (None, w)
      | Some fd \<Rightarrow>
          (case of_write os fd ''0'' w of
             (Inl e, w) \<Rightarrow> (Some e, w)
           | (Inr n, w) \<Rightarrow> (if n \<noteq> 1 then Some 0 else None, w)))"

text \<open>The header of the journal stream: \<open>None\<close> when it could not be sent, as for the socket itself.\<close>

function send_header :: "('w, 'more) os_process_scheme \<Rightarrow> nat \<Rightarrow> string \<Rightarrow> 'w \<Rightarrow> bool \<times> 'w" where
  "send_header os fd header w =
     (if header = [] then (True, w)
      else case of_sendText os fd header w of
        (Inl e, w) \<Rightarrow> (False, w)
      | (Inr n, w) \<Rightarrow> if n = 0 then (False, w) else send_header os fd (drop n header) w)"
  by pat_completeness auto
termination by (relation "measure (\<lambda>(os, fd, header, w). length header)") auto

definition ConnectJournal :: "('w, 'more) os_process_scheme \<Rightarrow> ChildPlan \<Rightarrow> 'w \<Rightarrow> nat option \<times> 'w" where
  "ConnectJournal os plan w =
     (case of_socket os w of
        (Inl e, w) \<Rightarrow> (None, w)
      | (Inr fd, w) \<Rightarrow>
          (case of_connect os fd journal_socket w of
             (False, w) \<Rightarrow> (None, of_close os fd w)
           | (True, w) \<Rightarrow>
               (case send_header os fd (cp_journalHeader plan) (of_shutdown os fd w) of
                  (True, w) \<Rightarrow> (Some fd, w)
                | (False, w) \<Rightarrow> (None, of_close os fd w))))"

definition SIGSTOP :: int where "SIGSTOP = 19"
definition number_of_signals :: nat where "number_of_signals = 65"

text \<open>Every signal but the two that cannot be handled gets its default action.\<close>

definition default_actions :: "('w, 'more) os_process_scheme \<Rightarrow> 'w \<Rightarrow> 'w" where
  "default_actions os w =
     fold (of_defaultAction os)
       (filter (\<lambda>n. n \<noteq> SIGKILL \<and> n \<noteq> SIGSTOP) (map int [1..<number_of_signals])) w"

text \<open>The standard input, and the standard output and error when there is somewhere to send them.\<close>

definition connect_streams :: "('w, 'more) os_process_scheme \<Rightarrow> ChildPlan \<Rightarrow> 'w \<Rightarrow> 'w" where
  "connect_streams os plan w =
     (let w = of_dup2 os (cp_devNull plan) 0 w
      in case (if cp_journal plan then ConnectJournal os plan w else (cp_outputFd plan, w)) of
           (None, w) \<Rightarrow> w
         | (Some output, w) \<Rightarrow>
             (let w = of_dup2 os output 2 (of_dup2 os output 1 w)
              in if cp_journal plan \<and> output > 2 then of_close os output w else w))"

definition RunChild :: "('w, 'more) os_process_scheme \<Rightarrow> ChildPlan \<Rightarrow> 'w \<Rightarrow> ChildOutcome \<times> 'w" where
  "RunChild os plan w =
     (let w = of_parentDeath os 15 (of_setsid os (default_actions os w))
      in if of_getppid os w \<noteq> cp_parent plan then (Orphaned, w)
         else case join_cgroup os plan w of
           (Some e, w) \<Rightarrow> (Reported stage_cgroup e, w)
         | (None, w) \<Rightarrow>
             (let w = connect_streams os plan w
              in case (case cp_workingDirectory plan of None \<Rightarrow> (0, w) | Some d \<Rightarrow> of_chdir os d w) of
                (e, w) \<Rightarrow>
                  if e \<noteq> 0 then (Reported stage_chdir e, w)
                  else case of_execve os (cp_path plan) (cp_argv plan) (cp_envp plan) (of_unblockSignals os w) of
                    (e, w) \<Rightarrow> (if e \<noteq> 0 then Reported stage_exec e else Executed, w)))"

definition close_all :: "('w, 'more) os_process_scheme \<Rightarrow> nat list \<Rightarrow> 'w \<Rightarrow> 'w" where
  "close_all os fds w = fold (of_close os) fds w"

text \<open>The output file, when there is one.\<close>

definition open_output ::
  "('w, 'more) os_process_scheme \<Rightarrow> LaunchRequest \<Rightarrow> 'w \<Rightarrow> ((LaunchCode \<times> string) + nat list) \<times> 'w" where
  "open_output os request w =
     (if lr_output request \<noteq> OM_File then (Inr [], w)
      else case of_open os (lr_outputPath request) OpenAppend w of
        (Inl e, w) \<Rightarrow>
          (Inl (OutputFailed, ''cannot open '' @ lr_outputPath request @ '': '' @ of_errorText os e), w)
      | (Inr fd, w) \<Rightarrow> (Inr [fd], w))"

definition open_cgroup ::
  "('w, 'more) os_process_scheme \<Rightarrow> CgroupTree option \<Rightarrow> LaunchRequest \<Rightarrow> 'w
   \<Rightarrow> ((LaunchCode \<times> string) + nat list) \<times> 'w" where
  "open_cgroup os cgroups request w =
     (case cgroups of
        None \<Rightarrow> (Inr [], w)
      | Some t \<Rightarrow>
          (let service = lr_serviceName request
           in case CreateGroup os t service w of
                ((code, problem), w) \<Rightarrow>
                  if code \<noteq> CG_Ok then (Inl (SpawnFailed, problem), w)
                  else let w = snd (ApplyLimits os t service (lr_memoryMax request) (lr_cpuMaxPercent request) w)
                  in case of_open os (ProcsPath t service) OpenWrite w of
                    (Inl e, w) \<Rightarrow>
                      (Inl (SpawnFailed, ''cannot open '' @ ProcsPath t service @ '': '' @ of_errorText os e), w)
                  | (Inr fd, w) \<Rightarrow> (Inr [fd], w)))"

definition report_text ::
  "('w, 'more) os_process_scheme \<Rightarrow> CgroupTree option \<Rightarrow> LaunchRequest \<Rightarrow> string \<Rightarrow> int \<Rightarrow> int
   \<Rightarrow> LaunchCode \<times> string" where
  "report_text os cgroups request path stage e =
     (if stage = stage_cgroup
      then (SpawnFailed, ''cannot join '' @ (case cgroups of Some t \<Rightarrow> GroupPath t (lr_serviceName request) | None \<Rightarrow> [])
              @ '': '' @ of_errorText os e)
      else if stage = stage_chdir
      then (WorkingDirectoryMissing, ''cannot enter '' @ lr_workingDirectory request @ '': '' @ of_errorText os e)
      else (BinaryNotFound, ''cannot execute '' @ path @ '': '' @ of_errorText os e))"

text \<open>
  The pipe, \<open>fork\<close> and the wait for the child's report; \<open>fds\<close> are the descriptors open so far, in
  the order their destructors run.
\<close>

definition spawn ::
  "('w, 'more) os_process_scheme \<Rightarrow> CgroupTree option \<Rightarrow> LaunchRequest \<Rightarrow> ChildPlan \<Rightarrow> nat list \<Rightarrow> 'w
   \<Rightarrow> ((LaunchCode \<times> string) + PosixChild) \<times> 'w" where
  "spawn os cgroups request plan fds w =
     (case of_pipe os w of
        (Inl e, w) \<Rightarrow> (Inl (SpawnFailed, ''cannot create a pipe: '' @ of_errorText os e), close_all os fds w)
      | (Inr (reportRead, reportWrite), w) \<Rightarrow>
          (case of_fork os (of_blockSignals os w) of
             (Inl e, w) \<Rightarrow>
               (Inl (SpawnFailed, ''fork failed: '' @ of_errorText os e),
                close_all os (reportWrite # reportRead # fds) (of_restoreSignals os w))
           | (Inr child, w) \<Rightarrow>
               (case RunChild os plan w of
                  (outcome, w) \<Rightarrow>
                    let w = of_close os reportWrite (of_restoreSignals os w)
                    in case outcome of
                      Reported stage e \<Rightarrow>
                        (Inl (report_text os cgroups request (cp_path plan) stage e),
                         close_all os (reportRead # fds) (snd (of_waitpid os child w)))
                    | _ \<Rightarrow>
                        (Inr (new_PosixChild child (lr_serviceName request)),
                         close_all os (reportRead # fds) w))))"

text \<open>The journal is used when it is asked for, or when the manager itself writes to it, and it is there.\<close>

definition journal_used :: "('w, 'more) os_process_scheme \<Rightarrow> LaunchRequest \<Rightarrow> 'w \<Rightarrow> bool" where
  "journal_used os request w \<longleftrightarrow>
     (lr_output request = OM_Journal
       \<or> lr_output request = OM_Auto \<and> of_getenv os ''JOURNAL_STREAM'' w \<noteq> None)
     \<and> JournalAvailable os w"

definition journal_header :: "LaunchRequest \<Rightarrow> string" where
  "journal_header request =
     lr_serviceName request @ concat (map (\<lambda>field. [CHR 0x0A] @ field) [[], ''6'', ''1'', ''0'', ''0'', ''0'', []])"

definition first_fd :: "nat list \<Rightarrow> nat option" where
  "first_fd fds = (case fds of [] \<Rightarrow> None | fd # _ \<Rightarrow> Some fd)"

definition build_plan ::
  "('w, 'more) os_process_scheme \<Rightarrow> LaunchRequest \<Rightarrow> string \<Rightarrow> nat \<Rightarrow> bool \<Rightarrow> nat list \<Rightarrow> nat list \<Rightarrow> string list
   \<Rightarrow> 'w \<Rightarrow> ChildPlan" where
  "build_plan os request path devNull journal outputFile cgroupFile environment w =
     \<lparr>cp_path = path, cp_argv = path # lr_arguments request, cp_envp = environment,
      cp_workingDirectory = (if lr_workingDirectory request = [] then None else Some (lr_workingDirectory request)),
      cp_devNull = devNull,
      cp_outputFd = (if lr_output request = OM_Null then Some devNull else first_fd outputFile),
      cp_cgroupFd = first_fd cgroupFile, cp_journal = journal, cp_journalHeader = journal_header request,
      cp_parent = of_getpid os w\<rparr>"

definition NativeLauncher_Launch ::
  "('w, 'more) os_process_scheme \<Rightarrow> CgroupTree option \<Rightarrow> LaunchRequest \<Rightarrow> 'w
   \<Rightarrow> ((LaunchCode \<times> string) + PosixChild) \<times> 'w" where
  "NativeLauncher_Launch os cgroups request w =
     (case ResolveBinary os request w of
        Inl failure \<Rightarrow> (Inl failure, w)
      | Inr path \<Rightarrow>
          if lr_workingDirectory request \<noteq> [] \<and> \<not> IsDirectory os (lr_workingDirectory request) w
          then (Inl (WorkingDirectoryMissing,
                  ''working directory '' @ lr_workingDirectory request @ '' does not exist''), w)
          else let environment = BuildEnvironment os (lr_environment request) w
          in case of_open os ''/dev/null'' OpenReadWrite w of
            (Inl e, w) \<Rightarrow> (Inl (OutputFailed, ''cannot open /dev/null: '' @ of_errorText os e), w)
          | (Inr devNull, w) \<Rightarrow>
              (let journal = journal_used os request w in
               case open_output os request w of
                 (Inl failure, w) \<Rightarrow> (Inl failure, of_close os devNull w)
               | (Inr outputFile, w) \<Rightarrow>
                   (case open_cgroup os cgroups request w of
                      (Inl failure, w) \<Rightarrow> (Inl failure, close_all os (outputFile @ [devNull]) w)
                    | (Inr cgroupFile, w) \<Rightarrow>
                        spawn os cgroups request (build_plan os request path devNull journal outputFile cgroupFile environment w)
                          (cgroupFile @ outputFile @ [devNull]) w)))"

section \<open>The launcher interface\<close>

text \<open>
  The world of the POSIX launcher: the operating system and the child objects, by handle; a
  destroyed object leaves its place empty. A call through a handle without an object does nothing;
  it does not occur (\<open>owns_msteps\<close>).
\<close>

record 'w posix =
  px_os :: 'w
  px_children :: "PosixChild option list"

definition px_child :: "handle \<Rightarrow> 'w posix \<Rightarrow> PosixChild option" where
  "px_child h x = (if h < length (px_children x) then px_children x ! h else None)"

definition px_live :: "'w posix \<Rightarrow> handle set" where
  "px_live x = {h. px_child h x \<noteq> None}"

definition px_set :: "handle \<Rightarrow> PosixChild option \<Rightarrow> 'w \<Rightarrow> 'w posix \<Rightarrow> 'w posix" where
  "px_set h c w x = x\<lparr>px_os := w, px_children := (px_children x)[h := c]\<rparr>"

definition px_Launch ::
  "('w, 'more) os_process_scheme \<Rightarrow> CgroupTree option \<Rightarrow> LaunchRequest \<Rightarrow> 'w posix
   \<Rightarrow> ((LaunchCode \<times> string) + handle) \<times> 'w posix" where
  "px_Launch os cgroups request x =
     (case NativeLauncher_Launch os cgroups request (px_os x) of
        (Inl failure, w) \<Rightarrow> (Inl failure, x\<lparr>px_os := w\<rparr>)
      | (Inr child, w) \<Rightarrow>
          (Inr (length (px_children x)),
           x\<lparr>px_os := w, px_children := px_children x @ [Some child]\<rparr>))"

definition px_effect :: "(PosixChild \<Rightarrow> 'w \<Rightarrow> 'w) \<Rightarrow> handle \<Rightarrow> 'w posix \<Rightarrow> 'w posix" where
  "px_effect f h x =
     (case px_child h x of None \<Rightarrow> x | Some c \<Rightarrow> x\<lparr>px_os := f c (px_os x)\<rparr>)"

definition posix_launcher ::
  "('w, 'more) os_process_scheme \<Rightarrow> CgroupTree option \<Rightarrow> 'w posix launcher" where
  "posix_launcher os cgroups =
     \<lparr>l_Launch = px_Launch os cgroups,
      l_Pid = \<lambda>h x. (case px_child h x of None \<Rightarrow> 0 | Some c \<Rightarrow> pc_pid c),
      l_Poll = \<lambda>h x. (case px_child h x of
          None \<Rightarrow> (None, x)
        | Some c \<Rightarrow> (case PosixChild_Poll os cgroups (px_os x, c) of (r, w, c') \<Rightarrow> (r, px_set h (Some c') w x))),
      l_RequestStop = \<lambda>h sig. px_effect (PosixChild_RequestStop os sig) h,
      l_Kill = px_effect (PosixChild_Kill os cgroups),
      l_Sample = \<lambda>h table x. (case px_child h x of
          None \<Rightarrow> (default_UsageSample, x)
        | Some c \<Rightarrow> (case PosixChild_Sample os cgroups table (px_os x) c of
                      (sample, c') \<Rightarrow> (sample, px_set h (Some c') (px_os x) x))),
      l_MemberPids = \<lambda>h table x. (case px_child h x of
          None \<Rightarrow> [] | Some c \<Rightarrow> PosixChild_MemberPids os cgroups table c (px_os x)),
      l_Destroy = \<lambda>h x. (case px_child h x of
          None \<Rightarrow> x | Some c \<Rightarrow> px_set h None (PosixChild_Destroy os cgroups c (px_os x)) x)\<rparr>"

lemma px_child_set [simp]:
  "h < length (px_children x) \<Longrightarrow> px_child k (px_set h c w x) = (if k = h then c else px_child k x)"
  by (auto simp: px_child_def px_set_def)

lemma px_child_Some: "px_child h x = Some c \<Longrightarrow> h < length (px_children x)"
  by (simp add: px_child_def split: if_splits)

lemma px_effect_live [simp]: "px_live (px_effect f h x) = px_live x"
  by (simp add: px_effect_def px_live_def px_child_def split: option.splits)

lemma px_live_set [simp]:
  assumes "px_child h x = Some c"
  shows "px_live (px_set h (Some c') w x) = px_live x"
    and "px_live (px_set h None w x) = px_live x - {h}"
  using assms px_child_Some [OF assms] by (auto simp: px_live_def)

lemma px_live_none: "px_child h x = None \<Longrightarrow> px_live x - {h} = px_live x"
  by (simp add: px_live_def)

interpretation px: process_launcher "posix_launcher os cgroups" px_live for os cgroups
proof unfold_locales
  fix rq x h x'
  assume "l_Launch (posix_launcher os cgroups) rq x = (Inr h, x')"
  then obtain c w where "h = length (px_children x)"
    and "x' = x\<lparr>px_os := w, px_children := px_children x @ [Some c]\<rparr>"
    by (auto simp: posix_launcher_def px_Launch_def split: prod.splits sum.splits)
  then show "h \<notin> px_live x \<and> px_live x' = insert h (px_live x)"
    by (auto simp: px_live_def px_child_def nth_append)
next
  fix rq x e x'
  assume "l_Launch (posix_launcher os cgroups) rq x = (Inl e, x')"
  then show "px_live x' = px_live x"
    by (auto simp: posix_launcher_def px_Launch_def px_live_def px_child_def split: prod.splits sum.splits)
qed (auto simp: posix_launcher_def px_live_none split: option.splits prod.splits)

section \<open>The environment block as a map\<close>

definition override_of :: "EnvironmentVariable list \<Rightarrow> string \<rightharpoonup> string" where
  "override_of overrides k = map_option ev_value (find (\<lambda>v. ev_name v = k) (rev overrides))"

definition own_entry :: "string \<Rightarrow> (string \<times> string) option" where
  "own_entry entry =
     (let k = takeWhile (\<lambda>c. c \<noteq> CHR ''='') entry
      in if CHR ''='' \<in> set entry \<and> k \<noteq> [] then Some (k, drop (length k + 1) entry) else None)"

definition own_value :: "string list \<Rightarrow> string \<rightharpoonup> string" where
  "own_value own k = map_of (rev (List.map_filter own_entry own)) k"

abbreviation sorted_env :: "(string \<times> string) list \<Rightarrow> bool" where
  "sorted_env es \<equiv> sorted_wrt (<) (map fst es)"

lemma put_lookup [simp]: "map_of (env_put k v es) = (map_of es)(k \<mapsto> v)"
  by (induction k v es rule: env_put.induct) (auto simp: fun_eq_iff)

lemma put_keys: "fst ` set (env_put k v es) = insert k (fst ` set es)"
  by (induction k v es rule: env_put.induct) auto

lemma put_sorted: "sorted_env es \<Longrightarrow> sorted_env (env_put k v es)"
proof (induction k v es rule: env_put.induct)
  case (2 k v k' v' es)
  have later: "k' < fst e" if "e \<in> set (env_put k v es)" "\<not> k < k'" "k \<noteq> k'" for e
  proof -
    from that(1) have "fst e \<in> insert k (fst ` set es)" using put_keys [of k v es] by blast
    with that 2(2) show ?thesis by auto
  qed
  with 2 show ?case by (auto intro: less_trans)
qed simp

lemma erase_lookup [simp]: "map_of (env_erase k es) x = (if x = k then None else map_of es x)"
  by (induction es) (auto simp: env_erase_def)

lemma erase_sorted: "sorted_env es \<Longrightarrow> sorted_env (env_erase k es)"
proof (induction es)
  case (Cons e es)
  then show ?case by (auto simp: env_erase_def)
qed (simp add: env_erase_def)

lemma entries_lookup:
  "map_of (fold put_entry own es) k = (case own_value own k of Some v \<Rightarrow> Some v | None \<Rightarrow> map_of es k)"
proof (induction own arbitrary: es)
  case (Cons entry own)
  have step: "map_of (put_entry entry es) k
      = (case own_entry entry of Some (k', v) \<Rightarrow> (map_of es)(k' \<mapsto> v) | None \<Rightarrow> map_of es) k"
    by (simp add: put_entry_def own_entry_def Let_def)
  show ?case
    using Cons [of "put_entry entry es"] step
    by (auto simp: own_value_def List.map_filter_simps map_add_def split: option.splits)
qed (simp add: own_value_def List.map_filter_simps)

lemma entries_sorted: "sorted_env es \<Longrightarrow> sorted_env (fold put_entry own es)"
  by (induction own arbitrary: es) (simp_all add: put_entry_def put_sorted Let_def)

lemma erase_all_lookup:
  "map_of (fold env_erase ks es) k = (if k \<in> set ks then None else map_of es k)"
  by (induction ks arbitrary: es) auto

lemma erase_all_sorted: "sorted_env es \<Longrightarrow> sorted_env (fold env_erase ks es)"
  by (induction ks arbitrary: es) (simp_all add: erase_sorted)

lemma find_last: "find P (xs @ [x]) = (case find P xs of Some y \<Rightarrow> Some y | None \<Rightarrow> if P x then Some x else None)"
  by (induction xs) auto

lemma overrides_lookup:
  "map_of (fold (\<lambda>v. env_put (ev_name v) (ev_value v)) overrides es) k
    = (case override_of overrides k of Some v \<Rightarrow> Some v | None \<Rightarrow> map_of es k)"
  by (induction overrides arbitrary: es)
    (auto simp: override_of_def find_last split: option.splits if_splits)

lemma overrides_sorted:
  "sorted_env es \<Longrightarrow> sorted_env (fold (\<lambda>v. env_put (ev_name v) (ev_value v)) overrides es)"
  by (induction overrides arbitrary: es) (simp_all add: put_sorted)

lemma environment_map_sorted: "sorted_env (environment_map own overrides)"
  unfolding environment_map_def
  by (intro overrides_sorted erase_all_sorted entries_sorted) simp

lemma environment_map_lookup:
  "map_of (environment_map own overrides) k =
    (case override_of overrides k of
       Some v \<Rightarrow> Some v
     | None \<Rightarrow> if k \<in> set unit_variables then None else own_value own k)"
  by (auto simp: environment_map_def overrides_lookup erase_all_lookup entries_lookup split: option.splits)

section \<open>Properties\<close>

text \<open>
  Once the exit of a service is known, its process ID may belong to another process, and no call
  on the child object touches the operating system any more: polling repeats the exit status, and a
  stop, a kill and the destructor send no signal and wait for nothing.
\<close>

theorem exited_child_is_left_alone:
  assumes "pc_exit c = Some status"
  shows "PosixChild_Poll os cgroups (w, c) = (Some status, w, c)
    \<and> PosixChild_RequestStop os sig c w = w \<and> PosixChild_Kill os cgroups c w = w
    \<and> PosixChild_Destroy os cgroups c w = w"
  using assms
  by (simp add: PosixChild_Poll_def PosixChild_RequestStop_def PosixChild_Kill_def PosixChild_Destroy_def)

text \<open>An operating system whose state is the list of signals sent, for the witnesses.\<close>

definition sample_process_os :: "(int \<times> int) list os_process" where
  "sample_process_os =
     \<lparr>of_read = \<lambda>path w. None, of_isDirectory = \<lambda>path w. False, of_exists = \<lambda>path w. False,
      of_list = \<lambda>path w. None, of_fopen = \<lambda>path w. (Inl EACCES, w), of_fwrite = \<lambda>f t w. ((0, EIO), w),
      of_fclose = \<lambda>f w. ((False, 0), w), of_createDirectory = \<lambda>path w. (EACCES, w),
      of_remove = \<lambda>path w. (EACCES, w), of_writable = \<lambda>path w. True,
      of_kill = \<lambda>pid sig w. w @ [(pid, sig)], of_sleep = \<lambda>d w. w, of_errorText = \<lambda>e. ''error'',
      of_ticks = 100, of_page = 4096, of_steady = \<lambda>w. 0, of_waitid = \<lambda>pid w. (Inr True, w),
      of_waitpid = \<lambda>pid w. (Inr (WExited 3), w), of_stat = \<lambda>path w. None, of_executable = \<lambda>path w. False,
      of_absolute = \<lambda>path w. None, of_getenv = \<lambda>n w. None, of_environ = \<lambda>w. [''PATH=/bin'', ''LISTEN_FDS=1''],
      of_open = \<lambda>path mode w. (Inl EACCES, w), of_close = \<lambda>fd w. w, of_pipe = \<lambda>w. (Inl EACCES, w),
      of_fork = \<lambda>w. (Inl EACCES, w), of_getpid = \<lambda>w. 1, of_getppid = \<lambda>w. 1, of_setsid = \<lambda>w. w,
      of_write = \<lambda>fd t w. (Inl EACCES, w), of_chdir = \<lambda>path w. (EACCES, w),
      of_execve = \<lambda>path argv envp w. (EACCES, w), of_blockSignals = \<lambda>w. w, of_restoreSignals = \<lambda>w. w,
      of_unblockSignals = \<lambda>w. w, of_defaultAction = \<lambda>n w. w, of_parentDeath = \<lambda>n w. w,
      of_dup2 = \<lambda>a b w. w, of_socket = \<lambda>w. (Inl EACCES, w), of_connect = \<lambda>fd path w. (False, w),
      of_shutdown = \<lambda>fd w. w, of_sendText = \<lambda>fd t w. (Inl EACCES, w)\<rparr>"

theorem exited_child_is_left_alone_witness:
  "PosixChild_Kill sample_process_os None
     ((new_PosixChild 42 ''camera'')\<lparr>pc_exit := Some \<lparr>ex_code = 0, ex_signal = 9\<rparr>\<rparr>) [] = []"
  using exited_child_is_left_alone [of "(new_PosixChild 42 ''camera'')\<lparr>pc_exit := Some \<lparr>ex_code = 0, ex_signal = 9\<rparr>\<rparr>"
      "\<lparr>ex_code = 0, ex_signal = 9\<rparr>" sample_process_os None "[]"]
  by simp

text \<open>
  A restart never meets the old instance. After the main process has exited, polling kills what is
  left of the service and reports the exit only when nothing was left or the grace period is over;
  then it does report it, whatever is left.
\<close>

theorem exit_waits_for_leftovers:
  assumes "pc_exit c = None" and "pc_mainExited c" and "KillLeftovers os cgroups c w = (left, w')"
  shows "fst (PosixChild_Poll os cgroups (w, c)) = None
    \<longleftrightarrow> 0 < left \<and> of_steady os w' < pc_drainDeadline c"
  using assms
  by (auto simp: PosixChild_Poll_def drain_def LostTrack_def Let_def split: prod.splits sum.splits)

theorem exit_waits_for_leftovers_witness:
  "fst (PosixChild_Poll sample_process_os None ([], (new_PosixChild 42 ''camera'')\<lparr>pc_mainExited := True\<rparr>)) \<noteq> None"
proof -
  let ?c = "(new_PosixChild 42 ''camera'')\<lparr>pc_mainExited := True\<rparr>"
  have "KillLeftovers sample_process_os None ?c [] = (0, [(- 42, SIGKILL)])" by code_simp
  from exit_waits_for_leftovers [OF _ _ this] show ?thesis by (simp add: new_PosixChild_def)
qed

text \<open>
  C34: the environment of a launched program has one entry per name: the last value the service or the
  manager's configuration gives it, otherwise the manager's own, except for the variables of the
  manager's systemd unit, which are left out; the entries are sorted by name.
\<close>

theorem environment_of_the_program:
  "map_of (environment_map own overrides) k =
     (case override_of overrides k of
        Some v \<Rightarrow> Some v
      | None \<Rightarrow> if k \<in> set unit_variables then None else own_value own k)
   \<and> sorted_wrt (<) (map fst (environment_map own overrides))
   \<and> BuildEnvironment os overrides w = map (\<lambda>(k, v). k @ ''='' @ v) (environment_map (of_environ os w) overrides)"
  by (simp add: environment_map_lookup environment_map_sorted BuildEnvironment_def)

end
