(* ===== verification/Posix_Streams.thy ===== *)
theory Posix_Streams
  imports Posix_Launcher
begin

text \<open>
  What a program inherits on POSIX: the table of file descriptors behind the calls of \<open>RunChild\<close>
  (\<open>src/manager/src/posix/NativeLauncher.cpp\<close>). \<open>view\<close> reads the table of the child: the open file of
  a descriptor and whether it is closed by \<open>execve\<close>.
\<close>

type_synonym 'f descriptors = "nat \<rightharpoonup> 'f \<times> bool"

text \<open>
  The documented effect of the calls: \<open>dup2\<close> makes a copy that stays open across \<open>execve\<close>, but does
  nothing when both numbers are the same; a socket gets a free number and, as it is made without
  \<open>SOCK_CLOEXEC\<close>, stays open; connecting, shutting down and writing leave the table alone.
\<close>

definition descriptor_laws :: "('w, 'more) os_process_scheme \<Rightarrow> ('w \<Rightarrow> 'f descriptors) \<Rightarrow> 'f \<Rightarrow> bool" where
  "descriptor_laws os view journal \<longleftrightarrow>
     (\<forall>a b w f c. view w a = Some (f, c) \<longrightarrow>
        view (of_dup2 os a b w) = (if a = b then view w else (view w)(b \<mapsto> (f, False))))
     \<and> (\<forall>fd w. view (of_close os fd w) = (view w)(fd := None))
     \<and> (\<forall>w e w'. of_socket os w = (Inl e, w') \<longrightarrow> view w' = view w)
     \<and> (\<forall>w fd w'. of_socket os w = (Inr fd, w') \<longrightarrow> view w fd = None \<and> view w' = (view w)(fd \<mapsto> (journal, False)))
     \<and> (\<forall>fd path w. view (snd (of_connect os fd path w)) = view w)
     \<and> (\<forall>fd w. view (of_shutdown os fd w) = view w)
     \<and> (\<forall>fd t w. view (snd (of_sendText os fd t w)) = view w)"

text \<open>What the program finds open after \<open>execve\<close>.\<close>

definition inherited :: "'f descriptors \<Rightarrow> nat \<rightharpoonup> 'f" where
  "inherited table fd = (case table fd of Some (f, False) \<Rightarrow> Some f | _ \<Rightarrow> None)"

lemma descriptor_laws_use:
  assumes "descriptor_laws os view journal"
  shows law_dup2: "view w a = Some (f, c) \<Longrightarrow> a \<noteq> b \<Longrightarrow> view (of_dup2 os a b w) = (view w)(b \<mapsto> (f, False))"
    and law_close: "view (of_close os fd w) = (view w)(fd := None)"
    and law_socket_failed: "of_socket os w = (Inl e, w') \<Longrightarrow> view w' = view w"
    and law_socket: "of_socket os w = (Inr fd, w') \<Longrightarrow> view w fd = None \<and> view w' = (view w)(fd \<mapsto> (journal, False))"
    and law_connect: "of_connect os fd path w = (ok, w') \<Longrightarrow> view w' = view w"
    and law_shutdown: "view (of_shutdown os fd w) = view w"
    and law_sendText: "of_sendText os fd t w = (r, w') \<Longrightarrow> view w' = view w"
proof -
  note laws = assms [unfolded descriptor_laws_def]
  show "view w a = Some (f, c) \<Longrightarrow> a \<noteq> b \<Longrightarrow> view (of_dup2 os a b w) = (view w)(b \<mapsto> (f, False))"
    using laws [THEN conjunct1] by simp
  show "view (of_close os fd w) = (view w)(fd := None)" using laws by blast
  show "of_socket os w = (Inl e, w') \<Longrightarrow> view w' = view w" using laws by blast
  show "of_socket os w = (Inr fd, w') \<Longrightarrow> view w fd = None \<and> view w' = (view w)(fd \<mapsto> (journal, False))"
    using laws by blast
  show "view (of_shutdown os fd w) = view w" using laws by blast
  have "view (snd (of_connect os fd path w)) = view w" using laws by blast
  then show "of_connect os fd path w = (ok, w') \<Longrightarrow> view w' = view w" by simp
  have "view (snd (of_sendText os fd t w)) = view w" using laws by blast
  then show "of_sendText os fd t w = (r, w') \<Longrightarrow> view w' = view w" by simp
qed

declare send_header.simps [simp del]

lemma send_header_view:
  assumes laws: "descriptor_laws os view journal"
  shows "send_header os fd header w = (ok, w') \<Longrightarrow> view w' = view w"
proof (induction "length header" arbitrary: header w rule: less_induct)
  case less
  show ?case
  proof (cases "header = []")
    case True
    with less.prems show ?thesis by (simp add: send_header.simps)
  next
    case False
    obtain r w1 where sent: "of_sendText os fd header w = (r, w1)" by (rule prod.exhaust)
    have w1: "view w1 = view w" by (rule law_sendText [OF laws sent])
    show ?thesis
    proof (cases "\<exists>n. r = Inr n \<and> 0 < n")
      case True
      then obtain n where n: "r = Inr n" "0 < n" by blast
      then have "send_header os fd (drop n header) w1 = (ok, w')" using less.prems sent False
        by (simp add: send_header.simps [of os fd header])
      moreover have "length (drop n header) < length header" using n(2) False by simp
      ultimately show ?thesis using less.hyps w1 by metis
    next
      case stopped: False
      then have "w' = w1" using less.prems sent False
        by (simp add: send_header.simps [of os fd header] split: sum.splits if_splits)
      with w1 show ?thesis by simp
    qed
  qed
qed

text \<open>The journal connection is one new descriptor, or nothing is left of it.\<close>

lemma ConnectJournal_view:
  assumes laws: "descriptor_laws os view journal" and run: "ConnectJournal os plan w = (r, w')"
  shows "case r of None \<Rightarrow> view w' = view w
    | Some fd \<Rightarrow> view w fd = None \<and> view w' = (view w)(fd \<mapsto> (journal, False))"
proof -
  obtain made w1 where s: "of_socket os w = (made, w1)" by (rule prod.exhaust)
  show ?thesis
  proof (cases made)
    case (Inl e)
    with run s law_socket_failed [OF laws] show ?thesis by (auto simp: ConnectJournal_def)
  next
    case (Inr fd)
    with s law_socket [OF laws] have w1: "view w fd = None" "view w1 = (view w)(fd \<mapsto> (journal, False))" by auto
    have closed: "view (of_close os fd v) = view w" if "view v = view w1" for v
      using that w1 by (simp add: law_close [OF laws] fun_upd_idem)
    obtain ok w2 where c: "of_connect os fd journal_socket w1 = (ok, w2)" by (rule prod.exhaust)
    have w2: "view w2 = view w1" by (rule law_connect [OF laws c])
    obtain ok' w3 where h: "send_header os fd (cp_journalHeader plan) (of_shutdown os fd w2) = (ok', w3)"
      by (rule prod.exhaust)
    have w3: "view w3 = view w1"
      using send_header_view [OF laws h] law_shutdown [OF laws] w2 by simp
    show ?thesis
    proof (cases "ok \<and> ok'")
      case True
      with run s Inr c h have "r = Some fd" "w' = w3" by (auto simp: ConnectJournal_def)
      with w1 w3 show ?thesis by simp
    next
      case False
      with run s Inr c h have "r = None" "w' = of_close os fd w2 \<or> w' = of_close os fd w3"
        by (cases ok; cases ok'; auto simp: ConnectJournal_def)+
      with closed w2 w3 show ?thesis by auto
    qed
  qed
qed

lemma dup_both:
  assumes "descriptor_laws os view journal" and "view w sink = Some (f, c)" and "2 < sink"
  shows "view (of_dup2 os sink 2 (of_dup2 os sink 1 w)) = (view w)(1 \<mapsto> (f, False), 2 \<mapsto> (f, False))"
proof -
  have one: "view (of_dup2 os sink 1 w) = (view w)(1 \<mapsto> (f, False))"
    using law_dup2 [OF assms(1,2), of 1] assms(3) by simp
  then have "view (of_dup2 os sink 1 w) sink = Some (f, c)" using assms(2,3) by simp
  from law_dup2 [OF assms(1) this, of 2] one assms(3) show ?thesis by simp
qed

text \<open>Where the standard output of a service goes: a file of its own, or what the manager has.\<close>

definition stream_target :: "LaunchRequest \<Rightarrow> bool \<Rightarrow> bool \<Rightarrow> 'f \<Rightarrow> 'f \<Rightarrow> 'f \<Rightarrow> 'f option" where
  "stream_target request journalUsed linked null journal file =
     (if journalUsed then (if linked then Some journal else None)
      else if lr_output request = OM_Null then Some null
      else if lr_output request = OM_File then Some file
      else None)"

text \<open>
  C33: a started program gets its three streams and no other open file, given a manager whose own
  streams are open and whose other descriptors are closed by \<open>execve\<close>. Its standard input is the null
  device; its standard output and error are the journal, the null device or the file of the service,
  or what the manager has when neither was asked for or the journal cannot be reached; no other
  descriptor of the manager, and none made on the way, survives into the program.
\<close>

theorem program_streams:
  assumes "descriptor_laws os view journal"
    and "plan = build_plan os request path devNull journalUsed outputFile cgroupFile environment w0"
    and "2 < devNull" and "view w devNull = Some (null, True)"
    and "lr_output request = OM_File \<longleftrightarrow> outputFile \<noteq> []"
    and "\<forall>fd \<in> set outputFile. 2 < fd \<and> view w fd = Some (file, True)"
    and "\<forall>fd \<le> 2. view w fd \<noteq> None" and "\<forall>fd f. 2 < fd \<longrightarrow> view w fd \<noteq> Some (f, False)"
  shows "inherited (view (connect_streams os plan w)) =
    (\<lambda>fd. if fd = 0 then Some null
          else if fd \<le> 2 then
            (case stream_target request journalUsed (fst (ConnectJournal os plan (of_dup2 os devNull 0 w)) \<noteq> None)
                    null journal file of
               None \<Rightarrow> inherited (view w) fd
             | Some f \<Rightarrow> Some f)
          else None)"
proof -
  let ?w1 = "of_dup2 os devNull 0 w"
  have dev: "cp_devNull plan = devNull" "cp_journal plan = journalUsed"
    "cp_outputFd plan = (if lr_output request = OM_Null then Some devNull else first_fd outputFile)"
    by (simp_all add: assms(2) build_plan_def)
  have w1: "view ?w1 = (view w)(0 \<mapsto> (null, False))"
    using law_dup2 [OF assms(1,4), of 0] assms(3) by simp
  have above: "inherited (view w) fd = None" if "2 < fd" for fd
    using assms(8) that by (auto simp: inherited_def split: option.splits bool.splits)
  obtain r w2 where streams: "(if journalUsed then ConnectJournal os plan ?w1 else (cp_outputFd plan, ?w1)) = (r, w2)"
    by (rule prod.exhaust)
  show ?thesis
  proof (cases r)
    case None
    have "connect_streams os plan w = w2" using streams dev None by (simp add: connect_streams_def Let_def)
    moreover have "view w2 = view ?w1"
      using streams None ConnectJournal_view [OF assms(1), of plan ?w1 None w2] by (auto split: if_splits)
    moreover have "stream_target request journalUsed (fst (ConnectJournal os plan ?w1) \<noteq> None) null journal file = None"
      using streams None dev assms(5)
      by (auto simp: stream_target_def first_fd_def split: if_splits list.splits)
    ultimately show ?thesis using w1 above by (auto simp: fun_eq_iff inherited_def)
  next
    case (Some sink)
    show ?thesis
    proof (cases journalUsed)
      case True
      with streams Some have run: "ConnectJournal os plan ?w1 = (Some sink, w2)" by simp
      from ConnectJournal_view [OF assms(1) run]
      have fresh: "view ?w1 sink = None" and w2: "view w2 = (view ?w1)(sink \<mapsto> (journal, False))" by simp_all
      have "2 < sink" using fresh w1 assms(7) by (cases "sink \<le> 2") (auto split: if_splits)
      then have "view (connect_streams os plan w)
          = ((view w2)(1 \<mapsto> (journal, False), 2 \<mapsto> (journal, False)))(sink := None)"
        using streams dev True Some dup_both [OF assms(1), of w2 sink journal False] w2
        by (simp add: connect_streams_def Let_def law_close [OF assms(1)])
      with w1 w2 above run True \<open>2 < sink\<close> show ?thesis
        by (auto simp: fun_eq_iff inherited_def stream_target_def)
    next
      case False
      with streams Some dev have w2: "w2 = ?w1" and out: "cp_outputFd plan = Some sink" by auto
      define f where "f = (if lr_output request = OM_Null then null else file)"
      have known: "2 < sink" "view w sink = Some (f, True)"
        using out dev(3) assms(3-6) by (auto simp: f_def first_fd_def split: if_splits list.splits)
      then have "view (connect_streams os plan w) = (view ?w1)(1 \<mapsto> (f, False), 2 \<mapsto> (f, False))"
        using streams dev False Some w2 w1 dup_both [OF assms(1), of ?w1 sink f True]
        by (simp add: connect_streams_def Let_def)
      moreover have "stream_target request journalUsed c null journal file = Some f" for c
        using False out dev(3) assms(5) by (auto simp: stream_target_def f_def first_fd_def split: if_splits list.splits)
      ultimately show ?thesis using w1 above by (auto simp: fun_eq_iff inherited_def)
    qed
  qed
qed

text \<open>
  A system whose state lists the descriptors: their numbers, with twice the open file plus one when
  \<open>execve\<close> closes them.
\<close>

definition sample_view :: "(int \<times> int) list \<Rightarrow> int descriptors" where
  "sample_view w fd = map_option (\<lambda>code. (code div 2, odd code)) (map_of w (int fd))"

definition sample_stream_os :: "(int \<times> int) list os_process" where
  "sample_stream_os = sample_process_os
     \<lparr>of_close := \<lambda>fd. filter (\<lambda>p. fst p \<noteq> int fd),
      of_dup2 := \<lambda>a b w. (if a = b then w
        else case map_of w (int a) of None \<Rightarrow> w | Some code \<Rightarrow> (int b, 2 * (code div 2)) # w)\<rparr>"

lemma map_of_without: "map_of (filter (\<lambda>p. fst p \<noteq> k) w) = (map_of w)(k := None)"
  by (induction w) auto

lemma sample_descriptors: "descriptor_laws sample_stream_os sample_view 9"
  unfolding descriptor_laws_def
  by (auto simp: sample_stream_os_def sample_process_os_def sample_view_def fun_eq_iff map_of_without)

definition sample_request :: LaunchRequest where
  "sample_request =
     \<lparr>lr_serviceName = ''camera'', lr_binary = ''/bin/camera'', lr_arguments = [], lr_workingDirectory = [],
      lr_environment = [], lr_output = OM_Null, lr_outputPath = [], lr_memoryMax = 0, lr_cpuMaxPercent = 0\<rparr>"

definition sample_table :: "(int \<times> int) list" where
  "sample_table = [(0, 2), (1, 4), (2, 6), (3, 9), (4, 11)]"

theorem program_streams_witness:
  "inherited (sample_view (connect_streams sample_stream_os
     (build_plan sample_stream_os sample_request ''/bin/camera'' 3 False [] [4] [] []) sample_table)) 1 = Some 4"
proof -
  have above: "\<forall>fd f. 2 < fd \<longrightarrow> sample_view sample_table fd \<noteq> Some (f, False)"
    by (auto simp: sample_view_def sample_table_def split: if_splits)
  have below: "\<forall>fd \<le> 2. sample_view sample_table fd \<noteq> None"
    by (auto simp: sample_view_def sample_table_def numeral_2_eq_2 le_Suc_eq)
  have null: "2 < (3::nat)" "sample_view sample_table 3 = Some (4, True)"
    by (simp_all add: sample_view_def sample_table_def)
  have no_file: "lr_output sample_request = OM_File \<longleftrightarrow> ([]::nat list) \<noteq> []"
    "\<forall>fd \<in> set []. 2 < fd \<and> sample_view sample_table fd = Some (0, True)"
    by (simp_all add: sample_request_def)
  have target: "stream_target sample_request False c 4 9 0 = Some 4" for c
    by (simp add: stream_target_def sample_request_def)
  show ?thesis
    unfolding program_streams [OF sample_descriptors refl null no_file below above] target by simp
qed

end
