(* ===== verification/System_Monitor.thy ===== *)
theory System_Monitor
  imports Proc_Fs Config_Text Float64 Detailed_Report
begin

text \<open>
  The host figures of POSIX systems (\<open>src/manager/include/SystemMonitor.hpp\<close>,
  \<open>src/posix/SystemMonitor.cpp\<close>) and the two files of \<open>ProcFs.cpp\<close> that hold fractions. They are read
  with \<open>strtod\<close>, modelled here for the C locale the program runs in: the decimal and hexadecimal
  numbers, infinity and not-a-number of the C standard, rounded to nearest. The payload of a
  not-a-number is dropped.
\<close>

section \<open>strtod\<close>

definition c_space :: "char \<Rightarrow> bool" where
  "c_space c \<longleftrightarrow> c = CHR '' '' \<or> (9 \<le> char_code c \<and> char_code c \<le> 13)"

definition is_hex :: "char \<Rightarrow> bool" where
  "is_hex c \<longleftrightarrow> is_digit c \<or> (97 \<le> char_code c \<and> char_code c \<le> 102)
     \<or> (65 \<le> char_code c \<and> char_code c \<le> 70)"

definition hex_val :: "char \<Rightarrow> nat" where
  "hex_val c = (if is_digit c then digit_val c else if 97 \<le> char_code c then char_code c - 87 else char_code c - 55)"

definition unhex :: "string \<Rightarrow> nat" where
  "unhex ds = foldl (\<lambda>v c. v * 16 + hex_val c) 0 ds"

text \<open>An optional exponent: its value and the rest; without digits there is none.\<close>

definition scan_exponent :: "string \<Rightarrow> string \<Rightarrow> int \<times> string" where
  "scan_exponent letters s =
     (if s = [] \<or> hd s \<notin> set letters then (0, s)
      else let signed = (tl s \<noteq> [] \<and> (hd (tl s) = CHR ''+'' \<or> hd (tl s) = CHR ''-''));
               body = (if signed then tl (tl s) else tl s);
               ds = takeWhile is_digit body
           in if ds = [] then (0, s)
              else ((if signed \<and> hd (tl s) = CHR ''-'' then - int (undigits ds) else int (undigits ds)),
                    dropWhile is_digit body))"

text \<open>The digits, how many of them follow the point, the exponent and the rest.\<close>

definition scan_number :: "(char \<Rightarrow> bool) \<Rightarrow> string \<Rightarrow> string \<Rightarrow> (string \<times> nat \<times> int \<times> string) option" where
  "scan_number digit letters s =
     (let whole = takeWhile digit s;
          r1 = dropWhile digit s;
          point = (r1 \<noteq> [] \<and> hd r1 = CHR ''.'');
          frac = (if point then takeWhile digit (tl r1) else [])
      in if whole = [] \<and> frac = [] then None
         else let (e, rest) = scan_exponent letters (if point then dropWhile digit (tl r1) else r1)
              in Some (whole @ frac, length frac, e, rest))"

definition round_decimal :: "bool \<Rightarrow> nat \<Rightarrow> int \<Rightarrow> double" where
  "round_decimal sign m e =
     (if e \<ge> 0 then round_ratio sign (m * 10 ^ nat e) 1 else round_ratio sign m (10 ^ nat (- e)))"

text \<open>After \<open>nan\<close>, a parenthesis of letters, digits and underscores belongs to the number.\<close>

definition is_nan_char :: "char \<Rightarrow> bool" where
  "is_nan_char c \<longleftrightarrow> is_digit c \<or> c = CHR ''_'' \<or> (97 \<le> char_code c \<and> char_code c \<le> 122)
     \<or> (65 \<le> char_code c \<and> char_code c \<le> 90)"

definition skip_payload :: "string \<Rightarrow> string" where
  "skip_payload s =
     (if s \<noteq> [] \<and> hd s = CHR ''('' \<and> dropWhile is_nan_char (tl s) \<noteq> []
         \<and> hd (dropWhile is_nan_char (tl s)) = CHR '')''
      then tl (dropWhile is_nan_char (tl s)) else s)"

text \<open>The number at the start of a text and what follows it; \<open>None\<close> without a conversion.\<close>

definition c_strtod :: "string \<Rightarrow> (double \<times> string) option" where
  "c_strtod s =
     (let s = dropWhile c_space s;
          neg = (s \<noteq> [] \<and> hd s = CHR ''-'');
          body = (if s \<noteq> [] \<and> (hd s = CHR ''-'' \<or> hd s = CHR ''+'') then tl s else s)
      in if LowerCase (take 8 body) = ''infinity'' then Some (sign_bit neg + double_inf, drop 8 body)
         else if LowerCase (take 3 body) = ''inf'' then Some (sign_bit neg + double_inf, drop 3 body)
         else if LowerCase (take 3 body) = ''nan''
         then Some (sign_bit neg + double_nan, skip_payload (drop 3 body))
         else case (if LowerCase (take 2 body) = ''0x'' then scan_number is_hex ''pP'' (drop 2 body) else None) of
           Some (ds, k, e, rest) \<Rightarrow> Some (round_scaled neg (unhex ds) (e - 4 * int k), rest)
         | None \<Rightarrow>
             (case scan_number is_digit ''eE'' body of
                Some (ds, k, e, rest) \<Rightarrow> Some (round_decimal neg (undigits ds) (e - int k), rest)
              | None \<Rightarrow> None))"

text \<open>The copy is read as a C string, up to its first zero character.\<close>

definition ToDouble :: "string \<Rightarrow> double option" where
  "ToDouble t =
     (if CHR 0x00 \<in> set t then None
      else case c_strtod t of Some (v, []) \<Rightarrow> Some v | _ \<Rightarrow> None)"

section \<open>The files with fractions\<close>

record LoadAverage =
  la_one :: double
  la_five :: double
  la_fifteen :: double

definition ParseLoadAverage :: "string \<Rightarrow> LoadAverage option" where
  "ParseLoadAverage t =
     (let words = SplitWords t
      in if length words < 3 then None
         else case (ToDouble (words ! 0), ToDouble (words ! 1), ToDouble (words ! 2)) of
                (Some one, Some five, Some fifteen) \<Rightarrow>
                  Some \<lparr>la_one = one, la_five = five, la_fifteen = fifteen\<rparr>
              | _ \<Rightarrow> None)"

definition ReadLoadAverage :: "('w, 'more) os_files_scheme \<Rightarrow> string \<Rightarrow> 'w \<Rightarrow> LoadAverage option" where
  "ReadLoadAverage os procfs w = Option.bind (ReadTextFile os (procfs @ ''/loadavg'') w) ParseLoadAverage"

text \<open>
  \<open>static_cast\<close> of a double to a 64-bit unsigned integer; what the machine does where the value does
  not fit is the argument \<open>undefined\<close>.
\<close>

definition u64_of_double :: "(double \<Rightarrow> 64 word) \<Rightarrow> double \<Rightarrow> 64 word" where
  "u64_of_double undef d =
     (case fp_of d of
        FFin s m e \<Rightarrow>
          (let v = (if e \<ge> 0 then m * 2 ^ nat e else m div 2 ^ nat (- e))
           in if (s \<and> v \<noteq> 0) \<or> v \<ge> 2 ^ 64 then undef d else word_of_nat v)
      | _ \<Rightarrow> undef d)"

definition ReadUptime ::
  "('w, 'more) os_files_scheme \<Rightarrow> (double \<Rightarrow> 64 word) \<Rightarrow> string \<Rightarrow> 'w \<Rightarrow> (64 word) option" where
  "ReadUptime os undef procfs w =
     (case ReadTextFile os (procfs @ ''/uptime'') w of
        None \<Rightarrow> None
      | Some t \<Rightarrow>
          (let words = SplitWords t
           in case (if words = [] then None else ToDouble (words ! 0)) of
                None \<Rightarrow> None
              | Some v \<Rightarrow> if fp_less v double_zero then None else Some (u64_of_double undef v)))"

section \<open>The monitor\<close>

record SystemSnapshot =
  ss_record :: SystemRecord
  ss_hostName :: string

record SystemMonitor =
  sm_previousBusy :: "64 word"
  sm_previousTotal :: "64 word"
  sm_hasPrevious :: bool

definition new_SystemMonitor :: SystemMonitor where
  "new_SystemMonitor = \<lparr>sm_previousBusy = 0, sm_previousTotal = 0, sm_hasPrevious = False\<rparr>"

definition system_cpu_percent :: "CpuTimes \<Rightarrow> SystemMonitor \<Rightarrow> double" where
  "system_cpu_percent cpu sm =
     (if sm_hasPrevious sm \<and> ct_total cpu > sm_previousTotal sm \<and> ct_busy cpu \<ge> sm_previousBusy sm
      then fp_div (fp_mul (double_of_int 100) (double_of_word (ct_busy cpu - sm_previousBusy sm)))
             (double_of_word (ct_total cpu - sm_previousTotal sm))
      else double_minus_one)"

text \<open>
  \<open>cpus\<close> and \<open>host\<close> are what \<open>sysconf(_SC_NPROCESSORS_ONLN)\<close> and \<open>gethostname\<close> return, the latter
  \<open>None\<close> on failure.
\<close>

definition SystemMonitor_Sample ::
  "('w, 'more) os_files_scheme \<Rightarrow> (double \<Rightarrow> 64 word) \<Rightarrow> int \<Rightarrow> string option \<Rightarrow> 'w \<Rightarrow> SystemMonitor
   \<Rightarrow> SystemSnapshot \<times> SystemMonitor" where
  "SystemMonitor_Sample os undef cpus host w sm =
     (let record1 = default_SystemRecord;
          (record2, sm') =
            (case ReadSystemCpu os ''/proc'' w of
               None \<Rightarrow> (record1, sm)
             | Some cpu \<Rightarrow>
                 (record1\<lparr>sy_cpuPercent := system_cpu_percent cpu sm\<rparr>,
                  \<lparr>sm_previousBusy = ct_busy cpu, sm_previousTotal = ct_total cpu, sm_hasPrevious = True\<rparr>));
          record3 =
            (case ReadMemory os ''/proc'' w of
               None \<Rightarrow> record2
             | Some memory \<Rightarrow> record2\<lparr>sy_memoryTotalBytes := mi_totalBytes memory,
                                   sy_memoryAvailableBytes := mi_availableBytes memory\<rparr>);
          record4 =
            (case ReadLoadAverage os ''/proc'' w of
               None \<Rightarrow> record3
             | Some load \<Rightarrow> record3\<lparr>sy_loadAverage1 := la_one load, sy_loadAverage5 := la_five load,
                                 sy_loadAverage15 := la_fifteen load\<rparr>);
          record5 =
            (case ReadUptime os undef ''/proc'' w of
               None \<Rightarrow> record4
             | Some uptime \<Rightarrow> record4\<lparr>sy_uptimeSeconds := uptime\<rparr>)
      in (\<lparr>ss_record = record5\<lparr>sy_cpuCount := (if cpus > 0 then word_of_int cpus else 1)\<rparr>,
           ss_hostName = (case host of Some h \<Rightarrow> h | None \<Rightarrow> [])\<rparr>, sm'))"

section \<open>Lemmas\<close>

text \<open>The fixed-point numbers the kernel prints are read as the double next to them.\<close>

lemma takeWhile_digits_append:
  "\<forall>c \<in> set ds. is_digit c \<Longrightarrow> s = [] \<or> \<not> is_digit (hd s) \<Longrightarrow>
   takeWhile is_digit (ds @ s) = ds \<and> dropWhile is_digit (ds @ s) = s"
  by (induction ds) (cases s; auto)+

lemma digit_char_codes: "is_digit c \<Longrightarrow> 48 \<le> char_code c \<and> char_code c \<le> 57"
  by (simp add: is_digit_def)

lemma lower_digit: "is_digit c \<Longrightarrow> LowerCase (c # s) = c # LowerCase s"
  by (simp add: LowerCase_def is_digit_def)

lemma ToDouble_fixed:
  assumes "ds \<noteq> []" and "\<forall>c \<in> set ds. is_digit c" and "\<forall>c \<in> set fs. is_digit c"
  shows "ToDouble (ds @ ''.'' @ fs) = Some (round_decimal False (undigits (ds @ fs)) (- int (length fs)))"
proof -
  obtain d ds' where d: "ds = d # ds'" "is_digit d" using assms(1,2) by (cases ds) auto
  have codes: "char_code (CHR 0x00) = 0" "char_code (CHR ''.'') = 46" "char_code (CHR ''i'') = 105"
    "char_code (CHR ''n'') = 110" "char_code (CHR ''-'') = 45" "char_code (CHR ''+'') = 43"
    "char_code (CHR '' '') = 32" "char_code (CHR ''x'') = 120"
    by (simp_all add: char_code_def)
  have nd: "\<not> is_digit (CHR ''.'')" "\<not> is_digit (CHR 0x00)" "\<not> is_digit (CHR ''i'')" "\<not> is_digit (CHR ''n'')"
    "\<not> is_digit (CHR ''-'')" "\<not> is_digit (CHR ''+'')" "\<not> is_digit (CHR '' '')" "\<not> is_digit (CHR ''x'')"
    by (simp_all add: is_digit_def codes)
  have neq: "d \<noteq> CHR ''i''" "d \<noteq> CHR ''n''" "d \<noteq> CHR ''-''" "d \<noteq> CHR ''+''" "\<not> c_space d"
    using d(2) nd digit_char_codes [OF d(2)] by (auto simp: c_space_def codes)
  have no_zero: "CHR 0x00 \<notin> set (ds @ ''.'' @ fs)" using assms nd by auto
  have no_hex: "LowerCase (take 2 (ds @ ''.'' @ fs)) \<noteq> ''0x''"
  proof (cases ds')
    case Nil
    then show ?thesis using d by (simp add: LowerCase_def codes)
  next
    case (Cons e es)
    with assms(2) d have e: "is_digit e" by simp
    then have "e \<noteq> CHR ''x''" using nd by auto
    with d e Cons show ?thesis by (simp add: lower_digit LowerCase_def is_digit_def)
  qed
  have words: "LowerCase (take 8 (ds @ ''.'' @ fs)) \<noteq> ''infinity''" "LowerCase (take 3 (ds @ ''.'' @ fs)) \<noteq> ''inf''"
    "LowerCase (take 3 (ds @ ''.'' @ fs)) \<noteq> ''nan''"
    using d neq by (simp_all add: lower_digit)
  have "takeWhile is_digit fs = fs" using assms(3) by (simp add: takeWhile_eq_all_conv)
  then have fs: "length (takeWhile is_digit fs) = length fs" by (rule arg_cong)
  have scan: "scan_number is_digit ''eE'' (ds @ ''.'' @ fs) = Some (ds @ fs, length fs, 0, [])"
    using takeWhile_digits_append [OF assms(2), of "''.'' @ fs"] takeWhile_digits_append [OF assms(3), of "[]"] nd assms(1) fs
    by (simp add: scan_number_def scan_exponent_def Let_def)
  have "c_strtod (ds @ ''.'' @ fs) = Some (round_decimal False (undigits (ds @ fs)) (- int (length fs)), [])"
    unfolding c_strtod_def using d neq no_hex words scan by (simp add: Let_def)
  with no_zero show ?thesis by (simp add: ToDouble_def)
qed

text \<open>CPU use is unknown until there are two readings.\<close>

lemma first_sample_unknown:
  "sy_cpuPercent (ss_record (fst (SystemMonitor_Sample os undef cpus host w new_SystemMonitor))) = double_minus_one"
  by (auto simp: SystemMonitor_Sample_def Let_def new_SystemMonitor_def system_cpu_percent_def
      default_SystemRecord_def split: option.splits)

end
