(* ===== verification/Report_Builder.thy ===== *)
theory Report_Builder
  imports System_Monitor Service_Manager Health_Record
begin

text \<open>
  Building the two reports (\<open>src/manager/include/ReportBuilder.hpp\<close>, \<open>ReportBuilder.cpp\<close>) from the
  statuses of the services and the figures of host and GPUs.
\<close>

section \<open>Records\<close>

definition manager_version :: string where "manager_version = ''1.0.0''"
definition manager_name :: string where "manager_name = ''berayprocessmanager''"

definition flag_if :: "bool \<Rightarrow> 'a::len word \<Rightarrow> 'a word" where
  "flag_if b f = (if b then f else 0)"

definition ServiceFlags :: "ServiceStatus \<Rightarrow> byte" where
  "ServiceFlags st =
     or (or (or (or (or (flag_if (st_autostart st) service_flag_autostart)
       (flag_if (st_heartbeat st) service_flag_heartbeat))
       (flag_if (st_usageValid st \<and> us_cgroup (st_usage st)) service_flag_cgroup))
       (flag_if (st_usageValid st) service_flag_usage))
       (flag_if (st_gpuValid st) service_flag_gpu))
       (flag_if (st_removing st) service_flag_removing)"

text \<open>\<open>ServiceRecord record{}\<close>, then field by field.\<close>

definition default_ServiceRecord :: ServiceRecord where
  "default_ServiceRecord =
     \<lparr>sr_name = [], sr_binary = [], sr_description = [], sr_pid = 0, sr_state = Stopped,
      sr_restartMode = Never, sr_flags = 0, sr_restartCount = 0, sr_missedBeats = 0,
      sr_lastExitCode = 0, sr_processCount = 0, sr_threadCount = 0, sr_openFiles = - 1,
      sr_startTime = 0, sr_lastSeen = 0, sr_lastExitTime = 0, sr_nextRestartTime = 0,
      sr_cpuTimeUsec = 0, sr_cpuPercent = double_minus_one, sr_memoryBytes = 0,
      sr_memoryPeakBytes = 0, sr_memoryLimitBytes = 0, sr_ioReadBytes = 0, sr_ioWriteBytes = 0,
      sr_gpuPercent = double_minus_one, sr_gpuMemoryBytes = 0, sr_oomKills = 0,
      sr_cpuLimitPercent = 0\<rparr>"

definition ToServiceRecord :: "ServiceStatus \<Rightarrow> ServiceRecord" where
  "ToServiceRecord st =
     (let r = default_ServiceRecord\<lparr>
            sr_name := st_name st, sr_binary := st_binary st, sr_description := st_description st,
            sr_pid := st_pid st, sr_state := st_state st, sr_restartMode := st_restartMode st,
            sr_flags := ServiceFlags st, sr_restartCount := st_restartCount st,
            sr_missedBeats := st_missedBeats st, sr_lastExitCode := st_lastExitCode st,
            sr_startTime := st_startTime st, sr_lastSeen := st_lastSeen st,
            sr_lastExitTime := st_lastExitTime st, sr_nextRestartTime := st_nextRestartTime st,
            sr_cpuPercent := st_cpuPercent st, sr_memoryLimitBytes := st_memoryLimitBytes st,
            sr_cpuLimitPercent := st_cpuLimitPercent st\<rparr>;
          u = st_usage st;
          r = (if st_usageValid st
               then r\<lparr>sr_processCount := us_processCount u, sr_threadCount := us_threadCount u,
                      sr_openFiles := us_openFiles u, sr_cpuTimeUsec := us_cpuTimeUsec u,
                      sr_memoryBytes := us_memoryBytes u, sr_memoryPeakBytes := us_memoryPeakBytes u,
                      sr_ioReadBytes := us_ioReadBytes u, sr_ioWriteBytes := us_ioWriteBytes u,
                      sr_oomKills := us_oomKills u\<rparr>
               else r)
      in r\<lparr>sr_gpuPercent := (if st_gpuValid st then st_gpuPercent st else double_minus_one),
           sr_gpuMemoryBytes := (if st_gpuValid st then st_gpuMemoryBytes st else 0)\<rparr>)"

definition ToGpuRecord :: "GpuDevice \<Rightarrow> GpuRecord" where
  "ToGpuRecord d =
     \<lparr>gr_name = gd_name d, gr_uuid = gd_uuid d, gr_index = gd_index d,
      gr_temperatureC = gd_temperatureC d, gr_utilizationPercent = gd_utilizationPercent d,
      gr_memoryUtilizationPercent = gd_memoryUtilizationPercent d,
      gr_memoryTotalBytes = gd_memoryTotalBytes d, gr_memoryUsedBytes = gd_memoryUsedBytes d,
      gr_powerMilliwatts = gd_powerMilliwatts d\<rparr>"

section \<open>Reports\<close>

record ReportBuilder =
  rb_managerPid :: int
  rb_managerStartTime :: int

definition new_ReportBuilder :: "int \<Rightarrow> int \<Rightarrow> ReportBuilder" where
  "new_ReportBuilder pid startTime = \<lparr>rb_managerPid = pid, rb_managerStartTime = startTime\<rparr>"

definition health_of :: "int \<Rightarrow> ServiceStatus \<Rightarrow> HealthRecord" where
  "health_of snapshotTime st =
     (let alive = IsAlive (st_state st)
      in \<lparr>hr_processName = st_name st, hr_pid = (if alive then st_pid st else 0),
          hr_memoryUsageInBytes = (if st_usageValid st then us_memoryBytes (st_usage st) else 0),
          hr_cpuUsageInUsec = (if st_usageValid st then us_cpuTimeUsec (st_usage st) else 0),
          hr_state = ToRuntimeState (st_state st),
          hr_startTime = (if alive then st_startTime st else 0), hr_lastSeen = st_lastSeen st,
          hr_missedBeats = st_missedBeats st, hr_restartCount = st_restartCount st,
          hr_snapshotTime = snapshotTime\<rparr>)"

definition BuildHealth :: "ServiceStatus list \<Rightarrow> int \<Rightarrow> HealthRecord list" where
  "BuildHealth statuses snapshotTime = map (health_of snapshotTime) statuses"

definition BuildReport ::
  "ReportBuilder \<Rightarrow> ServiceStatus list \<Rightarrow> SystemSnapshot \<Rightarrow> GpuSnapshot \<Rightarrow> int \<Rightarrow> 32 word \<Rightarrow> 32 word
   \<Rightarrow> DetailedReport" where
  "BuildReport builder statuses system gpu snapshotTime publishIntervalMs flags =
     \<lparr>dr_managerPid = rb_managerPid builder, dr_snapshotTime = snapshotTime,
      dr_managerStartTime = rb_managerStartTime builder, dr_publishIntervalMs = publishIntervalMs,
      dr_flags = flags, dr_system = ss_record system, dr_hostName = ss_hostName system,
      dr_managerVersion = manager_version, dr_services = map ToServiceRecord statuses,
      dr_gpus = map ToGpuRecord (gs_devices gpu)\<rparr>"

section \<open>Lemmas\<close>

text \<open>Each flag of the record can be read back.\<close>

lemma ServiceFlags_read:
  "and (ServiceFlags st) service_flag_autostart \<noteq> 0 \<longleftrightarrow> st_autostart st"
  "and (ServiceFlags st) service_flag_heartbeat \<noteq> 0 \<longleftrightarrow> st_heartbeat st"
  "and (ServiceFlags st) service_flag_cgroup \<noteq> 0 \<longleftrightarrow> st_usageValid st \<and> us_cgroup (st_usage st)"
  "and (ServiceFlags st) service_flag_usage \<noteq> 0 \<longleftrightarrow> st_usageValid st"
  "and (ServiceFlags st) service_flag_gpu \<noteq> 0 \<longleftrightarrow> st_gpuValid st"
  "and (ServiceFlags st) service_flag_removing \<noteq> 0 \<longleftrightarrow> st_removing st"
  by (cases "st_autostart st"; cases "st_heartbeat st"; cases "st_usageValid st";
      cases "us_cgroup (st_usage st)"; cases "st_gpuValid st"; cases "st_removing st";
      simp add: ServiceFlags_def flag_if_def service_flag_autostart_def service_flag_heartbeat_def
        service_flag_cgroup_def service_flag_usage_def service_flag_gpu_def service_flag_removing_def)+

lemma length_BuildReport [simp]:
  "length (dr_services (BuildReport b statuses system gpu t i f)) = length statuses"
  "length (dr_gpus (BuildReport b statuses system gpu t i f)) = length (gs_devices gpu)"
  by (simp_all add: BuildReport_def)

text \<open>A service without a process is reported without process ID and start time.\<close>

lemma health_of_dead:
  "\<not> IsAlive (st_state st) \<Longrightarrow> hr_pid (health_of t st) = 0 \<and> hr_startTime (health_of t st) = 0"
  by (simp add: health_of_def Let_def)

text \<open>The detailed state decides the simplified one, in the same snapshot.\<close>

lemma reports_agree:
  "list_all2 (\<lambda>h r. hr_processName h = sr_name r \<and> hr_state h = ToRuntimeState (sr_state r)
      \<and> hr_restartCount h = sr_restartCount r \<and> hr_missedBeats h = sr_missedBeats r
      \<and> hr_memoryUsageInBytes h = sr_memoryBytes r \<and> hr_cpuUsageInUsec h = sr_cpuTimeUsec r)
    (BuildHealth statuses t) (dr_services (BuildReport b statuses system gpu t i f))"
  by (auto simp: BuildHealth_def BuildReport_def list_all2_conv_all_nth health_of_def ToServiceRecord_def
      default_ServiceRecord_def Let_def)

end
