(* ===== verification/Gpu_Library.thy ===== *)
theory Gpu_Library
  imports Gpu_Monitor Wire
begin

text \<open>
  The GPU monitor (\<open>src/manager/src/GpuMonitor.cpp\<close>, POSIX): loading NVML, reading the devices and
  the processes on them. The dynamic loader and the functions of NVML are the record \<open>nvml\<close>: a
  function pointer is a number that \<open>dlsym\<close> returns, and the field of a function's type calls the
  function behind such a number. An output argument is a part of the result, and it counts only
  when the code returned says so. \<open>nv_beyond\<close> stands for the memory behind a buffer, which the code
  would read if NVML reported more processes than it was given room for.
\<close>

section \<open>NVML and the loader\<close>

type_synonym pointer = nat

record NvmlSample =
  ns_pid :: "32 word"
  ns_timeStamp :: "64 word"
  ns_smUtil :: "32 word"

record 'w nvml =
  nv_dlopen :: "string \<Rightarrow> 'w \<Rightarrow> pointer option \<times> 'w"
  nv_dlsym :: "pointer \<Rightarrow> string \<Rightarrow> pointer option"
  nv_dlclose :: "pointer \<Rightarrow> 'w \<Rightarrow> 'w"
  nv_plain :: "pointer \<Rightarrow> 'w \<Rightarrow> int \<times> 'w"
  nv_count :: "pointer \<Rightarrow> 'w \<Rightarrow> (int \<times> 32 word) \<times> 'w"
  nv_device :: "pointer \<Rightarrow> 32 word \<Rightarrow> 'w \<Rightarrow> (int \<times> pointer) \<times> 'w"
  nv_text :: "pointer \<Rightarrow> pointer \<Rightarrow> nat \<Rightarrow> 'w \<Rightarrow> (int \<times> string) \<times> 'w"
  nv_utilization :: "pointer \<Rightarrow> pointer \<Rightarrow> 'w \<Rightarrow> (int \<times> 32 word \<times> 32 word) \<times> 'w"
  nv_memory :: "pointer \<Rightarrow> pointer \<Rightarrow> 'w \<Rightarrow> (int \<times> 64 word \<times> 64 word) \<times> 'w"
  nv_temperature :: "pointer \<Rightarrow> pointer \<Rightarrow> nat \<Rightarrow> 'w \<Rightarrow> (int \<times> 32 word) \<times> 'w"
  nv_power :: "pointer \<Rightarrow> pointer \<Rightarrow> 'w \<Rightarrow> (int \<times> 32 word) \<times> 'w"
  nv_processes :: "pointer \<Rightarrow> pointer \<Rightarrow> 32 word \<Rightarrow> nat option \<Rightarrow> 'w \<Rightarrow> (int \<times> 32 word \<times> bytes) \<times> 'w"
  nv_processUtilization ::
    "pointer \<Rightarrow> pointer \<Rightarrow> 32 word option \<Rightarrow> 64 word \<Rightarrow> 'w \<Rightarrow> (int \<times> 32 word \<times> NvmlSample list) \<times> 'w"
  nv_beyond :: "nat \<Rightarrow> byte"

definition nvml_success :: int where "nvml_success = 0"
definition nvml_insufficient_size :: int where "nvml_insufficient_size = 7"
definition nvml_temperature_gpu :: nat where "nvml_temperature_gpu = 0"
definition nvml_text_size :: nat where "nvml_text_size = 96"
definition nvml_value_not_available :: "64 word" where "nvml_value_not_available = NOT 0"
definition process_info_v1_size :: nat where "process_info_v1_size = 16"
definition process_info_v2_size :: nat where "process_info_v2_size = 24"
definition process_memory_offset :: nat where "process_memory_offset = 8"
definition process_slack :: "32 word" where "process_slack = 8"

datatype GpuCode = GpuCode_Ok | LibraryMissing | InitFailed

section \<open>A loaded library\<close>

record GpuLibrary =
  gl_handle :: pointer
  gl_shutdown :: "pointer option"
  gl_count :: pointer
  gl_handleByIndex :: pointer
  gl_name :: "pointer option"
  gl_uuid :: "pointer option"
  gl_utilization :: "pointer option"
  gl_memory :: "pointer option"
  gl_temperature :: "pointer option"
  gl_power :: "pointer option"
  gl_computeProcesses :: "pointer option"
  gl_graphicsProcesses :: "pointer option"
  gl_processInfoSize :: nat
  gl_processUtilization :: "pointer option"
  gl_lastSampleTime :: "32 word \<rightharpoonup> 64 word"

type_synonym GpuMonitor = "GpuLibrary option"

definition OpenLibrary :: "'w nvml \<Rightarrow> 'w \<Rightarrow> pointer option \<times> 'w" where
  "OpenLibrary nv w =
     (case nv_dlopen nv ''libnvidia-ml.so.1'' w of
        (Some h, w) \<Rightarrow> (Some h, w)
      | (None, w) \<Rightarrow> nv_dlopen nv ''libnvidia-ml.so'' w)"

text \<open>The first of two names that the library has.\<close>

definition resolve_either :: "'w nvml \<Rightarrow> pointer \<Rightarrow> string \<Rightarrow> string \<Rightarrow> pointer option" where
  "resolve_either nv h newer plain =
     (case nv_dlsym nv h newer of Some f \<Rightarrow> Some f | None \<Rightarrow> nv_dlsym nv h plain)"

text \<open>
  The entry points that list processes, with the size of their records: the first version whose
  compute function exists, else what the last version has.
\<close>

fun process_functions ::
  "'w nvml \<Rightarrow> pointer \<Rightarrow> (string \<times> string \<times> nat) list \<Rightarrow> pointer option \<times> pointer option \<times> nat
   \<Rightarrow> pointer option \<times> pointer option \<times> nat" where
  "process_functions nv h [] found = found"
| "process_functions nv h ((compute, graphics, room) # versions) found =
     (if fst found = None
      then process_functions nv h versions (nv_dlsym nv h compute, nv_dlsym nv h graphics, room)
      else found)"

definition process_versions :: "(string \<times> string \<times> nat) list" where
  "process_versions =
     [(''nvmlDeviceGetComputeRunningProcesses_v3'', ''nvmlDeviceGetGraphicsRunningProcesses_v3'', process_info_v2_size),
      (''nvmlDeviceGetComputeRunningProcesses_v2'', ''nvmlDeviceGetGraphicsRunningProcesses_v2'', process_info_v2_size),
      (''nvmlDeviceGetComputeRunningProcesses'', ''nvmlDeviceGetGraphicsRunningProcesses'', process_info_v1_size)]"

definition resolve_library :: "'w nvml \<Rightarrow> pointer \<Rightarrow> pointer \<Rightarrow> pointer \<Rightarrow> GpuLibrary" where
  "resolve_library nv h count handleByIndex =
     (case process_functions nv h process_versions (None, None, 0) of (compute, graphics, room) \<Rightarrow>
        \<lparr>gl_handle = h, gl_shutdown = nv_dlsym nv h ''nvmlShutdown'', gl_count = count,
         gl_handleByIndex = handleByIndex, gl_name = nv_dlsym nv h ''nvmlDeviceGetName'',
         gl_uuid = nv_dlsym nv h ''nvmlDeviceGetUUID'',
         gl_utilization = nv_dlsym nv h ''nvmlDeviceGetUtilizationRates'',
         gl_memory = nv_dlsym nv h ''nvmlDeviceGetMemoryInfo'',
         gl_temperature = nv_dlsym nv h ''nvmlDeviceGetTemperature'',
         gl_power = nv_dlsym nv h ''nvmlDeviceGetPowerUsage'',
         gl_computeProcesses = compute, gl_graphicsProcesses = graphics, gl_processInfoSize = room,
         gl_processUtilization = nv_dlsym nv h ''nvmlDeviceGetProcessUtilization'',
         gl_lastSampleTime = Map.empty\<rparr>)"

text \<open>The destructor: NVML is shut down and unloaded.\<close>

definition GpuMonitor_Destroy :: "'w nvml \<Rightarrow> GpuMonitor \<Rightarrow> 'w \<Rightarrow> 'w" where
  "GpuMonitor_Destroy nv gpu w =
     (case gpu of
        None \<Rightarrow> w
      | Some l \<Rightarrow>
          nv_dlclose nv (gl_handle l)
            (case gl_shutdown l of None \<Rightarrow> w | Some f \<Rightarrow> snd (nv_plain nv f w)))"

text \<open>Opening returns the code, the error text, the monitor and the world.\<close>

definition GpuMonitor_Open ::
  "'w nvml \<Rightarrow> GpuMonitor \<Rightarrow> 'w \<Rightarrow> GpuCode \<times> string \<times> GpuMonitor \<times> 'w" where
  "GpuMonitor_Open nv gpu w =
     (case OpenLibrary nv w of
        (None, w) \<Rightarrow> (LibraryMissing, ''NVML was not found (it comes with the NVIDIA driver)'', gpu, w)
      | (Some h, w) \<Rightarrow>
          (case (resolve_either nv h ''nvmlInit_v2'' ''nvmlInit'',
                 resolve_either nv h ''nvmlDeviceGetCount_v2'' ''nvmlDeviceGetCount'',
                 resolve_either nv h ''nvmlDeviceGetHandleByIndex_v2'' ''nvmlDeviceGetHandleByIndex'') of
             (Some init, Some count, Some handleByIndex) \<Rightarrow>
               (case nv_plain nv init w of (started, w) \<Rightarrow>
                  if started \<noteq> nvml_success
                  then (InitFailed, ''NVML failed to start (code '' @ to_string started @ '')'', gpu,
                        nv_dlclose nv h w)
                  else (GpuCode_Ok, [], Some (resolve_library nv h count handleByIndex),
                        GpuMonitor_Destroy nv gpu w))
           | _ \<Rightarrow> (LibraryMissing, ''the NVML library lacks the functions this manager needs'', gpu,
                  nv_dlclose nv h w)))"

definition GpuMonitor_Available :: "GpuMonitor \<Rightarrow> bool" where
  "GpuMonitor_Available gpu \<longleftrightarrow> gpu \<noteq> None"

section \<open>One device\<close>

text \<open>\<open>Text\<close>: the buffer starts as zeros and its last character is set to zero.\<close>

definition nvml_Text :: "'w nvml \<Rightarrow> pointer option \<Rightarrow> pointer \<Rightarrow> 'w \<Rightarrow> string \<times> 'w" where
  "nvml_Text nv function device w =
     (case function of
        None \<Rightarrow> ([], w)
      | Some f \<Rightarrow>
          (case nv_text nv f device nvml_text_size w of ((code, written), w) \<Rightarrow>
             if code \<noteq> nvml_success then ([], w)
             else (takeWhile (\<lambda>c. c \<noteq> CHR 0x00) (take (nvml_text_size - 1) written), w)))"

text \<open>The bytes of a buffer of \<open>room\<close> bytes from \<open>start\<close> on, into which NVML has written \<open>written\<close>.\<close>

definition buffer_bytes :: "'w nvml \<Rightarrow> nat \<Rightarrow> bytes \<Rightarrow> nat \<Rightarrow> nat \<Rightarrow> bytes" where
  "buffer_bytes nv room written start n =
     map (\<lambda>k. if k < room then (if k < length written then written ! k else 0) else nv_beyond nv (k - room))
       [start ..< start + n]"

definition process_sample :: "'w nvml \<Rightarrow> nat \<Rightarrow> nat \<Rightarrow> bytes \<Rightarrow> 32 word \<Rightarrow> nat \<Rightarrow> GpuProcessSample" where
  "process_sample nv infoSize room written index i =
     (let pid = ucast (le_value (buffer_bytes nv room written (i * infoSize) 4)) :: 32 word;
          used = le_value (buffer_bytes nv room written (i * infoSize + process_memory_offset) 8);
          hasMemory = used \<noteq> nvml_value_not_available
      in empty_sample\<lparr>gp_device := index, gp_pid := sint pid, gp_hasMemory := hasMemory,
           gp_memoryBytes := (if hasMemory then used else 0)\<rparr>)"

definition CollectProcesses ::
  "'w nvml \<Rightarrow> GpuLibrary \<Rightarrow> pointer option \<Rightarrow> pointer \<Rightarrow> 32 word \<Rightarrow> 'w \<Rightarrow> GpuProcessSample list \<times> 'w" where
  "CollectProcesses nv l function device index w =
     (case function of
        None \<Rightarrow> ([], w)
      | Some f \<Rightarrow>
          (case nv_processes nv f device 0 None w of ((probe, count, _), w) \<Rightarrow>
             if (probe \<noteq> nvml_success \<and> probe \<noteq> nvml_insufficient_size) \<or> count = 0 then ([], w)
             else let count = count + process_slack;
                      room = unat count * gl_processInfoSize l
                  in case nv_processes nv f device count (Some room) w of ((code, count, written), w) \<Rightarrow>
                    if code \<noteq> nvml_success then ([], w)
                    else (map (process_sample nv (gl_processInfoSize l) room written index) [0 ..< unat count], w)))"

definition utilization_sample :: "32 word \<Rightarrow> NvmlSample \<Rightarrow> GpuProcessSample" where
  "utilization_sample index s =
     empty_sample\<lparr>gp_device := index, gp_pid := sint (ns_pid s), gp_hasUtilization := True,
       gp_utilizationPercent := double_of_word (ns_smUtil s)\<rparr>"

definition zero_NvmlSample :: NvmlSample where
  "zero_NvmlSample = \<lparr>ns_pid = 0, ns_timeStamp = 0, ns_smUtil = 0\<rparr>"

definition newest_time :: "NvmlSample list \<Rightarrow> 64 word \<Rightarrow> 64 word" where
  "newest_time reports since = fold (\<lambda>s t. max t (ns_timeStamp s)) reports since"

text \<open>
  \<open>lastSampleTime[index]\<close> inserts a zero for a new index. The second call fills a buffer of \<open>count\<close>
  records that start as zeros, and it may report another count.
\<close>

definition CollectUtilization ::
  "'w nvml \<Rightarrow> pointer \<Rightarrow> 32 word \<Rightarrow> GpuLibrary \<Rightarrow> 'w \<Rightarrow> GpuProcessSample list \<times> GpuLibrary \<times> 'w" where
  "CollectUtilization nv device index l w =
     (case gl_processUtilization l of
        None \<Rightarrow> ([], l, w)
      | Some f \<Rightarrow>
          (let since = (case gl_lastSampleTime l index of Some t \<Rightarrow> t | None \<Rightarrow> 0);
               l = l\<lparr>gl_lastSampleTime := (gl_lastSampleTime l)(index \<mapsto> since)\<rparr>
           in case nv_processUtilization nv f device None since w of ((probe, count, _), w) \<Rightarrow>
             if (probe \<noteq> nvml_success \<and> probe \<noteq> nvml_insufficient_size) \<or> count = 0 then ([], l, w)
             else case nv_processUtilization nv f device (Some count) since w of ((code, filled, written), w) \<Rightarrow>
               if code \<noteq> nvml_success then ([], l, w)
               else let buffer = take (unat count) (written @ replicate (unat count) zero_NvmlSample);
                        reports = take (unat filled) buffer;
                        newest = newest_time reports since
                    in (map (utilization_sample index) reports,
                        l\<lparr>gl_lastSampleTime := (gl_lastSampleTime l)(index \<mapsto> newest)\<rparr>, w)))"

definition default_GpuDevice :: GpuDevice where
  "default_GpuDevice =
     \<lparr>gd_index = 0, gd_name = [], gd_uuid = [], gd_utilizationPercent = double_minus_one,
      gd_memoryUtilizationPercent = double_minus_one, gd_memoryTotalBytes = 0, gd_memoryUsedBytes = 0,
      gd_temperatureC = 0, gd_powerMilliwatts = 0\<rparr>"

text \<open>A reading that is kept only when its function exists and succeeds.\<close>

definition optional_reading ::
  "pointer option \<Rightarrow> (pointer \<Rightarrow> 'w \<Rightarrow> (int \<times> 'a) \<times> 'w) \<Rightarrow> 'w \<Rightarrow> 'a option \<times> 'w" where
  "optional_reading function call w =
     (case function of
        None \<Rightarrow> (None, w)
      | Some f \<Rightarrow> (case call f w of ((code, v), w) \<Rightarrow> (if code = nvml_success then Some v else None, w)))"

definition read_device :: "'w nvml \<Rightarrow> GpuLibrary \<Rightarrow> pointer \<Rightarrow> 32 word \<Rightarrow> 'w \<Rightarrow> GpuDevice \<times> 'w" where
  "read_device nv l device index w =
     (let (name, w) = nvml_Text nv (gl_name l) device w;
          (uuid, w) = nvml_Text nv (gl_uuid l) device w;
          info = default_GpuDevice\<lparr>gd_index := index, gd_name := name, gd_uuid := uuid\<rparr>;
          (utilization, w) = optional_reading (gl_utilization l) (\<lambda>f. nv_utilization nv f device) w;
          info = (case utilization of None \<Rightarrow> info | Some (gpu, memory) \<Rightarrow>
                    info\<lparr>gd_utilizationPercent := double_of_word gpu,
                      gd_memoryUtilizationPercent := double_of_word memory\<rparr>);
          (memory, w) = optional_reading (gl_memory l) (\<lambda>f. nv_memory nv f device) w;
          info = (case memory of None \<Rightarrow> info | Some (all, used) \<Rightarrow>
                    info\<lparr>gd_memoryTotalBytes := all, gd_memoryUsedBytes := used\<rparr>);
          (temperature, w) = optional_reading (gl_temperature l)
                               (\<lambda>f. nv_temperature nv f device nvml_temperature_gpu) w;
          info = (case temperature of None \<Rightarrow> info | Some t \<Rightarrow> info\<lparr>gd_temperatureC := t\<rparr>);
          (power, w) = optional_reading (gl_power l) (\<lambda>f. nv_power nv f device) w
      in (case power of None \<Rightarrow> info | Some p \<Rightarrow> info\<lparr>gd_powerMilliwatts := p\<rparr>, w))"

section \<open>A snapshot\<close>

definition sample_device ::
  "'w nvml \<Rightarrow> nat \<Rightarrow> GpuDevice list \<times> GpuProcessSample list \<times> GpuLibrary \<times> 'w
   \<Rightarrow> GpuDevice list \<times> GpuProcessSample list \<times> GpuLibrary \<times> 'w" where
  "sample_device nv i st =
     (case st of (devices, samples, l, w) \<Rightarrow>
        (case nv_device nv (gl_handleByIndex l) (of_nat i) w of ((code, device), w) \<Rightarrow>
           if code \<noteq> nvml_success then (devices, samples, l, w)
           else let (info, w) = read_device nv l device (of_nat i) w;
                    (compute, w) = CollectProcesses nv l (gl_computeProcesses l) device (of_nat i) w;
                    (graphics, w) = CollectProcesses nv l (gl_graphicsProcesses l) device (of_nat i) w;
                    (use, l, w) = CollectUtilization nv device (of_nat i) l w
                in (devices @ [info], samples @ compute @ graphics @ use, l, w)))"

definition empty_GpuSnapshot :: GpuSnapshot where
  "empty_GpuSnapshot = \<lparr>gs_available = False, gs_devices = [], gs_processes = Map.empty\<rparr>"

definition GpuMonitor_Sample :: "'w nvml \<Rightarrow> GpuMonitor \<Rightarrow> 'w \<Rightarrow> GpuSnapshot \<times> GpuMonitor \<times> 'w" where
  "GpuMonitor_Sample nv gpu w =
     (case gpu of
        None \<Rightarrow> (empty_GpuSnapshot, gpu, w)
      | Some l \<Rightarrow>
          (case nv_count nv (gl_count l) w of ((code, count), w) \<Rightarrow>
             if code \<noteq> nvml_success then (empty_GpuSnapshot, gpu, w)
             else case fold (sample_device nv) [0 ..< unat count] ([], [], l, w) of (devices, samples, l, w) \<Rightarrow>
               (\<lparr>gs_available = True, gs_devices = devices, gs_processes = AggregateGpuProcesses samples\<rparr>,
                Some l, w)))"

section \<open>Lemmas\<close>

lemma Open_failed_keeps:
  assumes "GpuMonitor_Open nv gpu w = (code, error, gpu', w')" and "code \<noteq> GpuCode_Ok"
  shows "gpu' = gpu \<and> error \<noteq> []"
  using assms by (auto simp: GpuMonitor_Open_def split: prod.splits option.splits if_splits)

lemma Open_ok_available:
  assumes "GpuMonitor_Open nv gpu w = (GpuCode_Ok, error, gpu', w')"
  shows "GpuMonitor_Available gpu'"
  using assms by (auto simp: GpuMonitor_Open_def GpuMonitor_Available_def split: prod.splits option.splits if_splits)

text \<open>The records have room for the memory figure in every version.\<close>

lemma process_record_size:
  "snd (snd (process_functions nv h process_versions (None, None, 0))) \<ge> process_memory_offset + 8"
  by (simp add: process_versions_def process_info_v1_size_def process_info_v2_size_def process_memory_offset_def)

lemma newest_time_ge [simp]: "since \<le> newest_time ss since"
proof (induction ss arbitrary: since)
  case (Cons s ss)
  from Cons [of "max since (ns_timeStamp s)"] show ?case by (simp add: newest_time_def)
qed (simp add: newest_time_def)

definition since_of :: "GpuLibrary \<Rightarrow> 32 word \<Rightarrow> 64 word" where
  "since_of l index = (case gl_lastSampleTime l index of Some t \<Rightarrow> t | None \<Rightarrow> 0)"

lemma CollectUtilization_since:
  assumes "CollectUtilization nv device index l w = (samples, l', w')"
  shows "since_of l i \<le> since_of l' i"
  using assms
  by (auto simp: CollectUtilization_def since_of_def Let_def split: option.splits prod.splits if_splits)

end
