(* ===== verification/Zmq_Socket.thy ===== *)
theory Zmq_Socket
  imports Wire
begin

text \<open>
  The message sockets (\<open>src/manager/include/ZmqSocket.hpp\<close>, \<open>ZmqSocket.cpp\<close>). The ZeroMQ library
  is not part of the repository: its functions are the fields of a record over the outside world,
  each with the error number of a failed call. A socket keeps its handle and its last error. The
  loop that receives the parts of a message ends when the library says that no part follows; the
  value \<open>None\<close> is that it never does.
\<close>

section \<open>The library\<close>

record 'w zmq =
  z_socket :: "int \<Rightarrow> 'w \<Rightarrow> (int + nat) \<times> 'w"
  z_close :: "nat \<Rightarrow> 'w \<Rightarrow> 'w"
  z_bind :: "nat \<Rightarrow> string \<Rightarrow> 'w \<Rightarrow> int option \<times> 'w"
  z_connect :: "nat \<Rightarrow> string \<Rightarrow> 'w \<Rightarrow> int option \<times> 'w"
  z_setNumber :: "nat \<Rightarrow> int \<Rightarrow> int \<Rightarrow> 'w \<Rightarrow> int option \<times> 'w"
  z_setText :: "nat \<Rightarrow> int \<Rightarrow> string \<Rightarrow> 'w \<Rightarrow> int option \<times> 'w"
  z_send :: "nat \<Rightarrow> bytes \<Rightarrow> bool \<Rightarrow> bool \<Rightarrow> 'w \<Rightarrow> int option \<times> 'w"
  z_recv :: "nat \<Rightarrow> bool \<Rightarrow> 'w \<Rightarrow> (int + bytes \<times> bool) \<times> 'w"
  z_lastEndpoint :: "nat \<Rightarrow> 'w \<Rightarrow> string option"
  z_strerror :: "int \<Rightarrow> string"
  z_poll :: "nat list \<Rightarrow> int \<Rightarrow> 'w \<Rightarrow> (int + bool list) \<times> 'w"

definition EINTR :: int where "EINTR = 4"
definition EAGAIN :: int where "EAGAIN = 11"
definition EINVAL :: int where "EINVAL = 22"
definition ENOTSOCK :: int where "ENOTSOCK = 88"

section \<open>Frames and codes\<close>

type_synonym Frame = bytes
type_synonym Message = "Frame list"

datatype ZmqCode = ZC_Ok | ZC_WouldBlock | ZC_Failed

datatype SocketType = ST_Publisher | ST_Subscriber | ST_Router | ST_Dealer

datatype SocketOption =
  SO_Linger | SO_SendHighWater | SO_ReceiveHighWater | SO_RouterHandover | SO_Ipv6 | SO_Subscribe | SO_Identity

fun TypeValue :: "SocketType \<Rightarrow> int" where
  "TypeValue ST_Publisher = 1"
| "TypeValue ST_Subscriber = 2"
| "TypeValue ST_Router = 6"
| "TypeValue ST_Dealer = 5"

fun OptionValue :: "SocketOption \<Rightarrow> int" where
  "OptionValue SO_Linger = 17"
| "OptionValue SO_SendHighWater = 23"
| "OptionValue SO_ReceiveHighWater = 24"
| "OptionValue SO_RouterHandover = 56"
| "OptionValue SO_Ipv6 = 42"
| "OptionValue SO_Subscribe = 6"
| "OptionValue SO_Identity = 5"

definition MakeFrame :: "string \<Rightarrow> Frame" where
  "MakeFrame s = to_bytes s"

definition FrameIs :: "Frame \<Rightarrow> string \<Rightarrow> bool" where
  "FrameIs frame s \<longleftrightarrow> length frame = length s \<and> list_all2 (\<lambda>b c. b = byte_of_char c) frame s"

section \<open>Sockets\<close>

record ZmqSocket =
  zs_handle :: "nat option"
  zs_lastError :: int

text \<open>
  A call that needs a handle: it fails with \<open>ENOTSOCK\<close> without one, and otherwise keeps the error
  of the library.
\<close>

definition on_handle ::
  "(nat \<Rightarrow> 'w \<Rightarrow> int option \<times> 'w) \<Rightarrow> ZmqSocket \<Rightarrow> 'w \<Rightarrow> ZmqCode \<times> ZmqSocket \<times> 'w" where
  "on_handle f s w =
     (case zs_handle s of
        None \<Rightarrow> (ZC_Failed, s\<lparr>zs_lastError := ENOTSOCK\<rparr>, w)
      | Some h \<Rightarrow>
          (case f h w of
             (Some e, w') \<Rightarrow> (ZC_Failed, s\<lparr>zs_lastError := e\<rparr>, w')
           | (None, w') \<Rightarrow> (ZC_Ok, s, w')))"

definition ZmqSocket_Bind :: "'w zmq \<Rightarrow> string \<Rightarrow> ZmqSocket \<Rightarrow> 'w \<Rightarrow> ZmqCode \<times> ZmqSocket \<times> 'w" where
  "ZmqSocket_Bind z endpoint = on_handle (\<lambda>h. z_bind z h endpoint)"

definition ZmqSocket_Connect :: "'w zmq \<Rightarrow> string \<Rightarrow> ZmqSocket \<Rightarrow> 'w \<Rightarrow> ZmqCode \<times> ZmqSocket \<times> 'w" where
  "ZmqSocket_Connect z endpoint = on_handle (\<lambda>h. z_connect z h endpoint)"

definition SetNumber ::
  "'w zmq \<Rightarrow> SocketOption \<Rightarrow> int \<Rightarrow> ZmqSocket \<Rightarrow> 'w \<Rightarrow> ZmqCode \<times> ZmqSocket \<times> 'w" where
  "SetNumber z opt v = on_handle (\<lambda>h. z_setNumber z h (OptionValue opt) v)"

definition SetText ::
  "'w zmq \<Rightarrow> SocketOption \<Rightarrow> string \<Rightarrow> ZmqSocket \<Rightarrow> 'w \<Rightarrow> ZmqCode \<times> ZmqSocket \<times> 'w" where
  "SetText z opt v = on_handle (\<lambda>h. z_setText z h (OptionValue opt) v)"

definition new_ZmqSocket :: "'w zmq \<Rightarrow> SocketType \<Rightarrow> 'w \<Rightarrow> ZmqSocket \<times> 'w" where
  "new_ZmqSocket z t w =
     (case z_socket z (TypeValue t) w of
        (Inl e, w') \<Rightarrow> (\<lparr>zs_handle = None, zs_lastError = e\<rparr>, w')
      | (Inr h, w') \<Rightarrow> snd (SetNumber z SO_Linger 0 \<lparr>zs_handle = Some h, zs_lastError = 0\<rparr> w'))"

definition ZmqSocket_Close :: "'w zmq \<Rightarrow> ZmqSocket \<Rightarrow> 'w \<Rightarrow> ZmqSocket \<times> 'w" where
  "ZmqSocket_Close z s w =
     (case zs_handle s of None \<Rightarrow> (s, w) | Some h \<Rightarrow> (s\<lparr>zs_handle := None\<rparr>, z_close z h w))"

fun send_frames :: "'w zmq \<Rightarrow> nat \<Rightarrow> bool \<Rightarrow> bool \<Rightarrow> Message \<Rightarrow> 'w \<Rightarrow> (ZmqCode \<times> int option) \<times> 'w" where
  "send_frames z h dontWait first [] w = ((ZC_Ok, None), w)"
| "send_frames z h dontWait first (frame # frames) w =
     (case z_send z h frame (frames \<noteq> []) dontWait w of
        (Some e, w') \<Rightarrow> ((if e = EAGAIN \<and> first then ZC_WouldBlock else ZC_Failed, Some e), w')
      | (None, w') \<Rightarrow> send_frames z h dontWait False frames w')"

definition ZmqSocket_Send ::
  "'w zmq \<Rightarrow> Message \<Rightarrow> bool \<Rightarrow> ZmqSocket \<Rightarrow> 'w \<Rightarrow> ZmqCode \<times> ZmqSocket \<times> 'w" where
  "ZmqSocket_Send z message dontWait s w =
     (case zs_handle s of
        None \<Rightarrow> (ZC_Failed, s\<lparr>zs_lastError := ENOTSOCK\<rparr>, w)
      | Some h \<Rightarrow>
          if message = [] then (ZC_Failed, s\<lparr>zs_lastError := EINVAL\<rparr>, w)
          else case send_frames z h dontWait True message w of
            ((code, Some e), w') \<Rightarrow> (code, s\<lparr>zs_lastError := e\<rparr>, w')
          | ((code, None), w') \<Rightarrow> (code, s, w'))"

partial_function (option) receive_loop ::
  "'w zmq \<Rightarrow> nat \<Rightarrow> bool \<Rightarrow> Message \<Rightarrow> 'w \<Rightarrow> ((ZmqCode \<times> int option) \<times> Message \<times> 'w) option" where
  "receive_loop z h dontWait out w =
     (case z_recv z h dontWait w of
        (Inl e, w') \<Rightarrow>
          Some ((if out = [] \<and> (e = EAGAIN \<or> e = EINTR) then ZC_WouldBlock else ZC_Failed, Some e), out, w')
      | (Inr (part, follows), w') \<Rightarrow>
          if follows then receive_loop z h dontWait (out @ [part]) w'
          else Some ((ZC_Ok, None), out @ [part], w'))"

definition ZmqSocket_Receive ::
  "'w zmq \<Rightarrow> bool \<Rightarrow> ZmqSocket \<Rightarrow> 'w \<Rightarrow> (ZmqCode \<times> Message \<times> ZmqSocket \<times> 'w) option" where
  "ZmqSocket_Receive z dontWait s w =
     (case zs_handle s of
        None \<Rightarrow> Some (ZC_Failed, [], s\<lparr>zs_lastError := ENOTSOCK\<rparr>, w)
      | Some h \<Rightarrow>
          (case receive_loop z h dontWait [] w of
             None \<Rightarrow> None
           | Some ((code, Some e), out, w') \<Rightarrow> Some (code, out, s\<lparr>zs_lastError := e\<rparr>, w')
           | Some ((code, None), out, w') \<Rightarrow> Some (code, out, s, w')))"

definition BoundEndpoint :: "'w zmq \<Rightarrow> ZmqSocket \<Rightarrow> 'w \<Rightarrow> string" where
  "BoundEndpoint z s w =
     (case zs_handle s of
        None \<Rightarrow> []
      | Some h \<Rightarrow> (case z_lastEndpoint z h w of None \<Rightarrow> [] | Some e \<Rightarrow> e))"

definition LastError :: "'w zmq \<Rightarrow> ZmqSocket \<Rightarrow> string" where
  "LastError z s = z_strerror z (zs_lastError s)"

text \<open>A null pointer among the sockets is \<open>None\<close>; it and a socket without a handle are not polled.\<close>

fun place_ready :: "ZmqSocket option list \<Rightarrow> bool list \<Rightarrow> bool list" where
  "place_ready [] results = []"
| "place_ready (s # ss) results =
     (case (Option.bind s zs_handle, results) of
        (Some h, r # rs) \<Rightarrow> r # place_ready ss rs
      | _ \<Rightarrow> False # place_ready ss results)"

definition PollReadable ::
  "'w zmq \<Rightarrow> ZmqSocket option list \<Rightarrow> millis \<Rightarrow> 'w \<Rightarrow> ZmqCode \<times> bool list \<times> 'w" where
  "PollReadable z sockets timeout w =
     (let items = List.map_filter (\<lambda>s. Option.bind s zs_handle) sockets
      in case z_poll z items (if timeout < 0 then 0 else timeout) w of
           (Inl e, w') \<Rightarrow> (if e = EINTR then ZC_Ok else ZC_Failed, map (\<lambda>s. False) sockets, w')
         | (Inr results, w') \<Rightarrow> (ZC_Ok, place_ready sockets results, w'))"

text \<open>An endpoint with a bracket is an IPv6 address, which the socket has to allow first.\<close>

definition AllowIpv6 :: "'w zmq \<Rightarrow> string \<Rightarrow> ZmqSocket \<Rightarrow> 'w \<Rightarrow> ZmqSocket \<times> 'w" where
  "AllowIpv6 z endpoint s w =
     (if CHR ''['' \<in> set endpoint then snd (SetNumber z SO_Ipv6 1 s w) else (s, w))"

section \<open>Lemmas\<close>

lemma FrameIs_MakeFrame: "FrameIs frame s \<longleftrightarrow> frame = MakeFrame s"
  by (auto simp: FrameIs_def MakeFrame_def to_bytes_def list_all2_conv_all_nth list_eq_iff_nth_eq)

lemma place_ready_length [simp]: "length (place_ready ss rs) = length ss"
  by (induction ss rs rule: place_ready.induct) (auto split: option.splits list.splits)

lemma PollReadable_length:
  "PollReadable z sockets t w = (code, ready, w') \<Longrightarrow> length ready = length sockets"
  by (auto simp: PollReadable_def Let_def split: prod.splits sum.splits if_splits)

text \<open>No socket without a handle is ever ready.\<close>

lemma place_ready_handle:
  "i < length ss \<Longrightarrow> place_ready ss rs ! i \<Longrightarrow> Option.bind (ss ! i) zs_handle \<noteq> None"
proof (induction ss rs arbitrary: i rule: place_ready.induct)
  case (2 s ss rs)
  then show ?case by (cases i) (auto split: option.splits list.splits)
qed simp

text \<open>A library that hands out the parts of one message after the other is read to the end.\<close>

fun hands_out :: "'w zmq \<Rightarrow> nat \<Rightarrow> bool \<Rightarrow> Message \<Rightarrow> 'w \<Rightarrow> 'w \<Rightarrow> bool" where
  "hands_out z h dontWait [] w w' \<longleftrightarrow> False"
| "hands_out z h dontWait [part] w w' \<longleftrightarrow> z_recv z h dontWait w = (Inr (part, False), w')"
| "hands_out z h dontWait (part # parts) w w' \<longleftrightarrow>
     fst (z_recv z h dontWait w) = Inr (part, True)
     \<and> hands_out z h dontWait parts (snd (z_recv z h dontWait w)) w'"

lemma receive_loop_parts:
  "hands_out z h dontWait parts w w' \<Longrightarrow>
   receive_loop z h dontWait out w = Some ((ZC_Ok, None), out @ parts, w')"
proof (induction z h dontWait parts w w' arbitrary: out rule: hands_out.induct)
  case (2 z h dontWait part w w')
  then show ?case by (subst receive_loop.simps) simp
next
  case (3 z h dontWait part p parts w w')
  then show ?case
    by (subst receive_loop.simps) (cases "z_recv z h dontWait w", simp)
qed simp

lemma Receive_parts:
  "zs_handle s = Some h \<Longrightarrow> hands_out z h dontWait parts w w' \<Longrightarrow>
   ZmqSocket_Receive z dontWait s w = Some (ZC_Ok, parts, s, w')"
  by (simp add: ZmqSocket_Receive_def receive_loop_parts)

text \<open>
  A library that takes the frames of one message after the other: every frame but the last is announced
  to have a successor.
\<close>

fun takes_in :: "'w zmq \<Rightarrow> nat \<Rightarrow> bool \<Rightarrow> Message \<Rightarrow> 'w \<Rightarrow> 'w \<Rightarrow> bool" where
  "takes_in z h dontWait [] w w' \<longleftrightarrow> w' = w"
| "takes_in z h dontWait (frame # frames) w w' \<longleftrightarrow>
     (case z_send z h frame (frames \<noteq> []) dontWait w of
        (None, w1) \<Rightarrow> takes_in z h dontWait frames w1 w'
      | (Some e, w1) \<Rightarrow> False)"

lemma send_frames_taken:
  "takes_in z h dontWait frames w w' \<Longrightarrow> send_frames z h dontWait first frames w = ((ZC_Ok, None), w')"
  by (induction frames arbitrary: w first) (auto split: prod.splits option.splits)

lemma Send_taken:
  "zs_handle s = Some h \<Longrightarrow> message \<noteq> [] \<Longrightarrow> takes_in z h dontWait message w w' \<Longrightarrow>
   ZmqSocket_Send z message dontWait s w = (ZC_Ok, s, w')"
  by (simp add: ZmqSocket_Send_def send_frames_taken)

text \<open>An empty queue of a socket that does not wait is a message that would block.\<close>

lemma Receive_empty:
  "zs_handle s = Some h \<Longrightarrow> z_recv z h True w = (Inl EAGAIN, w') \<Longrightarrow>
   ZmqSocket_Receive z True s w = Some (ZC_WouldBlock, [], s\<lparr>zs_lastError := EAGAIN\<rparr>, w')"
  by (simp add: ZmqSocket_Receive_def receive_loop.simps)

text \<open>Sending is all or nothing at the first frame: it blocks only before anything was sent.\<close>

lemma send_frames_blocks:
  "send_frames z h dontWait False frames w = ((code, e), w') \<Longrightarrow> code \<noteq> ZC_WouldBlock"
proof (induction frames arbitrary: w)
  case (Cons f frames)
  then show ?case by (auto split: prod.splits option.splits)
qed simp

end
