(* ===== verification/Command_Server.thy ===== *)
theory Command_Server
  imports Zmq_Socket Command_Message
begin

text \<open>
  The command socket of the manager (\<open>src/manager/include/CommandServer.hpp\<close>, \<open>CommandServer.cpp\<close>):
  the framing of requests and replies and the ROUTER socket they travel on. A ROUTER puts the
  identity of the client in front of what the client sent and takes it off a message it sends.
\<close>

section \<open>Framing\<close>

record CommandRequest =
  cq_identity :: Frame
  cq_delimiter :: bool
  cq_command :: CommandMessage

definition default_CommandMessage :: CommandMessage where
  "default_CommandMessage = \<lparr>cm_command = 0, cm_serviceName = [], cm_args = []\<rparr>"

definition default_CommandRequest :: CommandRequest where
  "default_CommandRequest = \<lparr>cq_identity = [], cq_delimiter = False, cq_command = default_CommandMessage\<rparr>"

datatype RequestCode = RC_Ok | RC_Empty | RC_Malformed

text \<open>What \<open>Receive\<close> makes of a message that is not empty: the identity, then the other frames.\<close>

definition parse_request :: "Message \<Rightarrow> RequestCode \<times> CommandRequest \<times> string" where
  "parse_request message =
     (let request = default_CommandRequest\<lparr>cq_identity := hd message\<rparr>;
          frames = tl message;
          rest = dropWhile (\<lambda>f. f = []) frames;
          request = request\<lparr>cq_delimiter := (frames \<noteq> [] \<and> hd frames = [])\<rparr>;
          rest = (if rest \<noteq> [] \<and> FrameIs (hd rest) command_tag then tl rest else rest)
      in if length rest \<noteq> 1
         then (RC_Malformed, request,
               ''expected frame '' @ [CHR 0x22] @ ''BPM'' @ [CHR 0x22] @ '' and one command frame, got ''
                 @ to_string (int (length message) - 1) @ '' frames'')
         else case DecodeCommand (hd rest) of
                Inl e \<Rightarrow>
                  (RC_Malformed, request,
                   ''the command frame has '' @ to_string (int (length (hd rest))) @ '' bytes, expected ''
                     @ to_string (int command_message_size))
              | Inr m \<Rightarrow> (RC_Ok, request\<lparr>cq_command := m\<rparr>, []))"

definition reply_frames :: "CommandRequest \<Rightarrow> CommandReply \<Rightarrow> Message" where
  "reply_frames request reply =
     [cq_identity request] @ (if cq_delimiter request then [[]] else [])
       @ [MakeFrame command_tag, EncodeReply reply]"

section \<open>The server\<close>

definition new_CommandServer :: "'w zmq \<Rightarrow> 'w \<Rightarrow> ZmqSocket \<times> 'w" where
  "new_CommandServer z w = new_ZmqSocket z ST_Router w"

text \<open>Binding, with the reason of a failure.\<close>

definition CommandServer_Bind ::
  "'w zmq \<Rightarrow> string \<Rightarrow> ZmqSocket \<Rightarrow> 'w \<Rightarrow> string option \<times> ZmqSocket \<times> 'w" where
  "CommandServer_Bind z endpoint router w =
     (let (c, router, w) = SetNumber z SO_RouterHandover 1 router w;
          (router, w) = AllowIpv6 z endpoint router w;
          (code, router, w) = ZmqSocket_Bind z endpoint router w
      in (if code \<noteq> ZC_Ok then Some (''cannot bind '' @ endpoint @ '': '' @ LastError z router) else None,
          router, w))"

definition CommandServer_Receive ::
  "'w zmq \<Rightarrow> ZmqSocket \<Rightarrow> 'w
   \<Rightarrow> (RequestCode \<times> CommandRequest \<times> string \<times> ZmqSocket \<times> 'w) option" where
  "CommandServer_Receive z router w =
     (case ZmqSocket_Receive z True router w of
        None \<Rightarrow> None
      | Some (code, message, router', w') \<Rightarrow>
          (if code \<noteq> ZC_Ok \<or> message = [] then Some (RC_Empty, default_CommandRequest, [], router', w')
           else case parse_request message of
             (rc, request, problem) \<Rightarrow> Some (rc, request, problem, router', w')))"

definition CommandServer_Reply ::
  "'w zmq \<Rightarrow> CommandRequest \<Rightarrow> CommandReply \<Rightarrow> ZmqSocket \<Rightarrow> 'w \<Rightarrow> ZmqCode \<times> ZmqSocket \<times> 'w" where
  "CommandServer_Reply z request reply router w =
     ZmqSocket_Send z (reply_frames request reply) True router w"

definition CommandServer_Endpoint :: "'w zmq \<Rightarrow> ZmqSocket \<Rightarrow> 'w \<Rightarrow> string" where
  "CommandServer_Endpoint z router w = BoundEndpoint z router w"

text \<open>\<open>%02x\<close> of one byte.\<close>

definition hex2 :: "byte \<Rightarrow> string" where
  "hex2 b = map (\<lambda>d. ''0123456789abcdef'' ! d) [unat b div 16, unat b mod 16]"

definition DescribeIdentity :: "Frame \<Rightarrow> string" where
  "DescribeIdentity identity =
     (if identity \<noteq> [] \<and> list_all (\<lambda>b. 0x20 \<le> b \<and> b < 0x7f) identity then of_bytes identity
      else ''0x'' @ concat (map hex2 identity))"

section \<open>Lemmas\<close>

lemma EncodeCommand_not_empty [simp]: "EncodeCommand m \<noteq> []"
  using length_EncodeCommand [of m] by auto

lemma EncodeCommand_not_tag [simp]: "\<not> FrameIs (EncodeCommand m) command_tag"
  using length_EncodeCommand [of m] by (auto simp: FrameIs_def command_tag_def)

lemma tag_is_tag [simp]: "FrameIs (MakeFrame command_tag) command_tag" "MakeFrame command_tag \<noteq> []"
  by (simp_all add: FrameIs_MakeFrame) (simp add: MakeFrame_def to_bytes_def command_tag_def)

lemma dropWhile_replicate [simp]: "dropWhile (\<lambda>f. f = []) (replicate k [] @ fs) = dropWhile (\<lambda>f. f = []) fs"
  by (induction k) simp_all

text \<open>Every form of request a client may send is understood.\<close>

lemma parse_request_framed:
  "parse_request (identity # replicate k [] @ (if tagged then [MakeFrame command_tag] else []) @ [EncodeCommand m])
    = (RC_Ok, \<lparr>cq_identity = identity, cq_delimiter = (0 < k), cq_command = norm_command m\<rparr>, [])"
  by (cases k; cases tagged)
    (simp_all add: parse_request_def default_CommandRequest_def Decode_EncodeCommand Let_def)

text \<open>Any other message is answered: the request keeps its identity.\<close>

lemma parse_request_identity: "cq_identity (fst (snd (parse_request message))) = hd message"
  by (auto simp: parse_request_def Let_def split: sum.splits)

text \<open>A printable identity is shown as it is; the hexadecimal form has two digits per byte.\<close>

lemma length_DescribeIdentity:
  "length (DescribeIdentity identity) = length identity \<or> length (DescribeIdentity identity) = 2 + 2 * length identity"
proof -
  have "length (concat (map hex2 bs)) = 2 * length bs" for bs
    by (induction bs) (simp_all add: hex2_def)
  then show ?thesis by (simp add: DescribeIdentity_def)
qed

end
