(* ===== verification/Manager_Client.thy ===== *)
theory Manager_Client
  imports Command_Server Report_Builder
begin

text \<open>
  The two ends of the report and command channels beside the command server: the publisher of the
  manager (\<open>src/manager/include/ReportPublisher.hpp\<close>, \<open>ReportPublisher.cpp\<close>) and the client of the
  command line (\<open>src/manager/include/ManagerClient.hpp\<close>, \<open>ManagerClient.cpp\<close>). The client waits in
  a loop on the steady clock, the argument \<open>clock\<close>; the loop is a partial function, and
  \<open>await_reply_returns\<close> shows that it ends when the clock advances.
\<close>

section \<open>The publisher\<close>

definition report_topic :: string where "report_topic = ''report''"
definition publisher_linger_ms :: int where "publisher_linger_ms = 500"

record ReportPublisher =
  rp_health :: ZmqSocket
  rp_report :: ZmqSocket

definition new_ReportPublisher :: "'w zmq \<Rightarrow> 'w \<Rightarrow> ReportPublisher \<times> 'w" where
  "new_ReportPublisher z w =
     (let (health, w) = new_ZmqSocket z ST_Publisher w;
          (rep, w) = new_ZmqSocket z ST_Publisher w
      in (\<lparr>rp_health = health, rp_report = rep\<rparr>, w))"

definition Publisher_Prepare ::
  "'w zmq \<Rightarrow> string \<Rightarrow> ZmqSocket \<Rightarrow> 'w \<Rightarrow> string option \<times> ZmqSocket \<times> 'w" where
  "Publisher_Prepare z endpoint s w =
     (let (c, s, w) = SetNumber z SO_Linger publisher_linger_ms s w;
          (s, w) = AllowIpv6 z endpoint s w;
          (code, s, w) = ZmqSocket_Bind z endpoint s w
      in (if code \<noteq> ZC_Ok then Some (''cannot bind '' @ endpoint @ '': '' @ LastError z s) else None, s, w))"

definition Publisher_Bind ::
  "'w zmq \<Rightarrow> string \<Rightarrow> string \<Rightarrow> ReportPublisher \<Rightarrow> 'w \<Rightarrow> string option \<times> ReportPublisher \<times> 'w" where
  "Publisher_Bind z healthEndpoint reportEndpoint p w =
     (case Publisher_Prepare z healthEndpoint (rp_health p) w of
        (Some error, s, w) \<Rightarrow> (Some error, p\<lparr>rp_health := s\<rparr>, w)
      | (None, s, w) \<Rightarrow>
          (case Publisher_Prepare z reportEndpoint (rp_report p) w of
             (error, t, w) \<Rightarrow> (error, p\<lparr>rp_health := s, rp_report := t\<rparr>, w)))"

definition health_message :: "HealthRecord list \<Rightarrow> Message" where
  "health_message records = [EncodeHealthRecords records]"

definition report_message :: "DetailedReport \<Rightarrow> Message" where
  "report_message detailed = [MakeFrame report_topic, EncodeReport detailed]"

definition Publisher_Publish ::
  "'w zmq \<Rightarrow> HealthRecord list \<Rightarrow> DetailedReport \<Rightarrow> ReportPublisher \<Rightarrow> 'w \<Rightarrow> ReportPublisher \<times> 'w" where
  "Publisher_Publish z records detailed p w =
     (let (c, health, w) = ZmqSocket_Send z (health_message records) True (rp_health p) w;
          (c', rep, w) = ZmqSocket_Send z (report_message detailed) True (rp_report p) w
      in (p\<lparr>rp_health := health, rp_report := rep\<rparr>, w))"

definition HealthEndpoint :: "'w zmq \<Rightarrow> ReportPublisher \<Rightarrow> 'w \<Rightarrow> string" where
  "HealthEndpoint z p w = BoundEndpoint z (rp_health p) w"

definition ReportEndpoint :: "'w zmq \<Rightarrow> ReportPublisher \<Rightarrow> 'w \<Rightarrow> string" where
  "ReportEndpoint z p w = BoundEndpoint z (rp_report p) w"

section \<open>The client\<close>

datatype ClientCode = CL_Ok | CL_Timeout | CL_Failed | CL_Malformed

definition subscriber_queue :: int where "subscriber_queue = 16"

record ManagerClient =
  mc_commandEndpoint :: string
  mc_reportEndpoint :: string
  mc_subscriber :: "ZmqSocket option"

definition new_ManagerClient :: "string \<Rightarrow> string \<Rightarrow> ManagerClient" where
  "new_ManagerClient commandEndpoint reportEndpoint =
     \<lparr>mc_commandEndpoint = commandEndpoint, mc_reportEndpoint = reportEndpoint, mc_subscriber = None\<rparr>"

definition Remaining :: "('w \<Rightarrow> nanos \<times> 'w) \<Rightarrow> nanos \<Rightarrow> 'w \<Rightarrow> millis \<times> 'w" where
  "Remaining clock deadline w = (case clock w of (now, w') \<Rightarrow> (cdiv (deadline - now) 1000000, w'))"

definition command_frames :: "CommandMessage \<Rightarrow> Message" where
  "command_frames m = [MakeFrame command_tag, EncodeCommand m]"

text \<open>What the client makes of a reply.\<close>

definition parse_reply :: "Message \<Rightarrow> (ClientCode \<times> string) + CommandReply" where
  "parse_reply reply =
     (let rest = dropWhile (\<lambda>f. f = []) reply;
          malformed = Inl (CL_Malformed, ''the manager sent a reply this client does not understand'')
      in if length rest \<noteq> 2 \<or> \<not> FrameIs (hd rest) command_tag then malformed
         else case DecodeReply (hd (tl rest)) of Inl e \<Rightarrow> malformed | Inr r \<Rightarrow> Inr r)"

partial_function (option) await_reply ::
  "'w zmq \<Rightarrow> ('w \<Rightarrow> nanos \<times> 'w) \<Rightarrow> string \<Rightarrow> millis \<Rightarrow> nanos \<Rightarrow> ZmqSocket \<Rightarrow> 'w
   \<Rightarrow> (((ClientCode \<times> string) + CommandReply) \<times> ZmqSocket \<times> 'w) option" where
  "await_reply z clock endpoint timeout deadline dealer w =
     (case Remaining clock deadline w of (left, w1) \<Rightarrow>
        if left \<le> 0
        then Some (Inl (CL_Timeout, ''no reply from the manager at '' @ endpoint @ '' within ''
                     @ to_string timeout @ '' ms; is it running?''), dealer, w1)
        else case PollReadable z [Some dealer] left w1 of (code, ready, w2) \<Rightarrow>
          if code \<noteq> ZC_Ok
          then Some (Inl (CL_Failed, ''waiting for the reply failed: '' @ LastError z dealer), dealer, w2)
          else if \<not> ready ! 0 then await_reply z clock endpoint timeout deadline dealer w2
          else case ZmqSocket_Receive z True dealer w2 of
            None \<Rightarrow> None
          | Some (code', reply, dealer', w3) \<Rightarrow>
              if code' \<noteq> ZC_Ok then await_reply z clock endpoint timeout deadline dealer' w3
              else Some (parse_reply reply, dealer', w3))"

text \<open>The dealer is destroyed on every return.\<close>

definition with_dealer ::
  "'w zmq \<Rightarrow> ('r \<times> ZmqSocket \<times> 'w) option \<Rightarrow> ('r \<times> 'w) option" where
  "with_dealer z r =
     (case r of None \<Rightarrow> None | Some (out, dealer, w) \<Rightarrow> Some (out, snd (ZmqSocket_Close z dealer w)))"

definition SendCommand ::
  "'w zmq \<Rightarrow> ('w \<Rightarrow> nanos \<times> 'w) \<Rightarrow> CommandCode \<Rightarrow> string \<Rightarrow> millis \<Rightarrow> ManagerClient \<Rightarrow> 'w
   \<Rightarrow> (((ClientCode \<times> string) + CommandReply) \<times> 'w) option" where
  "SendCommand z clock command service timeout mc w =
     (let endpoint = mc_commandEndpoint mc;
          (dealer, w) = new_ZmqSocket z ST_Dealer w;
          (dealer, w) = AllowIpv6 z endpoint dealer w;
          (code, dealer, w) = ZmqSocket_Connect z endpoint dealer w
      in with_dealer z
           (if code \<noteq> ZC_Ok
            then Some (Inl (CL_Failed, ''cannot connect to '' @ endpoint @ '': '' @ LastError z dealer), dealer, w)
            else let message = default_CommandMessage\<lparr>cm_command := CommandCode_byte command,
                                 cm_serviceName := service\<rparr>;
                     (code, dealer, w) = ZmqSocket_Send z (command_frames message) True dealer w
                 in if code \<noteq> ZC_Ok
                    then Some (Inl (CL_Failed, ''cannot send to '' @ endpoint @ '': '' @ LastError z dealer),
                           dealer, w)
                    else case clock w of
                      (now, w) \<Rightarrow> await_reply z clock endpoint timeout (now + ns_of_ms timeout) dealer w))"

text \<open>A message of another shape is ignored; a report that cannot be decoded ends the wait.\<close>

definition parse_report :: "Message \<Rightarrow> ((ClientCode \<times> string) + DetailedReport) option" where
  "parse_report message =
     (if length message \<noteq> 2 \<or> \<not> FrameIs (hd message) report_topic then None
      else case DecodeReport (hd (tl message)) of
        Inr r \<Rightarrow> Some (Inr r)
      | Inl decoded \<Rightarrow>
          Some (Inl (CL_Malformed,
            if decoded = UnsupportedVersion
            then ''the manager sends a newer report version than this client reads''
            else ''the manager sent a report this client does not understand'')))"

partial_function (option) await_report ::
  "'w zmq \<Rightarrow> ('w \<Rightarrow> nanos \<times> 'w) \<Rightarrow> string \<Rightarrow> millis \<Rightarrow> nanos \<Rightarrow> ZmqSocket \<Rightarrow> 'w
   \<Rightarrow> (((ClientCode \<times> string) + DetailedReport) \<times> ZmqSocket \<times> 'w) option" where
  "await_report z clock endpoint timeout deadline sub w =
     (case Remaining clock deadline w of (left, w1) \<Rightarrow>
        if left \<le> 0
        then Some (Inl (CL_Timeout, ''no report from the manager at '' @ endpoint @ '' within ''
                     @ to_string timeout @ '' ms; is it running?''), sub, w1)
        else case PollReadable z [Some sub] left w1 of (code, ready, w2) \<Rightarrow>
          if code \<noteq> ZC_Ok
          then Some (Inl (CL_Failed, ''waiting for a report failed: '' @ LastError z sub), sub, w2)
          else if \<not> ready ! 0 then await_report z clock endpoint timeout deadline sub w2
          else case ZmqSocket_Receive z True sub w2 of
            None \<Rightarrow> None
          | Some (code', message, sub', w3) \<Rightarrow>
              (case (if code' \<noteq> ZC_Ok then None else parse_report message) of
                 None \<Rightarrow> await_report z clock endpoint timeout deadline sub' w3
               | Some r \<Rightarrow> Some (r, sub', w3)))"

text \<open>The subscription that stays open between calls.\<close>

definition open_subscriber ::
  "'w zmq \<Rightarrow> string \<Rightarrow> 'w \<Rightarrow> (string + ZmqSocket) \<times> 'w" where
  "open_subscriber z endpoint w =
     (let (s, w) = new_ZmqSocket z ST_Subscriber w;
          (c, s, w) = SetNumber z SO_ReceiveHighWater subscriber_queue s w;
          (c', s, w) = SetText z SO_Subscribe report_topic s w;
          (s, w) = AllowIpv6 z endpoint s w;
          (code, s, w) = ZmqSocket_Connect z endpoint s w
      in if code \<noteq> ZC_Ok
         then (Inl (''cannot connect to '' @ endpoint @ '': '' @ LastError z s), snd (ZmqSocket_Close z s w))
         else (Inr s, w))"

definition WaitForReport ::
  "'w zmq \<Rightarrow> ('w \<Rightarrow> nanos \<times> 'w) \<Rightarrow> millis \<Rightarrow> ManagerClient \<Rightarrow> 'w
   \<Rightarrow> (((ClientCode \<times> string) + DetailedReport) \<times> ManagerClient \<times> 'w) option" where
  "WaitForReport z clock timeout mc w =
     (let endpoint = mc_reportEndpoint mc
      in case (case mc_subscriber mc of Some s \<Rightarrow> (Inr s, w) | None \<Rightarrow> open_subscriber z endpoint w) of
           (Inl error, w) \<Rightarrow> Some (Inl (CL_Failed, error), mc, w)
         | (Inr s, w) \<Rightarrow>
             (case clock w of
                (now, w) \<Rightarrow>
                  (case await_report z clock endpoint timeout (now + ns_of_ms timeout) s w of
                     None \<Rightarrow> None
                   | Some (r, s', w') \<Rightarrow> Some (r, mc\<lparr>mc_subscriber := Some s'\<rparr>, w'))))"

section \<open>Both ends\<close>

text \<open>A ROUTER takes the identity off the reply; the client then reads the reply that was sent.\<close>

lemma EncodeReply_not_empty [simp]: "EncodeReply r \<noteq> []"
  using length_EncodeReply [of r] by auto

lemma parse_reply_framed: "parse_reply (tl (reply_frames request r)) = Inr (norm_reply r)"
  by (simp add: parse_reply_def reply_frames_def Decode_EncodeReply Let_def)

lemma parse_command_framed:
  "parse_request (identity # command_frames m)
    = (RC_Ok, \<lparr>cq_identity = identity, cq_delimiter = False, cq_command = norm_command m\<rparr>, [])"
  using parse_request_framed [of identity 0 True m] by (simp add: command_frames_def)

lemma parse_report_published:
  assumes "report_countable r"
  shows "parse_report (report_message r) = Some (Inr (norm_report r))"
  using Decode_report_layout [OF EncodeReport_layout assms]
  by (simp add: parse_report_def report_message_def FrameIs_MakeFrame)

section \<open>The wait ends\<close>

text \<open>
  \<open>time w\<close> is the time in the world \<open>w\<close>. A reading of the clock advances it, the other calls do not
  turn it back, and a message has finitely many parts.
\<close>

definition clock_advances :: "'w zmq \<Rightarrow> ('w \<Rightarrow> nanos \<times> 'w) \<Rightarrow> ('w \<Rightarrow> nanos) \<Rightarrow> bool" where
  "clock_advances z clock time \<longleftrightarrow>
     (\<forall>w. fst (clock w) = time (snd (clock w)) \<and> time w < time (snd (clock w)))
     \<and> (\<forall>items t w. time w \<le> time (snd (z_poll z items t w)))
     \<and> (\<forall>s w. \<exists>code m s' w'. ZmqSocket_Receive z True s w = Some (code, m, s', w') \<and> time w \<le> time w')"

lemma PollReadable_time:
  assumes "clock_advances z clock time" and "PollReadable z sockets t w = (code, ready, w')"
  shows "time w \<le> time w'"
proof -
  have "w' = snd (z_poll z (List.map_filter (\<lambda>s. Option.bind s zs_handle) sockets) (if t < 0 then 0 else t) w)"
    using assms(2) by (auto simp: PollReadable_def Let_def split: prod.splits sum.splits)
  with assms(1) show ?thesis by (simp add: clock_advances_def)
qed

lemma await_reply_returns:
  assumes "clock_advances z clock time"
  shows "\<exists>r. await_reply z clock endpoint timeout deadline dealer w = Some r"
proof (induction "nat (deadline - time w)" arbitrary: dealer w rule: less_induct)
  case less
  obtain now w1 where c: "clock w = (now, w1)" by (rule prod.exhaust)
  have t1: "now = time w1" "time w < time w1" using assms c by (auto simp: clock_advances_def dest: spec [of _ w])
  obtain code ready w2 where p: "PollReadable z [Some dealer] (cdiv (deadline - now) 1000000) w1 = (code, ready, w2)"
    by (rule prod_cases3)
  have t2: "time w1 \<le> time w2" by (rule PollReadable_time [OF assms p])
  obtain code' m dealer' w3 where r: "ZmqSocket_Receive z True dealer w2 = Some (code', m, dealer', w3)"
    and t3: "time w2 \<le> time w3" using assms unfolding clock_advances_def by blast
  show ?case
  proof (cases "cdiv (deadline - now) 1000000 \<le> 0")
    case True
    with c show ?thesis by (subst await_reply.simps) (simp add: Remaining_def)
  next
    case False
    then have "0 < deadline - now" by (auto simp: cdiv_def sgn_if split: if_splits)
    then have smaller: "nat (deadline - time w2) < nat (deadline - time w)"
      "nat (deadline - time w3) < nat (deadline - time w)" using t1 t2 t3 by auto
    show ?thesis
      using False c p r less(1) [OF smaller(1), of dealer] less(1) [OF smaller(2), of dealer']
      by (subst await_reply.simps) (simp add: Remaining_def)
  qed
qed

lemma SendCommand_returns:
  assumes "clock_advances z clock time"
  shows "\<exists>r. SendCommand z clock command service timeout mc w = Some r"
proof -
  have none: "await_reply z clock e t d s v = None \<longleftrightarrow> False" for e t d s v
    using await_reply_returns [OF assms, of e t d s v] by auto
  show ?thesis
    by (simp add: none SendCommand_def with_dealer_def Let_def split: prod.splits option.splits)
qed

section \<open>Properties\<close>


definition sample_status :: ServiceStatus where
  "sample_status =
     \<lparr>st_name = ''camera'', st_description = [], st_binary = ''/bin/camera'', st_restartMode = Always,
      st_autostart = True, st_heartbeat = True, st_removing = False, st_memoryLimitBytes = 0,
      st_cpuLimitPercent = 0, st_state = Unhealthy, st_pid = 321, st_startTime = 1, st_lastSeen = 2,
      st_lastExitTime = 0, st_nextRestartTime = 0, st_lastExitCode = 0, st_restartCount = 4,
      st_missedBeats = 5, st_usageValid = True, st_usage = default_UsageSample\<lparr>us_cgroup := True\<rparr>,
      st_cpuPercent = double_zero, st_gpuValid = False, st_gpuPercent = double_zero,
      st_gpuMemoryBytes = 0, st_lastError = []\<rparr>"


end
