(* ===== verification/Command_Line.thy ===== *)
theory Command_Line
  imports Service_Config
begin

text \<open>
  The command line (\<open>src/manager/include/CommandLine.hpp\<close>, \<open>CommandLine.cpp\<close>, POSIX branch): the
  options, the parser with all its refusals, and the endpoint a client connects to for an endpoint
  the manager is bound to. The parser is shown to read back every combination of options as
  \<open>arguments_of\<close> writes it.
\<close>

section \<open>Options\<close>

datatype Mode =
  Mode_Run | Mode_Status | Mode_Start | Mode_Stop | Mode_Restart | Mode_Reload | Mode_Heartbeat
  | Mode_Check | Mode_Help | Mode_Version

record Options =
  op_mode :: Mode
  op_serviceName :: string
  op_configPath :: string
  op_configGiven :: bool
  op_commandEndpoint :: string
  op_reportEndpoint :: string
  op_timeout :: millis
  op_timeoutGiven :: bool
  op_watch :: bool
  op_wide :: bool
  op_logLevel :: "LogLevel option"

datatype ParseCode = PC_UnknownOption | PC_MissingValue | PC_ConflictingModes | PC_InvalidValue

definition DefaultConfigPath :: string where
  "DefaultConfigPath = ''/etc/berayprocessmanager/services.conf''"

definition max_timeout_ms :: int where "max_timeout_ms = 600000"

definition initial_Options :: Options where
  "initial_Options =
     \<lparr>op_mode = Mode_Run, op_serviceName = [], op_configPath = DefaultConfigPath, op_configGiven = False,
      op_commandEndpoint = [], op_reportEndpoint = [], op_timeout = 3000, op_timeoutGiven = False,
      op_watch = False, op_wide = False, op_logLevel = None\<rparr>"

section \<open>The parser\<close>

text \<open>The options so far and whether a mode was given; a refusal is its code and reason.\<close>

type_synonym parsed = "(ParseCode \<times> string) + Options \<times> bool"

definition SetMode :: "Options \<Rightarrow> Mode \<Rightarrow> bool \<Rightarrow> string \<Rightarrow> parsed" where
  "SetMode options m modeSet flag =
     (if modeSet \<and> op_mode options \<noteq> m
      then Inl (PC_ConflictingModes, flag @ '' cannot be combined with another mode'')
      else Inr (options\<lparr>op_mode := m\<rparr>, True))"

definition SetServiceMode :: "Options \<Rightarrow> Mode \<Rightarrow> bool \<Rightarrow> string \<Rightarrow> string \<Rightarrow> parsed" where
  "SetServiceMode options m modeSet flag v =
     (if v \<noteq> ''*'' \<and> \<not> IsValidServiceName v
      then Inl (PC_InvalidValue, [CHR 0x27] @ v @ [CHR 0x27]
             @ '' is not a service name (1 to 31 of A-Z a-z 0-9 _ . -, or '' @ [CHR 0x27] @ ''*'' @ [CHR 0x27] @ '' for all)'')
      else SetMode (options\<lparr>op_serviceName := v\<rparr>) m modeSet flag)"

text \<open>A long flag may carry its value behind an equals sign.\<close>

definition split_flag :: "string \<Rightarrow> string \<times> string option" where
  "split_flag a =
     (if take 2 a = ''--'' \<and> CHR ''='' \<in> set a
      then (takeWhile (\<lambda>c. c \<noteq> CHR ''='') a, Some (tl (dropWhile (\<lambda>c. c \<noteq> CHR ''='') a)))
      else (a, None))"

definition wants_value :: "string \<Rightarrow> bool" where
  "wants_value flag \<longleftrightarrow> flag \<in> set [''-c'', ''--config'', ''-s'', ''--start'', ''-k'', ''--stop'', ''-r'', ''--restart'',
     ''--heartbeat'', ''--command'', ''--report'', ''--timeout'', ''--log-level'']"

definition parse_timeout :: "string \<Rightarrow> int option" where
  "parse_timeout v =
     (case from_chars_signed int64_min int64_max v of
        (Inr ms, []) \<Rightarrow> (if ms < 1 \<or> ms > max_timeout_ms then None else Some ms)
      | _ \<Rightarrow> None)"

definition apply_flag :: "string \<Rightarrow> string \<Rightarrow> string \<Rightarrow> Options \<Rightarrow> bool \<Rightarrow> parsed" where
  "apply_flag argument flag v options modeSet =
     (if flag = ''-h'' \<or> flag = ''--help'' then SetMode options Mode_Help modeSet flag
      else if flag = ''-V'' \<or> flag = ''--version'' then SetMode options Mode_Version modeSet flag
      else if flag = ''-c'' \<or> flag = ''--config''
      then Inr (options\<lparr>op_configPath := v, op_configGiven := True\<rparr>, modeSet)
      else if flag = ''-l'' \<or> flag = ''--status'' then SetMode options Mode_Status modeSet flag
      else if flag = ''-w'' \<or> flag = ''--watch''
      then SetMode (options\<lparr>op_watch := True\<rparr>) Mode_Status modeSet flag
      else if flag = ''--wide'' then Inr (options\<lparr>op_wide := True\<rparr>, modeSet)
      else if flag = ''-s'' \<or> flag = ''--start'' then SetServiceMode options Mode_Start modeSet flag v
      else if flag = ''-k'' \<or> flag = ''--stop'' then SetServiceMode options Mode_Stop modeSet flag v
      else if flag = ''-r'' \<or> flag = ''--restart'' then SetServiceMode options Mode_Restart modeSet flag v
      else if flag = ''--heartbeat''
      then (if v = ''*'' then Inl (PC_InvalidValue, ''--heartbeat names one service'')
            else SetServiceMode options Mode_Heartbeat modeSet flag v)
      else if flag = ''--reload'' then SetMode options Mode_Reload modeSet flag
      else if flag = ''--check'' then SetMode options Mode_Check modeSet flag
      else if flag = ''--command'' then Inr (options\<lparr>op_commandEndpoint := v\<rparr>, modeSet)
      else if flag = ''--report'' then Inr (options\<lparr>op_reportEndpoint := v\<rparr>, modeSet)
      else if flag = ''--timeout''
      then (case parse_timeout v of
              None \<Rightarrow> Inl (PC_InvalidValue, ''--timeout must be a number of milliseconds from 1 to ''
                        @ to_string max_timeout_ms)
            | Some ms \<Rightarrow> Inr (options\<lparr>op_timeout := ms, op_timeoutGiven := True\<rparr>, modeSet))
      else if flag = ''--log-level''
      then (case ParseLogLevel v of
              None \<Rightarrow> Inl (PC_InvalidValue, ''--log-level must be error, warning, info or debug'')
            | Some l \<Rightarrow> Inr (options\<lparr>op_logLevel := Some l\<rparr>, modeSet))
      else if flag = ''-v'' \<or> flag = ''--verbose''
      then Inr (options\<lparr>op_logLevel := Some LL_Debug\<rparr>, modeSet)
      else Inl (PC_UnknownOption, ''unknown option '' @ argument @ '' (see --help)''))"

text \<open>
  \<open>TakeValue\<close>: the value of a flag and the arguments left, or none when the last one needs a value.
\<close>

definition TakeValue :: "string \<Rightarrow> string option \<Rightarrow> string list \<Rightarrow> (string \<times> string list) option" where
  "TakeValue flag inline_value rest =
     (case inline_value of
        Some v \<Rightarrow> Some (v, rest)
      | None \<Rightarrow>
          if \<not> wants_value flag then Some ([], rest)
          else case rest of [] \<Rightarrow> None | v # rest' \<Rightarrow> Some (v, rest'))"

lemma TakeValue_shorter: "TakeValue flag i rest = Some (v, rest') \<Longrightarrow> length rest' \<le> length rest"
  by (auto simp: TakeValue_def split: option.splits if_splits list.splits)

function parse_arguments :: "string list \<Rightarrow> Options \<Rightarrow> bool \<Rightarrow> (ParseCode \<times> string) + Options" where
  "parse_arguments [] options modeSet = Inr options"
| "parse_arguments (a # as) options modeSet =
     (case TakeValue (fst (split_flag a)) (snd (split_flag a)) as of
        None \<Rightarrow> Inl (PC_MissingValue, fst (split_flag a) @ '' needs a value'')
      | Some (v, rest) \<Rightarrow>
          (case apply_flag a (fst (split_flag a)) v options modeSet of
             Inl e \<Rightarrow> Inl e
           | Inr (options', modeSet') \<Rightarrow> parse_arguments rest options' modeSet'))"
  by pat_completeness auto
termination
  by (relation "measure (\<lambda>(as, _). length as)") (auto dest!: TakeValue_shorter)

definition ParseCommandLine :: "string list \<Rightarrow> (ParseCode \<times> string) + Options" where
  "ParseCommandLine arguments = parse_arguments arguments initial_Options False"

section \<open>The usage text\<close>

text \<open>The lines of the text, each ended by a newline.\<close>

definition usage_lines :: "string \<Rightarrow> string list" where
  "usage_lines program =
    [''Usage:'',
     ''  '' @ program @ '' [--config FILE]            run the manager (the default mode)'',
     ''  '' @ program @ '' --status [--watch] [--wide] show every service of a running manager'',
     ''  '' @ program @ '' --start NAME              start a service ('' @ [CHR 0x27] @ ''*'' @ [CHR 0x27] @ '' for all)'',
     ''  '' @ program @ '' --stop NAME               stop a service ('' @ [CHR 0x27] @ ''*'' @ [CHR 0x27] @ '' for all)'',
     ''  '' @ program @ '' --restart NAME            restart a service ('' @ [CHR 0x27] @ ''*'' @ [CHR 0x27] @ '' for all)'',
     ''  '' @ program @ '' --reload                  make the running manager re-read its configuration'',
     ''  '' @ program @ '' --heartbeat NAME          report that a service is alive (for scripts)'',
     ''  '' @ program @ '' --check [--config FILE]   validate a configuration file and list its services'',
     [],
     ''Options:'',
     ''  -c, --config FILE       configuration file (default: '' @ DefaultConfigPath @ '')'',
     ''  -l, --status            show the status table'',
     ''  -w, --watch             with --status: redraw on every report until Ctrl+C'',
     ''      --wide              with --status: add restart mode, threads, open files, I/O,'',
     ''                          heartbeat age and binary'',
     ''  -s, --start NAME        start NAME and the services it depends on'',
     ''  -k, --stop NAME         stop NAME'',
     ''  -r, --restart NAME      restart NAME'',
     ''      --command ENDPOINT  the manager'' @ [CHR 0x27] @ ''s command endpoint'',
     ''                          (default: from the configuration, else tcp://127.0.0.1:5557)'',
     ''      --report ENDPOINT   the manager'' @ [CHR 0x27] @ ''s detailed report endpoint'',
     ''                          (default: from the configuration, else tcp://127.0.0.1:6668)'',
     ''      --timeout MS        how long client modes wait for the manager (default: 3000)'',
     ''      --log-level LEVEL   error, warning, info or debug (run mode)'',
     ''  -v, --verbose           same as --log-level debug'',
     ''  -h, --help              show this text'',
     ''  -V, --version           show the version'',
     [],
     ''Exit status: 0 done, 1 refused or failed, 2 usage or configuration error,'',
     ''3 no answer from the manager.'']"

definition UsageText :: "string \<Rightarrow> string" where
  "UsageText program = concat (map (\<lambda>line. line @ [CHR 0x0A]) (usage_lines program))"

section \<open>Endpoints\<close>

text \<open>The text up to the last colon and the text from it on.\<close>

definition from_last_colon :: "string \<Rightarrow> string \<times> string" where
  "from_last_colon s =
     (let port = rev (takeWhile (\<lambda>c. c \<noteq> CHR '':'') (rev s))
      in (take (length s - length port - 1) s, CHR '':'' # port))"

definition ConnectEndpoint :: "string \<Rightarrow> string" where
  "ConnectEndpoint bindEndpoint =
     (if take 6 bindEndpoint \<noteq> ''tcp://'' then bindEndpoint
      else case from_last_colon bindEndpoint of
        (before, port) \<Rightarrow>
          if length before < 6 then bindEndpoint
          else let host = drop 6 before
               in if host = ''*'' \<or> host = ''0.0.0.0'' then ''tcp://127.0.0.1'' @ port
                  else if host = ''[::]'' \<or> host = ''::'' then ''tcp://[::1]'' @ port
                  else bindEndpoint)"

section \<open>Printing options\<close>

text \<open>The arguments that ask for given options.\<close>

definition mode_arguments :: "Options \<Rightarrow> string list" where
  "mode_arguments o' =
     (case op_mode o' of
        Mode_Run \<Rightarrow> []
      | Mode_Status \<Rightarrow> (if op_watch o' then [''--watch''] else [''--status''])
      | Mode_Start \<Rightarrow> [''--start'', op_serviceName o']
      | Mode_Stop \<Rightarrow> [''--stop'', op_serviceName o']
      | Mode_Restart \<Rightarrow> [''--restart'', op_serviceName o']
      | Mode_Reload \<Rightarrow> [''--reload'']
      | Mode_Heartbeat \<Rightarrow> [''--heartbeat'', op_serviceName o']
      | Mode_Check \<Rightarrow> [''--check'']
      | Mode_Help \<Rightarrow> [''--help'']
      | Mode_Version \<Rightarrow> [''--version''])"

definition arguments_of :: "Options \<Rightarrow> string list" where
  "arguments_of o' =
     (if op_configGiven o' then [''--config'', op_configPath o'] else [])
     @ (if op_commandEndpoint o' \<noteq> [] then [''--command'', op_commandEndpoint o'] else [])
     @ (if op_reportEndpoint o' \<noteq> [] then [''--report'', op_reportEndpoint o'] else [])
     @ (if op_timeoutGiven o' then [''--timeout'', to_string (op_timeout o')] else [])
     @ (if op_wide o' then [''--wide''] else [])
     @ (case op_logLevel o' of None \<Rightarrow> [] | Some l \<Rightarrow> [''--log-level'', LevelName l])
     @ mode_arguments o'"

text \<open>The options a command line can ask for.\<close>

definition names_service :: "Mode \<Rightarrow> bool" where
  "names_service m \<longleftrightarrow> m \<in> {Mode_Start, Mode_Stop, Mode_Restart, Mode_Heartbeat}"

definition options_ok :: "Options \<Rightarrow> bool" where
  "options_ok o' \<longleftrightarrow>
     (\<not> op_configGiven o' \<longrightarrow> op_configPath o' = DefaultConfigPath)
     \<and> (if op_timeoutGiven o' then 1 \<le> op_timeout o' \<and> op_timeout o' \<le> max_timeout_ms else op_timeout o' = 3000)
     \<and> (op_watch o' \<longrightarrow> op_mode o' = Mode_Status)
     \<and> (if names_service (op_mode o')
        then (op_serviceName o' = ''*'' \<and> op_mode o' \<noteq> Mode_Heartbeat) \<or> IsValidServiceName (op_serviceName o')
        else op_serviceName o' = [])"

section \<open>Lemmas\<close>

lemma parse_value:
  assumes "split_flag a = (a, None)" and "wants_value a"
  shows "parse_arguments (a # v # as) options modeSet =
    (case apply_flag a a v options modeSet of
       Inl e \<Rightarrow> Inl e | Inr (options', modeSet') \<Rightarrow> parse_arguments as options' modeSet')"
  using assms by (simp add: TakeValue_def)

lemma parse_plain:
  assumes "split_flag a = (a, None)" and "\<not> wants_value a"
  shows "parse_arguments (a # as) options modeSet =
    (case apply_flag a a [] options modeSet of
       Inl e \<Rightarrow> Inl e | Inr (options', modeSet') \<Rightarrow> parse_arguments as options' modeSet')"
  using assms by (simp add: TakeValue_def)

lemma parse_timeout_printed:
  assumes "1 \<le> ms" and "ms \<le> max_timeout_ms"
  shows "parse_timeout (to_string ms) = Some ms"
  using assms
  by (simp add: parse_timeout_def max_timeout_ms_def from_chars_signed_to_string int64_min_def int64_max_def)

lemmas flag_simps = parse_value parse_plain split_flag_def wants_value_def apply_flag_def

declare parse_arguments.simps(2) [simp del]

lemma parse_options:
  "parse_arguments (''--config'' # p # as) options b
     = parse_arguments as (options\<lparr>op_configPath := p, op_configGiven := True\<rparr>) b"
  "parse_arguments (''--command'' # p # as) options b = parse_arguments as (options\<lparr>op_commandEndpoint := p\<rparr>) b"
  "parse_arguments (''--report'' # p # as) options b = parse_arguments as (options\<lparr>op_reportEndpoint := p\<rparr>) b"
  "parse_arguments (''--wide'' # as) options b = parse_arguments as (options\<lparr>op_wide := True\<rparr>) b"
  "parse_arguments (''--log-level'' # LevelName l # as) options b
     = parse_arguments as (options\<lparr>op_logLevel := Some l\<rparr>) b"
  by (simp_all add: flag_simps)

lemma parse_timeout_option:
  assumes "1 \<le> ms" and "ms \<le> max_timeout_ms"
  shows "parse_arguments (''--timeout'' # to_string ms # as) options b
     = parse_arguments as (options\<lparr>op_timeout := ms, op_timeoutGiven := True\<rparr>) b"
  using parse_timeout_printed [OF assms] by (simp add: flag_simps)

lemma parse_mode:
  assumes "options_ok o'" and "op_mode options = Mode_Run" and "op_serviceName options = []"
    and "\<not> op_watch options"
  shows "parse_arguments (mode_arguments o') options False
    = Inr (options\<lparr>op_mode := op_mode o', op_serviceName := op_serviceName o', op_watch := op_watch o'\<rparr>)"
  using assms
  by (cases "op_mode o'")
    (auto simp: mode_arguments_def flag_simps SetMode_def SetServiceMode_def options_ok_def names_service_def
      dest: valid_name_not_star)

lemma parse_pieces:
  "parse_arguments ((if given then [''--config'', p] else []) @ as) options b
     = parse_arguments as (if given then options\<lparr>op_configPath := p, op_configGiven := True\<rparr> else options) b"
  "parse_arguments ((if p \<noteq> [] then [''--command'', p] else []) @ as) options b
     = parse_arguments as (if p \<noteq> [] then options\<lparr>op_commandEndpoint := p\<rparr> else options) b"
  "parse_arguments ((if p \<noteq> [] then [''--report'', p] else []) @ as) options b
     = parse_arguments as (if p \<noteq> [] then options\<lparr>op_reportEndpoint := p\<rparr> else options) b"
  "parse_arguments ((if given then [''--wide''] else []) @ as) options b
     = parse_arguments as (if given then options\<lparr>op_wide := True\<rparr> else options) b"
  "parse_arguments ((case l of None \<Rightarrow> [] | Some l \<Rightarrow> [''--log-level'', LevelName l]) @ as) options b
     = parse_arguments as (case l of None \<Rightarrow> options | Some l \<Rightarrow> options\<lparr>op_logLevel := Some l\<rparr>) b"
  by (auto simp: parse_options split: option.splits)

lemma parse_timeout_piece:
  "given \<longrightarrow> 1 \<le> ms \<and> ms \<le> max_timeout_ms \<Longrightarrow>
   parse_arguments ((if given then [''--timeout'', to_string ms] else []) @ as) options b
     = parse_arguments as (if given then options\<lparr>op_timeout := ms, op_timeoutGiven := True\<rparr> else options) b"
  by (auto simp: parse_timeout_option)

text \<open>A connectable endpoint never names a wildcard host.\<close>

lemma from_last_colon_port:
  assumes "CHR '':'' \<notin> set port"
  shows "from_last_colon (before @ CHR '':'' # port) = (before, CHR '':'' # port)"
proof -
  have "takeWhile (\<lambda>c. c \<noteq> CHR '':'') (rev port @ CHR '':'' # rev before) = rev port"
    using assms by (subst takeWhile_append2) auto
  then show ?thesis by (simp add: from_last_colon_def)
qed

lemma ConnectEndpoint_wildcard:
  assumes "CHR '':'' \<notin> set port"
  shows "ConnectEndpoint (''tcp://*:'' @ port) = ''tcp://127.0.0.1:'' @ port"
    and "ConnectEndpoint (''tcp://0.0.0.0:'' @ port) = ''tcp://127.0.0.1:'' @ port"
    and "ConnectEndpoint (''tcp://[::]:'' @ port) = ''tcp://[::1]:'' @ port"
  using from_last_colon_port [OF assms, of "''tcp://*''"] from_last_colon_port [OF assms, of "''tcp://0.0.0.0''"]
    from_last_colon_port [OF assms, of "''tcp://[::]''"]
  by (simp_all add: ConnectEndpoint_def)

section \<open>Properties\<close>

text \<open>
  C27: the command line can ask for every combination of options, and the parser reads back exactly
  the options that were asked for, nothing lost and nothing added.
\<close>

theorem command_line_round_trip:
  assumes "options_ok o'"
  shows "ParseCommandLine (arguments_of o') = Inr o'"
proof -
  let ?a = "if op_configGiven o' then initial_Options\<lparr>op_configPath := op_configPath o', op_configGiven := True\<rparr>
    else initial_Options"
  let ?b = "if op_commandEndpoint o' \<noteq> [] then ?a\<lparr>op_commandEndpoint := op_commandEndpoint o'\<rparr> else ?a"
  let ?c = "if op_reportEndpoint o' \<noteq> [] then ?b\<lparr>op_reportEndpoint := op_reportEndpoint o'\<rparr> else ?b"
  let ?d = "if op_timeoutGiven o' then ?c\<lparr>op_timeout := op_timeout o', op_timeoutGiven := True\<rparr> else ?c"
  let ?e = "if op_wide o' then ?d\<lparr>op_wide := True\<rparr> else ?d"
  let ?f = "case op_logLevel o' of None \<Rightarrow> ?e | Some l \<Rightarrow> ?e\<lparr>op_logLevel := Some l\<rparr>"
  have t: "op_timeoutGiven o' \<longrightarrow> 1 \<le> op_timeout o' \<and> op_timeout o' \<le> max_timeout_ms"
    using assms by (auto simp: options_ok_def)
  have "ParseCommandLine (arguments_of o') = parse_arguments (mode_arguments o') ?f False"
    unfolding ParseCommandLine_def arguments_of_def by (simp only: parse_pieces parse_timeout_piece [OF t])
  moreover have "op_mode ?f = Mode_Run" "op_serviceName ?f = []" "\<not> op_watch ?f"
    by (auto simp: initial_Options_def split: option.splits)
  ultimately have "ParseCommandLine (arguments_of o')
    = Inr (?f\<lparr>op_mode := op_mode o', op_serviceName := op_serviceName o', op_watch := op_watch o'\<rparr>)"
    using parse_mode [OF assms] by simp
  moreover have "?f\<lparr>op_mode := op_mode o', op_serviceName := op_serviceName o', op_watch := op_watch o'\<rparr> = o'"
    using assms by (cases o') (auto simp: options_ok_def initial_Options_def split: option.splits)
  ultimately show ?thesis by simp
qed

theorem command_line_round_trip_witness:
  "ParseCommandLine [''--timeout'', to_string 500, ''--start'', ''camera'']
    = Inr (initial_Options\<lparr>op_timeout := 500, op_timeoutGiven := True, op_mode := Mode_Start,
             op_serviceName := ''camera''\<rparr>)"
proof -
  let ?o = "initial_Options\<lparr>op_timeout := 500, op_timeoutGiven := True, op_mode := Mode_Start,
    op_serviceName := ''camera''\<rparr>"
  have "IsValidServiceName ''camera''" by code_simp
  then have "options_ok ?o"
    by (simp add: options_ok_def initial_Options_def names_service_def max_timeout_ms_def)
  from command_line_round_trip [OF this] show ?thesis
    by (simp add: arguments_of_def mode_arguments_def initial_Options_def)
qed

end
