(* ===== verification/Daemon.thy ===== *)
theory Daemon
  imports Posix_Launcher System_Monitor Gpu_Library Manager_Client Command_Line Config_Parser
begin

text \<open>
  The daemon (\<open>src/manager/include/Daemon.hpp\<close>, \<open>Daemon.cpp\<close>), which ties the components together:
  it sets up the cgroups, the sockets and the manager, then works in rounds. A round takes the stop
  and reload requests, serves commands, ticks the manager, removes the groups of removed services
  and publishes the reports. The world is the POSIX world of the launcher; everything outside the
  repository is in the record \<open>daemon_env\<close>. \<open>Run\<close> is a partial function; the later sections
  show how its rounds end. Log lines are left out.
\<close>

section \<open>The world around the daemon\<close>

text \<open>
  \<open>de_now\<close> reads both clocks, \<open>de_takeStop\<close> and \<open>de_takeReload\<close> are the requests that signals have
  left, \<open>de_configFile\<close> reads the configuration file, \<open>de_undef\<close> is an undefined conversion.
\<close>

record 'w daemon_env =
  de_os :: "'w os_process"
  de_zmq :: "'w zmq"
  de_nvml :: "'w nvml"
  de_now :: "'w \<Rightarrow> Instant \<times> 'w"
  de_takeStop :: "'w \<Rightarrow> bool \<times> 'w"
  de_takeReload :: "'w \<Rightarrow> bool \<times> 'w"
  de_notify :: "string \<Rightarrow> 'w \<Rightarrow> 'w"
  de_configFile :: "string \<Rightarrow> 'w \<Rightarrow> string option"
  de_pid :: int
  de_cpus :: int
  de_host :: "string option"
  de_undef :: "double \<Rightarrow> 64 word"

definition os_call :: "('w \<Rightarrow> 'r \<times> 'w) \<Rightarrow> 'w posix \<Rightarrow> 'r \<times> 'w posix" where
  "os_call f x = (case f (px_os x) of (r, w) \<Rightarrow> (r, x\<lparr>px_os := w\<rparr>))"

definition os_do :: "('w \<Rightarrow> 'w) \<Rightarrow> 'w posix \<Rightarrow> 'w posix" where
  "os_do f x = x\<lparr>px_os := f (px_os x)\<rparr>"

section \<open>The daemon\<close>

definition max_poll_wait :: millis where "max_poll_wait = 50"
definition shutdown_margin :: millis where "shutdown_margin = 2000"
definition max_shutdown :: millis where "max_shutdown = 600000"
definition group_removal_wait :: millis where "group_removal_wait = 50"
definition group_removal_attempts :: nat where "group_removal_attempts = 20"
definition max_commands_per_round :: nat where "max_commands_per_round = 100"

datatype DaemonCode = DaemonCode_Ok | CgroupsUnavailable | BindFailed

text \<open>
  The launcher holds nothing but the pointer to the cgroup tree. \<open>da_logLevel\<close> is the level of the
  global logger.
\<close>

record Daemon =
  da_config :: Config
  da_startedAt :: Instant
  da_cgroups :: "CgroupTree option"
  da_manager :: "Manager option"
  da_gpu :: GpuMonitor
  da_system :: SystemMonitor
  da_builder :: ReportBuilder
  da_publisher :: "ReportPublisher option"
  da_server :: "ZmqSocket option"
  da_stopRequested :: bool
  da_reloadRequested :: bool
  da_logLevelOverride :: "LogLevel option"
  da_logLevel :: LogLevel
  da_stopping :: bool
  da_shutdownDeadline :: nanos
  da_nextPublish :: nanos

type_synonym 'w running = "'w posix \<times> Daemon"

definition ShutdownBudget :: "ServiceConfig list \<Rightarrow> millis" where
  "ShutdownBudget services =
     min (sum_list (map sc_stopTimeout services) + (kill_grace + shutdown_margin)) max_shutdown"

definition DescribeReply :: "CommandReply \<Rightarrow> string" where
  "DescribeReply reply =
     CommandResultName (cr_result reply)
       @ (if cr_message reply \<noteq> [] then '' ('' @ cr_message reply @ '')'' else [])"

definition new_Daemon :: "'w daemon_env \<Rightarrow> Config \<Rightarrow> LogLevel \<Rightarrow> 'w posix \<Rightarrow> 'w running" where
  "new_Daemon e config level x =
     (case os_call (de_now e) x of (startedAt, x) \<Rightarrow>
        (x, \<lparr>da_config = config, da_startedAt = startedAt, da_cgroups = None, da_manager = None,
             da_gpu = None, da_system = new_SystemMonitor,
             da_builder = new_ReportBuilder (de_pid e) (in_wallNs startedAt), da_publisher = None,
             da_server = None, da_stopRequested = False, da_reloadRequested = False,
             da_logLevelOverride = None, da_logLevel = level, da_stopping = False,
             da_shutdownDeadline = 0, da_nextPublish = 0\<rparr>))"

definition RequestStop :: "Daemon \<Rightarrow> Daemon" where
  "RequestStop d = d\<lparr>da_stopRequested := True\<rparr>"

definition RequestReload :: "Daemon \<Rightarrow> Daemon" where
  "RequestReload d = d\<lparr>da_reloadRequested := True\<rparr>"

definition OverrideLogLevel :: "LogLevel \<Rightarrow> Daemon \<Rightarrow> Daemon" where
  "OverrideLogLevel level d = d\<lparr>da_logLevelOverride := Some level, da_logLevel := level\<rparr>"

definition daemon_launcher :: "'w daemon_env \<Rightarrow> Daemon \<Rightarrow> 'w posix launcher" where
  "daemon_launcher e d = posix_launcher (de_os e) (da_cgroups d)"

text \<open>A call on the manager, which \<open>Start\<close> has created; \<open>Run\<close> returns at once without one.\<close>

definition with_manager ::
  "('w posix \<times> Manager \<Rightarrow> 'w posix \<times> Manager) \<Rightarrow> 'w running \<Rightarrow> 'w running" where
  "with_manager f xd =
     (case da_manager (snd xd) of
        None \<Rightarrow> xd
      | Some m \<Rightarrow> (case f (fst xd, m) of (x, m') \<Rightarrow> (x, (snd xd)\<lparr>da_manager := Some m'\<rparr>)))"

text \<open>Where the three sockets are bound.\<close>

definition Daemon_HealthEndpoint :: "'w daemon_env \<Rightarrow> 'w running \<Rightarrow> string" where
  "Daemon_HealthEndpoint e xd =
     (case da_publisher (snd xd) of Some p \<Rightarrow> HealthEndpoint (de_zmq e) p (px_os (fst xd)) | None \<Rightarrow> [])"

definition Daemon_ReportEndpoint :: "'w daemon_env \<Rightarrow> 'w running \<Rightarrow> string" where
  "Daemon_ReportEndpoint e xd =
     (case da_publisher (snd xd) of Some p \<Rightarrow> ReportEndpoint (de_zmq e) p (px_os (fst xd)) | None \<Rightarrow> [])"

definition Daemon_CommandEndpoint :: "'w daemon_env \<Rightarrow> 'w running \<Rightarrow> string" where
  "Daemon_CommandEndpoint e xd =
     (case da_server (snd xd) of Some s \<Rightarrow> CommandServer_Endpoint (de_zmq e) s (px_os (fst xd)) | None \<Rightarrow> [])"

section \<open>Groups of removed services\<close>

fun removal_loop :: "nat \<Rightarrow> 'w os_process \<Rightarrow> CgroupTree \<Rightarrow> string \<Rightarrow> 'w \<Rightarrow> 'w" where
  "removal_loop 0 os tree service w = w"
| "removal_loop (Suc n) os tree service w =
     (case RemoveGroup os tree service w of (code, w) \<Rightarrow>
        if code = CG_Ok then w
        else removal_loop n os tree service (of_sleep os group_removal_wait w))"

definition remove_group :: "'w os_process \<Rightarrow> CgroupTree \<Rightarrow> string \<Rightarrow> 'w \<Rightarrow> 'w" where
  "remove_group os tree service w =
     removal_loop group_removal_attempts os tree service (snd (KillMembers os tree service w))"

definition RemoveTaskGroups :: "'w daemon_env \<Rightarrow> string list \<Rightarrow> 'w running \<Rightarrow> 'w running" where
  "RemoveTaskGroups e services xd =
     (case da_cgroups (snd xd) of
        None \<Rightarrow> xd
      | Some tree \<Rightarrow> (os_do (fold (remove_group (de_os e) tree) services) (fst xd), snd xd))"

definition SetUpCgroups :: "'w daemon_env \<Rightarrow> 'w running \<Rightarrow> 'w running" where
  "SetUpCgroups e xd =
     (case Locate (de_os e) ''/proc'' (px_os (fst xd)) of
        Inl problem \<Rightarrow> xd
      | Inr directory \<Rightarrow>
          (let tree = new_CgroupTree (de_os e) directory ''/sys/dev/block'' (px_os (fst xd))
           in case Prepare (de_os e) (de_pid e) (px_os (fst xd), tree) of ((code, problem), w, tree) \<Rightarrow>
             if code \<noteq> CG_Ok then ((fst xd)\<lparr>px_os := w\<rparr>, snd xd)
             else RemoveTaskGroups e (ListGroups (de_os e) w tree)
                    ((fst xd)\<lparr>px_os := w\<rparr>, (snd xd)\<lparr>da_cgroups := Some tree\<rparr>)))"

section \<open>Starting\<close>

definition start_gpu :: "'w daemon_env \<Rightarrow> 'w running \<Rightarrow> 'w running" where
  "start_gpu e xd =
     (if ms_gpu (cf_manager (da_config (snd xd))) = GM_Off then xd
      else case GpuMonitor_Open (de_nvml e) (da_gpu (snd xd)) (px_os (fst xd)) of
        (code, problem, gpu, w) \<Rightarrow> ((fst xd)\<lparr>px_os := w\<rparr>, (snd xd)\<lparr>da_gpu := gpu\<rparr>))"

text \<open>The publisher, then the server; the result is the error text of a failed bind.\<close>

definition bind_publisher :: "'w daemon_env \<Rightarrow> 'w running \<Rightarrow> string option \<times> 'w running" where
  "bind_publisher e xd =
     (let z = de_zmq e; settings = cf_manager (da_config (snd xd));
          (p, w) = new_ReportPublisher z (px_os (fst xd));
          (error, p, w) = Publisher_Bind z (ms_healthEndpoint settings) (ms_reportEndpoint settings) p w
      in (error, (fst xd)\<lparr>px_os := w\<rparr>, (snd xd)\<lparr>da_publisher := Some p\<rparr>))"

definition bind_server :: "'w daemon_env \<Rightarrow> 'w running \<Rightarrow> string option \<times> 'w running" where
  "bind_server e xd =
     (let z = de_zmq e; settings = cf_manager (da_config (snd xd));
          (s, w) = new_CommandServer z (px_os (fst xd));
          (error, s, w) = CommandServer_Bind z (ms_commandEndpoint settings) s w
      in (error, (fst xd)\<lparr>px_os := w\<rparr>, (snd xd)\<lparr>da_server := Some s\<rparr>))"

text \<open>The manager is created and loaded; its services learn where the commands go.\<close>

definition start_manager :: "'w daemon_env \<Rightarrow> 'w running \<Rightarrow> 'w running" where
  "start_manager e xd =
     (let environment = [\<lparr>ev_name = ''BPM_COMMAND_ENDPOINT'',
                          ev_value = ConnectEndpoint (Daemon_CommandEndpoint e xd)\<rparr>];
          m = Manager_Load (cf_services (da_config (snd xd))) (new_Manager environment);
          (now, x) = os_call (de_now e) (fst xd);
          (x, d) = with_manager (StartAutostart (daemon_launcher e (snd xd)) now)
                     (x, (snd xd)\<lparr>da_manager := Some m\<rparr>)
      in (os_do (de_notify e ''READY=1'') x, d\<lparr>da_nextPublish := in_steady now\<rparr>))"

definition Daemon_Start :: "'w daemon_env \<Rightarrow> 'w running \<Rightarrow> (DaemonCode \<times> string) \<times> 'w running" where
  "Daemon_Start e xd =
     (let mode = ms_cgroups (cf_manager (da_config (snd xd)));
          xd = (if mode \<noteq> CM_Off then SetUpCgroups e xd else xd)
      in if mode = CM_Required \<and> da_cgroups (snd xd) = None
         then ((CgroupsUnavailable, ''cgroups = required, but task cgroups cannot be created here''), xd)
         else case bind_publisher e (start_gpu e xd) of
           (Some error, xd) \<Rightarrow> ((BindFailed, error), xd)
         | (None, xd) \<Rightarrow>
             (case bind_server e xd of
                (Some error, xd) \<Rightarrow> ((BindFailed, error), xd)
              | (None, xd) \<Rightarrow> ((DaemonCode_Ok, []), start_manager e xd)))"

section \<open>Reloading\<close>

definition reload_reply :: "CommandResult \<Rightarrow> string \<Rightarrow> CommandReply" where
  "reload_reply result message =
     \<lparr>cr_command = CommandCode_byte CC_Reload, cr_result = result, cr_serviceName = [], cr_message = message\<rparr>"

text \<open>What a configuration that was accepted does; the manager exists.\<close>

definition reload_config ::
  "'w daemon_env \<Rightarrow> Config \<Rightarrow> Instant \<Rightarrow> Manager \<Rightarrow> 'w running \<Rightarrow> ReloadSummary \<times> 'w running" where
  "reload_config e fresh now m xd =
     (let x = os_do (de_notify e ''RELOADING=1'') (fst xd); d = snd xd;
          settings = (cf_manager (da_config d))
            \<lparr>ms_publishInterval := ms_publishInterval (cf_manager fresh),
             ms_logLevel := ms_logLevel (cf_manager fresh)\<rparr>;
          level = (case da_logLevelOverride d of Some l \<Rightarrow> l | None \<Rightarrow> ms_logLevel (cf_manager fresh));
          (summary, x, m) = Manager_Apply (daemon_launcher e d) (cf_services fresh) now (x, m)
      in (summary, os_do (de_notify e ''READY=1'') x,
          d\<lparr>da_config := (da_config d)\<lparr>cf_manager := settings, cf_services := cf_services fresh\<rparr>,
            da_logLevel := level, da_manager := Some m\<rparr>))"

definition summary_text :: "ReloadSummary \<Rightarrow> string" where
  "summary_text summary =
     to_string (rs_added summary) @ '' added, '' @ to_string (rs_removed summary) @ '' removed, ''
       @ to_string (rs_changed summary) @ '' changed''"

definition problem_text :: "ConfigError \<Rightarrow> string" where
  "problem_text problem =
     (if ce_line problem > 0 then ''line '' @ to_string (ce_line problem) @ '': '' else [])
       @ ce_message problem"

definition Daemon_Reload :: "'w daemon_env \<Rightarrow> Instant \<Rightarrow> 'w running \<Rightarrow> (CommandReply \<times> 'w running) option" where
  "Daemon_Reload e now xd =
     (let path = cf_path (da_config (snd xd))
      in if path = []
         then Some (reload_reply CR_ReloadFailed ''the manager was started without a configuration file'', xd)
         else if da_stopping (snd xd)
         then Some (reload_reply CR_ShuttingDown ''the manager is shutting down'', xd)
         else case ParseFile (\<lambda>p. de_configFile e p (px_os (fst xd))) path of
           None \<Rightarrow> None
         | Some (Inl problem) \<Rightarrow> Some (reload_reply CR_ReloadFailed (problem_text problem), xd)
         | Some (Inr fresh) \<Rightarrow>
             (case da_manager (snd xd) of
                None \<Rightarrow> None
              | Some m \<Rightarrow>
                  (case reload_config e fresh now m xd of
                     (summary, xd) \<Rightarrow> Some (reload_reply CR_Ok (summary_text summary), xd))))"

section \<open>Serving commands\<close>

text \<open>What the daemon answers to one received message, before the reply is sent.\<close>

definition answer ::
  "'w daemon_env \<Rightarrow> Instant \<Rightarrow> RequestCode \<Rightarrow> CommandRequest \<Rightarrow> string \<Rightarrow> 'w running
   \<Rightarrow> (CommandReply \<times> 'w running) option" where
  "answer e now code request problem xd =
     (if code = RC_Malformed
      then Some (\<lparr>cr_command = 0, cr_result = CR_Malformed, cr_serviceName = [], cr_message = problem\<rparr>, xd)
      else let msg = cq_command request
           in if CommandCodeFromByte (cm_command msg) = Some CC_Reload
              then (case Daemon_Reload e now xd of
                      None \<Rightarrow> None
                    | Some (reply, xd) \<Rightarrow>
                        Some (reply\<lparr>cr_command := cm_command msg, cr_serviceName := cm_serviceName msg\<rparr>, xd))
              else case da_manager (snd xd) of
                None \<Rightarrow> None
              | Some m \<Rightarrow>
                  (case Execute (daemon_launcher e (snd xd)) msg now (fst xd, m) of
                     (reply, x, m) \<Rightarrow> Some (reply, x, (snd xd)\<lparr>da_manager := Some m\<rparr>)))"

definition send_reply ::
  "'w daemon_env \<Rightarrow> CommandRequest \<Rightarrow> CommandReply \<Rightarrow> 'w running \<Rightarrow> 'w running" where
  "send_reply e request reply xd =
     (case da_server (snd xd) of
        None \<Rightarrow> xd
      | Some server \<Rightarrow>
          (case CommandServer_Reply (de_zmq e) request reply server (px_os (fst xd)) of
             (code, server, w) \<Rightarrow> ((fst xd)\<lparr>px_os := w\<rparr>, (snd xd)\<lparr>da_server := Some server\<rparr>)))"

fun command_rounds :: "nat \<Rightarrow> 'w daemon_env \<Rightarrow> Instant \<Rightarrow> 'w running \<Rightarrow> 'w running option" where
  "command_rounds 0 e now xd = Some xd"
| "command_rounds (Suc n) e now xd =
     (case da_server (snd xd) of
        None \<Rightarrow> None
      | Some server \<Rightarrow>
          (case CommandServer_Receive (de_zmq e) server (px_os (fst xd)) of
             None \<Rightarrow> None
           | Some (code, request, problem, server, w) \<Rightarrow>
               (let xd = ((fst xd)\<lparr>px_os := w\<rparr>, (snd xd)\<lparr>da_server := Some server\<rparr>)
                in if code = RC_Empty then Some xd
                   else case answer e now code request problem xd of
                     None \<Rightarrow> None
                   | Some (reply, xd) \<Rightarrow> command_rounds n e now (send_reply e request reply xd))))"

definition HandleCommands :: "'w daemon_env \<Rightarrow> Instant \<Rightarrow> 'w running \<Rightarrow> 'w running option" where
  "HandleCommands e now xd = command_rounds max_commands_per_round e now xd"

section \<open>Publishing\<close>

definition Daemon_Publish :: "'w daemon_env \<Rightarrow> Instant \<Rightarrow> 'w running \<Rightarrow> 'w running" where
  "Daemon_Publish e now xd =
     (let table = Capture (de_os e) (px_os (fst xd));
          (gpuSnapshot, gpu, w) = GpuMonitor_Sample (de_nvml e) (da_gpu (snd xd)) (px_os (fst xd));
          (systemSnapshot, system) =
            SystemMonitor_Sample (de_os e) (de_undef e) (de_cpus e) (de_host e) w (da_system (snd xd));
          (x, d) = with_manager (Manager_Sample (daemon_launcher e (snd xd)) now table gpuSnapshot)
                     ((fst xd)\<lparr>px_os := w\<rparr>, (snd xd)\<lparr>da_gpu := gpu, da_system := system\<rparr>)
      in case (da_manager d, da_publisher d) of
           (Some m, Some p) \<Rightarrow>
             (let statuses = Statuses (daemon_launcher e d) x m;
                  flags = flag_if (da_cgroups d \<noteq> None) report_flag_cgroups
                    OR flag_if (GpuMonitor_Available (da_gpu d)) report_flag_gpu
                    OR flag_if (da_stopping d) report_flag_stopping;
                  interval = word_of_int (ms_publishInterval (cf_manager (da_config d)));
                  (p, w) = Publisher_Publish (de_zmq e) (BuildHealth statuses (in_wallNs now))
                    (BuildReport (da_builder d) statuses systemSnapshot gpuSnapshot (in_wallNs now) interval flags)
                    p (px_os x)
              in (x\<lparr>px_os := w\<rparr>, d\<lparr>da_publisher := Some p\<rparr>))
         | _ \<Rightarrow> (x, d))"

section \<open>Rounds\<close>

definition BeginShutdown :: "'w daemon_env \<Rightarrow> Instant \<Rightarrow> 'w running \<Rightarrow> 'w running" where
  "BeginShutdown e now xd =
     (let d = (snd xd)\<lparr>da_stopping := True,
                da_shutdownDeadline := in_steady now
                  + ns_of_ms (ShutdownBudget (cf_services (da_config (snd xd))))\<rparr>
      in with_manager (StopAll (daemon_launcher e d) now) (os_do (de_notify e ''STOPPING=1'') (fst xd), d))"

text \<open>The requests of signals and of other threads, both read in every round.\<close>

definition take_stop :: "'w daemon_env \<Rightarrow> Instant \<Rightarrow> 'w running \<Rightarrow> 'w running" where
  "take_stop e now xd =
     (case os_call (de_takeStop e) (fst xd) of (signalled, x) \<Rightarrow>
        let requested = da_stopRequested (snd xd); d = (snd xd)\<lparr>da_stopRequested := False\<rparr>
        in if \<not> signalled \<and> \<not> requested then (x, d)
           else if \<not> da_stopping d then BeginShutdown e now (x, d)
           else with_manager (KillAll (daemon_launcher e d) now) (x, d))"

definition take_reload :: "'w daemon_env \<Rightarrow> Instant \<Rightarrow> 'w running \<Rightarrow> 'w running option" where
  "take_reload e now xd =
     (case os_call (de_takeReload e) (fst xd) of (signalled, x) \<Rightarrow>
        let requested = da_reloadRequested (snd xd); d = (snd xd)\<lparr>da_reloadRequested := False\<rparr>
        in if \<not> signalled \<and> \<not> requested then Some (x, d)
           else map_option snd (Daemon_Reload e now (x, d)))"

text \<open>Waiting for commands until the next report is due, for 50 ms at most.\<close>

definition wait_for_commands :: "'w daemon_env \<Rightarrow> Instant \<Rightarrow> 'w running \<Rightarrow> bool \<times> 'w running" where
  "wait_for_commands e now xd =
     (let untilPublish = cdiv (da_nextPublish (snd xd) - in_steady now) 1000000;
          wait = max 0 (min untilPublish max_poll_wait);
          ((code, ready), x) = os_call (\<lambda>w. case PollReadable (de_zmq e) [da_server (snd xd)] wait w of
                                  (code, ready, w) \<Rightarrow> ((code, ready), w)) (fst xd)
      in (ready \<noteq> [] \<and> ready ! 0, x, snd xd))"

definition tick_and_clean :: "'w daemon_env \<Rightarrow> Instant \<Rightarrow> 'w running \<Rightarrow> 'w running" where
  "tick_and_clean e now xd =
     (let (x, d) = with_manager (Manager_Tick (daemon_launcher e (snd xd)) now) xd
      in case da_manager d of
           None \<Rightarrow> (x, d)
         | Some m \<Rightarrow> (case TakeRemoved m of
             (removed, m) \<Rightarrow> RemoveTaskGroups e removed (x, d\<lparr>da_manager := Some m\<rparr>)))"

definition publish_due :: "'w daemon_env \<Rightarrow> Instant \<Rightarrow> 'w running \<Rightarrow> 'w running" where
  "publish_due e now xd =
     (if in_steady now < da_nextPublish (snd xd) then xd
      else let (x, d) = Daemon_Publish e now xd;
               interval = ns_of_ms (ms_publishInterval (cf_manager (da_config d)));
               due = da_nextPublish d + interval
           in (x, d\<lparr>da_nextPublish := (if due \<le> in_steady now then in_steady now + interval else due)\<rparr>))"

definition manager_stopped :: "Daemon \<Rightarrow> bool" where
  "manager_stopped d \<longleftrightarrow> (case da_manager d of None \<Rightarrow> True | Some m \<Rightarrow> AllStopped m)"

text \<open>The end of the last round: what still runs is killed, and a final report goes out.\<close>

definition finish :: "'w daemon_env \<Rightarrow> Instant \<Rightarrow> 'w running \<Rightarrow> 'w running" where
  "finish e now xd =
     (let xd = (if manager_stopped (snd xd) then xd
                else let (x, d) = with_manager (KillAll (daemon_launcher e (snd xd)) now) xd;
                         (later, x) = os_call (de_now e) (os_do (of_sleep (de_os e) 200) x)
                     in with_manager (Manager_Tick (daemon_launcher e d) later) (x, d));
          (last, x) = os_call (de_now e) (fst xd)
      in Daemon_Publish e last (x, snd xd))"

text \<open>A round up to the check for its end, with its second reading of the clock.\<close>

definition round_body :: "'w daemon_env \<Rightarrow> 'w running \<Rightarrow> (Instant \<times> 'w running) option" where
  "round_body e xd =
     (let (now, x) = os_call (de_now e) (fst xd)
      in case take_reload e now (take_stop e now (x, snd xd)) of
           None \<Rightarrow> None
         | Some xd \<Rightarrow>
             (let (ready, xd) = wait_for_commands e now xd;
                  (now, x) = os_call (de_now e) (fst xd)
              in case (if ready then HandleCommands e now (x, snd xd) else Some (x, snd xd)) of
                   None \<Rightarrow> None
                 | Some xd \<Rightarrow> Some (now, publish_due e now (tick_and_clean e now xd))))"

definition round_over :: "Instant \<Rightarrow> Daemon \<Rightarrow> bool" where
  "round_over now d \<longleftrightarrow> da_stopping d \<and> (manager_stopped d \<or> in_steady now \<ge> da_shutdownDeadline d)"

text \<open>One round, which tells whether it was the last one.\<close>

definition daemon_round :: "'w daemon_env \<Rightarrow> 'w running \<Rightarrow> (bool \<times> 'w running) option" where
  "daemon_round e xd =
     (case round_body e xd of
        None \<Rightarrow> None
      | Some (now, xd) \<Rightarrow> Some (if round_over now (snd xd) then (True, finish e now xd) else (False, xd)))"

partial_function (option) run_rounds :: "'w daemon_env \<Rightarrow> 'w running \<Rightarrow> 'w running option" where
  "run_rounds e xd =
     (case daemon_round e xd of
        None \<Rightarrow> None
      | Some (final, xd) \<Rightarrow> if final then Some xd else run_rounds e xd)"

text \<open>\<open>Run\<close> with its exit code.\<close>

definition Daemon_Run :: "'w daemon_env \<Rightarrow> 'w running \<Rightarrow> (int \<times> 'w running) option" where
  "Daemon_Run e xd =
     (if da_manager (snd xd) = None \<or> da_server (snd xd) = None \<or> da_publisher (snd xd) = None
      then Some (1, xd)
      else case run_rounds e xd of
        None \<Rightarrow> None
      | Some xd \<Rightarrow>
          Some (0, case da_cgroups (snd xd) of
                     None \<Rightarrow> xd
                   | Some tree \<Rightarrow> RemoveTaskGroups e (ListGroups (de_os e) (px_os (fst xd)) tree) xd))"

section \<open>Destruction\<close>

text \<open>
  The destructors of the members, in the reverse of their order: the sockets are closed, NVML is shut
  down, and the services destroy the child objects they still own.
\<close>

definition close_socket :: "'w zmq \<Rightarrow> ZmqSocket option \<Rightarrow> 'w \<Rightarrow> 'w" where
  "close_socket z s w = (case s of None \<Rightarrow> w | Some socket \<Rightarrow> snd (ZmqSocket_Close z socket w))"

definition destroy_services :: "'w posix launcher \<Rightarrow> Manager \<Rightarrow> 'w posix \<Rightarrow> 'w posix" where
  "destroy_services L m x =
     fold (\<lambda>s x. case sv_child s of None \<Rightarrow> x | Some h \<Rightarrow> l_Destroy L h x) (mg_services m) x"

definition Daemon_Destroy :: "'w daemon_env \<Rightarrow> 'w running \<Rightarrow> 'w posix" where
  "Daemon_Destroy e xd =
     (let z = de_zmq e; d = snd xd;
          x = os_do (close_socket z (da_server d)) (fst xd);
          x = os_do (close_socket z (map_option rp_report (da_publisher d))) x;
          x = os_do (close_socket z (map_option rp_health (da_publisher d))) x;
          x = os_do (GpuMonitor_Destroy (de_nvml e) (da_gpu d)) x
      in case da_manager d of None \<Rightarrow> x | Some m \<Rightarrow> destroy_services (daemon_launcher e d) m x)"

end
