(* ===== verification/Daemon_Runs.thy ===== *)
theory Daemon_Runs
  imports Daemon
begin

text \<open>
  The daemon as a system of steps. Every operation of a round is a sequence of steps of three kinds:
  calls of the manager, the begin of the shutdown, and steps that touch neither the manager nor the
  child objects. The invariant of the daemon, and what its rounds keep once it is stopping, follow
  by induction over the steps.
\<close>

section \<open>Steps\<close>

definition same_core :: "'w running \<Rightarrow> 'w running \<Rightarrow> bool" where
  "same_core a b \<longleftrightarrow>
     px_children (fst b) = px_children (fst a) \<and> da_manager (snd b) = da_manager (snd a)
     \<and> da_cgroups (snd b) = da_cgroups (snd a) \<and> da_stopping (snd b) = da_stopping (snd a)
     \<and> da_shutdownDeadline (snd b) = da_shutdownDeadline (snd a)
     \<and> (da_server (snd b) = None \<longleftrightarrow> da_server (snd a) = None)
     \<and> (da_publisher (snd b) = None \<longleftrightarrow> da_publisher (snd a) = None)"

text \<open>The calls of a round: stops only while stopping, reloads only before.\<close>

definition round_call :: "manager_op \<Rightarrow> Daemon \<Rightarrow> bool" where
  "round_call op d \<longleftrightarrow>
     op \<noteq> Op_StartAutostart \<and> (op = Op_StopAll \<or> op = Op_KillAll \<longrightarrow> da_stopping d)
     \<and> (\<forall>configs. op = Op_Apply configs \<longrightarrow> \<not> da_stopping d)"

inductive dstep :: "'w daemon_env \<Rightarrow> 'w running \<Rightarrow> 'w running \<Rightarrow> bool" for e where
  frame: "same_core a b \<Longrightarrow> dstep e a b"
| call: "da_manager d = Some m \<Longrightarrow> round_call op d \<Longrightarrow> run_op (daemon_launcher e d) now op (x, m) = (x', m')
    \<Longrightarrow> dstep e (x, d) (x', d\<lparr>da_manager := Some m'\<rparr>)"
| shut: "\<not> da_stopping d \<Longrightarrow> dstep e (x, d) (BeginShutdown e now (x, d))"

abbreviation dsteps :: "'w daemon_env \<Rightarrow> 'w running \<Rightarrow> 'w running \<Rightarrow> bool" where
  "dsteps e \<equiv> (dstep e)\<^sup>*\<^sup>*"

lemma dsteps_trans: "dsteps e a b \<Longrightarrow> dsteps e b c \<Longrightarrow> dsteps e a c"
  by (rule rtranclp_trans)

lemma core_steps: "same_core a b \<Longrightarrow> dsteps e a b"
  by (blast intro: dstep.frame)

lemma same_core_refl [simp]: "same_core a a"
  by (simp add: same_core_def)

lemma os_fields [simp]:
  "px_children (os_do f x) = px_children x" "px_children (snd (os_call g x)) = px_children x"
  by (simp_all add: os_do_def os_call_def split: prod.splits)

lemma os_call_children: "os_call g x = (r, x') \<Longrightarrow> px_children x' = px_children x"
  using os_fields(2) [of g x] by simp

lemma run_op_calls:
  "run_op L now Op_KillAll = KillAll L now" "run_op L now Op_StopAll = StopAll L now"
  "run_op L now Op_Tick = Manager_Tick L now" "run_op L now (Op_Sample table gpu) = Manager_Sample L now table gpu"
  "run_op L now Op_StartAutostart = StartAutostart L now"
  by (simp_all add: fun_eq_iff)

lemma with_manager_steps:
  fixes xd :: "'w running"
  assumes "round_call op (snd xd)" and "L = daemon_launcher e (snd xd)"
  shows "dsteps e xd (with_manager (run_op L now op) xd)"
proof (cases "da_manager (snd xd)")
  case (Some m)
  obtain x m' where "run_op L now op (fst xd, m) = (x, m')" by (rule prod.exhaust)
  then show ?thesis
    using Some assms dstep.call [of "snd xd" m op e now "fst xd" x m'] by (simp add: with_manager_def r_into_rtranclp)
qed (simp add: with_manager_def)

text \<open>What a call of the manager leaves alone.\<close>

lemma with_manager_fields [simp]:
  "da_cgroups (snd (with_manager f xd)) = da_cgroups (snd xd)"
  "da_stopping (snd (with_manager f xd)) = da_stopping (snd xd)"
  "da_shutdownDeadline (snd (with_manager f xd)) = da_shutdownDeadline (snd xd)"
  "da_server (snd (with_manager f xd)) = da_server (snd xd)"
  "da_publisher (snd (with_manager f xd)) = da_publisher (snd xd)"
  "da_manager (snd (with_manager f xd)) = None \<longleftrightarrow> da_manager (snd xd) = None"
  "daemon_launcher e (snd (with_manager f xd)) = daemon_launcher e (snd xd)"
  by (auto simp: with_manager_def daemon_launcher_def split: option.splits prod.splits)

section \<open>The operations as steps\<close>

lemma RemoveTaskGroups_core: "same_core xd (RemoveTaskGroups e services xd)"
  by (simp add: same_core_def RemoveTaskGroups_def split: option.splits)

lemma send_reply_core: "same_core xd (send_reply e request reply xd)"
  by (auto simp: same_core_def send_reply_def split: option.splits prod.splits)

lemma wait_core: "same_core xd (snd (wait_for_commands e now xd))"
  by (auto simp: same_core_def wait_for_commands_def Let_def dest: os_call_children split: prod.splits)

lemma Execute_run_op:
  "Execute L msg now wm = (reply, wm') \<Longrightarrow> run_op L now (Op_Execute msg) wm = wm'"
  by simp

lemma reload_config_steps:
  assumes "reload_config e fresh now m xd = (summary, xd')" and "da_manager (snd xd) = Some m"
    and "\<not> da_stopping (snd xd)"
  shows "dsteps e xd xd'"
proof -
  let ?L = "daemon_launcher e (snd xd)" and ?a = "(os_do (de_notify e ''RELOADING=1'') (fst xd), snd xd)"
  obtain s x m' where run: "Manager_Apply ?L (cf_services fresh) now (fst ?a, m) = (s, x, m')"
    by (rule prod_cases3)
  have "dsteps e xd ?a" by (rule core_steps) (simp add: same_core_def)
  moreover have "dstep e ?a (x, (snd xd)\<lparr>da_manager := Some m'\<rparr>)"
    using assms(2,3) run
    by (intro dstep.call [where op = "Op_Apply (cf_services fresh)" and now = now]) (auto simp: round_call_def)
  moreover have "same_core (x, (snd xd)\<lparr>da_manager := Some m'\<rparr>) xd'"
    using assms(1) run by (auto simp: reload_config_def same_core_def Let_def)
  ultimately show ?thesis by (meson core_steps dsteps_trans r_into_rtranclp)
qed

lemma Daemon_Reload_steps:
  assumes "Daemon_Reload e now xd = Some (reply, xd')"
  shows "dsteps e xd xd'"
  using assms
  by (auto simp: Daemon_Reload_def Let_def dest!: reload_config_steps
      split: if_splits option.splits sum.splits prod.splits)

lemma answer_steps:
  fixes xd :: "'w running"
  assumes "answer e now code request problem xd = Some (reply, xd')"
  shows "dsteps e xd xd'"
proof (cases "code = RC_Malformed \<or> CommandCodeFromByte (cm_command (cq_command request)) = Some CC_Reload")
  case True
  with assms show ?thesis
    by (auto simp: answer_def Let_def dest: Daemon_Reload_steps split: option.splits if_splits)
next
  case False
  then obtain m x m' where m: "da_manager (snd xd) = Some m"
    and run: "Execute (daemon_launcher e (snd xd)) (cq_command request) now (fst xd, m) = (reply, x, m')"
    and xd': "xd' = (x, (snd xd)\<lparr>da_manager := Some m'\<rparr>)"
    using assms by (auto simp: answer_def Let_def split: option.splits prod.splits)
  have "dstep e (fst xd, snd xd) xd'"
    unfolding xd' by (rule dstep.call [OF m _ Execute_run_op [OF run]]) (simp add: round_call_def)
  then show ?thesis by simp
qed

lemma command_rounds_steps:
  "command_rounds n e now xd = Some xd' \<Longrightarrow> dsteps e xd xd'"
proof (induction n arbitrary: xd)
  case (Suc n)
  then obtain server code request problem server' w where s: "da_server (snd xd) = Some server"
    and r: "CommandServer_Receive (de_zmq e) server (px_os (fst xd)) = Some (code, request, problem, server', w)"
    by (auto split: option.splits)
  let ?a = "((fst xd)\<lparr>px_os := w\<rparr>, (snd xd)\<lparr>da_server := Some server'\<rparr>)"
  have a: "dsteps e xd ?a" by (rule core_steps) (simp add: same_core_def s)
  show ?case
  proof (cases "code = RC_Empty")
    case True
    with Suc.prems s r a show ?thesis by (simp add: Let_def)
  next
    case False
    with Suc.prems s r obtain reply b where b: "answer e now code request problem ?a = Some (reply, b)"
      and rest: "command_rounds n e now (send_reply e request reply b) = Some xd'"
      by (auto simp: Let_def split: option.splits)
    from a answer_steps [OF b] core_steps [OF send_reply_core] Suc.IH [OF rest]
    show ?thesis by (meson dsteps_trans)
  qed
qed simp

lemma Publish_steps:
  fixes xd :: "'w running"
  shows "dsteps e xd (Daemon_Publish e now xd)"
proof -
  let ?L = "daemon_launcher e (snd xd)" and ?table = "Capture (de_os e) (px_os (fst xd))"
  obtain snap gpu w where g: "GpuMonitor_Sample (de_nvml e) (da_gpu (snd xd)) (px_os (fst xd)) = (snap, gpu, w)"
    by (rule prod_cases3)
  obtain host system where s: "SystemMonitor_Sample (de_os e) (de_undef e) (de_cpus e) (de_host e) w
      (da_system (snd xd)) = (host, system)" by (rule prod.exhaust)
  let ?a = "((fst xd)\<lparr>px_os := w\<rparr>, (snd xd)\<lparr>da_gpu := gpu, da_system := system\<rparr>)"
  let ?b = "with_manager (Manager_Sample ?L now ?table snap) ?a"
  have a: "same_core xd ?a" by (simp add: same_core_def)
  have b: "dsteps e ?a ?b"
    unfolding run_op_calls(4) [symmetric]
    by (rule with_manager_steps) (simp_all add: round_call_def daemon_launcher_def)
  have "same_core ?b (Daemon_Publish e now xd)"
    using g s by (cases ?b) (auto simp: Daemon_Publish_def same_core_def Let_def split: option.splits prod.splits)
  with core_steps [OF a] b core_steps show ?thesis by (meson dsteps_trans)
qed

lemma plain_call_steps:
  fixes xd :: "'w running"
  shows "da_stopping (snd xd) \<Longrightarrow> dsteps e xd (with_manager (KillAll (daemon_launcher e (snd xd)) now) xd)"
    and "dsteps e xd (with_manager (Manager_Tick (daemon_launcher e (snd xd)) now) xd)"
  unfolding run_op_calls(1,3) [symmetric] by (rule with_manager_steps; simp add: round_call_def)+

lemma tick_and_clean_steps:
  fixes xd :: "'w running"
  shows "dsteps e xd (tick_and_clean e now xd)"
proof -
  let ?L = "daemon_launcher e (snd xd)"
  obtain x d where a: "with_manager (Manager_Tick ?L now) xd = (x, d)" by (rule prod.exhaust)
  have one: "dsteps e xd (x, d)" using plain_call_steps(2) [of e xd now] a by simp
  show ?thesis
  proof (cases "da_manager d")
    case None
    with a one show ?thesis by (simp add: tick_and_clean_def Let_def)
  next
    case (Some m)
    obtain removed m' where t: "TakeRemoved m = (removed, m')" by (rule prod.exhaust)
    have "dstep e (x, d) (x, d\<lparr>da_manager := Some m'\<rparr>)"
      using t by (intro dstep.call [OF Some, where op = Op_TakeRemoved and now = now]) (simp_all add: round_call_def)
    moreover have "tick_and_clean e now xd = RemoveTaskGroups e removed (x, d\<lparr>da_manager := Some m'\<rparr>)"
      using a Some t by (simp add: tick_and_clean_def Let_def)
    ultimately show ?thesis
      using one core_steps [OF RemoveTaskGroups_core] by (metis dsteps_trans r_into_rtranclp)
  qed
qed

lemma publish_due_steps:
  fixes xd :: "'w running"
  shows "dsteps e xd (publish_due e now xd)"
proof (cases "in_steady now < da_nextPublish (snd xd)")
  case False
  then have "same_core (Daemon_Publish e now xd) (publish_due e now xd)"
    by (simp add: publish_due_def same_core_def Let_def split: prod.splits)
  with Publish_steps core_steps show ?thesis by (meson dsteps_trans)
qed (simp add: publish_due_def)

lemma finish_steps:
  fixes xd :: "'w running"
  assumes "da_stopping (snd xd)"
  shows "dsteps e xd (finish e now xd)"
proof -
  let ?kill = "with_manager (KillAll (daemon_launcher e (snd xd)) now) xd"
  obtain later x where l: "os_call (de_now e) (os_do (of_sleep (de_os e) 200) (fst ?kill)) = (later, x)"
    by (rule prod.exhaust)
  define a where "a = (if manager_stopped (snd xd) then xd
    else with_manager (Manager_Tick (daemon_launcher e (snd ?kill)) later) (x, snd ?kill))"
  have "same_core ?kill (x, snd ?kill)" using os_call_children [OF l] by (simp add: same_core_def)
  then have a: "dsteps e xd a"
    using dsteps_trans [OF dsteps_trans [OF plain_call_steps(1) [OF assms, of e now] core_steps]
        plain_call_steps(2) [of e "(x, snd ?kill)" later]]
    by (simp add: a_def)
  obtain last y where y: "os_call (de_now e) (fst a) = (last, y)" by (rule prod.exhaust)
  have "same_core a (y, snd a)" using os_call_children [OF y] by (simp add: same_core_def)
  moreover have "finish e now xd = Daemon_Publish e last (y, snd a)"
    using l y by (auto simp: finish_def a_def Let_def simp del: with_manager_fields split: prod.splits)
  ultimately show ?thesis using a Publish_steps core_steps by (metis dsteps_trans)
qed

lemma take_stop_steps:
  fixes xd :: "'w running"
  shows "dsteps e xd (take_stop e now xd)"
proof -
  obtain signalled x where s: "os_call (de_takeStop e) (fst xd) = (signalled, x)" by (rule prod.exhaust)
  let ?a = "(x, (snd xd)\<lparr>da_stopRequested := False\<rparr>)"
  have a: "dsteps e xd ?a" by (rule core_steps) (simp add: same_core_def os_call_children [OF s])
  have "dstep e ?a (BeginShutdown e now ?a)" if "\<not> da_stopping (snd xd)"
    using that by (intro dstep.shut) simp
  moreover have "dsteps e ?a (with_manager (KillAll (daemon_launcher e (snd ?a)) now) ?a)" if "da_stopping (snd xd)"
    using that by (intro plain_call_steps(1)) simp
  ultimately show ?thesis
    using a s by (auto simp: take_stop_def Let_def intro: dsteps_trans rtranclp.rtrancl_into_rtrancl)
qed

lemma take_reload_steps:
  fixes xd :: "'w running"
  assumes "take_reload e now xd = Some xd'"
  shows "dsteps e xd xd'"
proof -
  obtain signalled x where s: "os_call (de_takeReload e) (fst xd) = (signalled, x)" by (rule prod.exhaust)
  let ?a = "(x, (snd xd)\<lparr>da_reloadRequested := False\<rparr>)"
  have a: "dsteps e xd ?a" by (rule core_steps) (simp add: same_core_def os_call_children [OF s])
  from assms s have "?a = xd' \<or> (\<exists>reply. Daemon_Reload e now ?a = Some (reply, xd'))"
    by (auto simp: take_reload_def Let_def split: if_splits)
  with a show ?thesis by (auto dest: Daemon_Reload_steps intro: dsteps_trans)
qed

lemma os_core: "os_call g (fst xd) = (r, x) \<Longrightarrow> same_core xd (x, snd xd)"
  by (simp add: same_core_def os_call_children)

lemma round_body_after_stop:
  fixes xd :: "'w running"
  assumes "round_body e xd = Some (now, xd')" and f: "os_call (de_now e) (fst xd) = (first, x)"
  shows "dsteps e (take_stop e first (x, snd xd)) xd'"
proof -
  from assms obtain a where a: "take_reload e first (take_stop e first (x, snd xd)) = Some a"
    by (auto simp: round_body_def split: option.splits)
  obtain ready b where b: "wait_for_commands e first a = (ready, b)" by (rule prod.exhaust)
  obtain now' y where n: "os_call (de_now e) (fst b) = (now', y)" by (rule prod.exhaust)
  from assms a b n obtain c where c: "(if ready then HandleCommands e now (y, snd b) else Some (y, snd b)) = Some c"
    and now: "now' = now" and xd': "xd' = publish_due e now (tick_and_clean e now c)"
    by (auto simp: round_body_def Let_def split: option.splits)
  have "dsteps e (take_stop e first (x, snd xd)) a" by (rule take_reload_steps [OF a])
  also have "dsteps e \<dots> b" using core_steps [OF wait_core [of a e first]] b by simp
  also have "dsteps e \<dots> (y, snd b)" by (rule core_steps [OF os_core [OF n]])
  also have "dsteps e \<dots> c"
    using c command_rounds_steps [of _ e now "(y, snd b)" c] by (auto simp: HandleCommands_def split: if_splits)
  also have "dsteps e \<dots> (tick_and_clean e now c)" by (rule tick_and_clean_steps)
  also have "dsteps e \<dots> xd'" unfolding xd' by (rule publish_due_steps)
  finally show ?thesis .
qed

lemma round_body_steps:
  fixes xd :: "'w running"
  assumes "round_body e xd = Some (now, xd')"
  shows "dsteps e xd xd'"
proof -
  obtain first x where f: "os_call (de_now e) (fst xd) = (first, x)" by (rule prod.exhaust)
  have "dsteps e xd (x, snd xd)" by (rule core_steps [OF os_core [OF f]])
  also have "dsteps e \<dots> (take_stop e first (x, snd xd))" by (rule take_stop_steps)
  also have "dsteps e \<dots> xd'" by (rule round_body_after_stop [OF assms f])
  finally show ?thesis .
qed

lemma daemon_round_steps:
  fixes xd :: "'w running"
  assumes "daemon_round e xd = Some (final, xd')"
  shows "dsteps e xd xd'"
proof -
  from assms obtain now a where a: "round_body e xd = Some (now, a)"
    and xd': "if round_over now (snd a) then final \<and> xd' = finish e now a else xd' = a"
    by (auto simp: daemon_round_def split: option.splits if_splits)
  from round_body_steps [OF a] xd' finish_steps [of a e now] show ?thesis
    by (auto simp: round_over_def split: if_splits intro: dsteps_trans)
qed

section \<open>The invariant\<close>

definition daemon_inv :: "'w daemon_env \<Rightarrow> 'w running \<Rightarrow> bool" where
  "daemon_inv e xd \<longleftrightarrow>
     (\<exists>m. da_manager (snd xd) = Some m
        \<and> manager_reach (daemon_launcher e (snd xd)) px_live (fst xd, m)
        \<and> (da_stopping (snd xd) \<longleftrightarrow> mg_shuttingDown m))
     \<and> da_server (snd xd) \<noteq> None \<and> da_publisher (snd xd) \<noteq> None"

lemma px_live_children: "px_children x' = px_children x \<Longrightarrow> px_live x' = px_live x"
  by (simp add: px_live_def px_child_def)

lemma px_live_os [simp]: "px_live (x\<lparr>px_os := w\<rparr>) = px_live x"
  by (simp add: px_live_def px_child_def)

lemma inv_core: "same_core a b \<Longrightarrow> daemon_inv e a \<Longrightarrow> daemon_inv e b"
  by (auto simp: daemon_inv_def same_core_def daemon_launcher_def
      intro!: manager_reach.world [where w = "fst a"] px_live_children)

lemma inv_call:
  assumes inv: "daemon_inv e (x, d)" and m: "da_manager d = Some m" and r: "round_call op d"
    and run: "run_op (daemon_launcher e d) now op (x, m) = (x', m')"
  shows "daemon_inv e (x', d\<lparr>da_manager := Some m'\<rparr>)"
proof -
  let ?L = "daemon_launcher e d"
  have allowed: "op_allowed op (snd (x, m))" using r by (simp add: op_allowed_def round_call_def)
  have reach: "manager_reach ?L px_live (x, m)" and flag: "da_stopping d = mg_shuttingDown m"
    using inv m by (auto simp: daemon_inv_def)
  have "manager_reach ?L px_live (x', m')"
    using manager_reach.call [OF reach allowed, of now] run by simp
  moreover have "mg_shuttingDown m' = mg_shuttingDown m"
    using run_op_shutting [OF allowed, of ?L now] run r flag by (auto simp: round_call_def)
  ultimately show ?thesis using inv m flag by (simp add: daemon_inv_def daemon_launcher_def)
qed

lemma inv_shut:
  fixes x :: "'w posix"
  assumes inv: "daemon_inv e (x, d)"
  shows "daemon_inv e (BeginShutdown e now (x, d))"
proof -
  let ?L = "daemon_launcher e d" and ?y = "os_do (de_notify e ''STOPPING=1'') x"
  from inv obtain m where m: "da_manager d = Some m" and reach: "manager_reach ?L px_live (x, m)"
    by (auto simp: daemon_inv_def)
  obtain z m' where run: "run_op ?L now Op_StopAll (?y, m) = (z, m')" by (rule prod.exhaust)
  have y: "manager_reach ?L px_live (?y, m)"
    by (rule manager_reach.world [OF reach px_live_children]) simp
  have "manager_reach ?L px_live (z, m')"
    using manager_reach.call [OF y, of Op_StopAll now] run by (simp add: op_allowed_def)
  moreover have "mg_shuttingDown m'"
    using run_op_shutting [of Op_StopAll "(?y, m)" ?L now] run by (simp add: op_allowed_def)
  ultimately show ?thesis
    using inv m run
    by (simp add: daemon_inv_def BeginShutdown_def with_manager_def daemon_launcher_def Let_def)
qed

lemma dstep_inv: "dstep e a b \<Longrightarrow> daemon_inv e a \<Longrightarrow> daemon_inv e b"
proof (induction rule: dstep.induct)
  case (frame a b)
  then show ?case by (rule inv_core)
next
  case (call d m op now x x' m')
  then show ?case by (blast intro: inv_call)
next
  case (shut d x now)
  then show ?case by (blast intro: inv_shut)
qed

lemma dsteps_inv: "dsteps e a b \<Longrightarrow> daemon_inv e a \<Longrightarrow> daemon_inv e b"
  by (induction rule: rtranclp_induct) (auto intro: dstep_inv)

section \<open>After the stop request\<close>

text \<open>What a stopping daemon keeps: it stays so, with its deadline, and gains no child object.\<close>

definition winding_down :: "'w running \<Rightarrow> 'w running \<Rightarrow> bool" where
  "winding_down a b \<longleftrightarrow>
     da_stopping (snd b) \<and> da_shutdownDeadline (snd b) = da_shutdownDeadline (snd a)
     \<and> px_live (fst b) \<subseteq> px_live (fst a)"

lemma dstep_stopping:
  assumes "dstep e a b" and "daemon_inv e a" and "da_stopping (snd a)"
  shows "winding_down a b"
  using assms
proof (cases rule: dstep.cases)
  case frame
  with assms(3) px_live_children [of "fst b" "fst a"] show ?thesis by (simp add: winding_down_def same_core_def)
next
  case (call d m op now x x' m')
  then have "op_allowed op (snd (x, m))" "mg_shuttingDown (snd (x, m))"
    "manager_reach (daemon_launcher e d) px_live (x, m)"
    using assms(2,3) by (auto simp: daemon_inv_def op_allowed_def round_call_def)
  then have "px_live x' \<subseteq> px_live x"
    using px.shutdown_launches_nothing [of "de_os e" "da_cgroups d" "(x, m)" op now] call(5)
    by (simp add: daemon_launcher_def)
  with call assms(3) show ?thesis by (simp add: winding_down_def)
next
  case shut
  with assms(3) show ?thesis by simp
qed

lemma dsteps_stopping:
  assumes "dsteps e a b" and "daemon_inv e a" and "da_stopping (snd a)"
  shows "winding_down a b"
  using assms
proof (induction rule: rtranclp_induct)
  case (step y z)
  then have "winding_down a y" "daemon_inv e y" by (auto intro: dsteps_inv)
  with dstep_stopping [OF step.hyps(2)] show ?case by (auto simp: winding_down_def)
qed (simp add: winding_down_def)

section \<open>Reachable daemons\<close>

text \<open>
  A daemon that was created, perhaps told to keep a log level, and started in a world without
  children; then rounds, requests of other threads and changes of the world outside.
\<close>

definition created :: "'w daemon_env \<Rightarrow> Config \<Rightarrow> LogLevel \<Rightarrow> LogLevel option \<Rightarrow> 'w posix \<Rightarrow> 'w running" where
  "created e config level override x =
     (case new_Daemon e config level x of (x, d) \<Rightarrow>
        (x, case override of None \<Rightarrow> d | Some l \<Rightarrow> OverrideLogLevel l d))"

inductive daemon_reach :: "'w daemon_env \<Rightarrow> 'w running \<Rightarrow> bool" for e where
  start: "px_children x = [] \<Longrightarrow> distinct (map sc_name (cf_services config)) \<Longrightarrow>
    Daemon_Start e (created e config level override x) = ((DaemonCode_Ok, error), xd) \<Longrightarrow> daemon_reach e xd"
| one_round: "daemon_reach e xd \<Longrightarrow> daemon_round e xd = Some (final, xd') \<Longrightarrow> daemon_reach e xd'"
| stop: "daemon_reach e (x, d) \<Longrightarrow> daemon_reach e (x, RequestStop d)"
| reload: "daemon_reach e (x, d) \<Longrightarrow> daemon_reach e (x, RequestReload d)"
| world: "daemon_reach e (x, d) \<Longrightarrow> daemon_reach e (x\<lparr>px_os := w\<rparr>, d)"

lemma SetUpCgroups_fields:
  "px_children (fst (SetUpCgroups e xd)) = px_children (fst xd)"
  "da_config (snd (SetUpCgroups e xd)) = da_config (snd xd)"
  "da_stopping (snd (SetUpCgroups e xd)) = da_stopping (snd xd)"
  by (auto simp: SetUpCgroups_def RemoveTaskGroups_def Let_def split: sum.splits prod.splits)

lemma start_gpu_fields:
  "px_children (fst (start_gpu e xd)) = px_children (fst xd)"
  "da_config (snd (start_gpu e xd)) = da_config (snd xd)"
  "da_stopping (snd (start_gpu e xd)) = da_stopping (snd xd)"
  by (auto simp: start_gpu_def split: prod.splits)

lemma bind_publisher_fields:
  "bind_publisher e xd = (error, xd') \<Longrightarrow>
   px_children (fst xd') = px_children (fst xd) \<and> da_config (snd xd') = da_config (snd xd)
   \<and> da_stopping (snd xd') = da_stopping (snd xd) \<and> da_publisher (snd xd') \<noteq> None"
  by (auto simp: bind_publisher_def Let_def split: prod.splits)

lemma bind_server_fields:
  "bind_server e xd = (error, xd') \<Longrightarrow>
   px_children (fst xd') = px_children (fst xd) \<and> da_config (snd xd') = da_config (snd xd)
   \<and> da_stopping (snd xd') = da_stopping (snd xd) \<and> da_publisher (snd xd') = da_publisher (snd xd)
   \<and> da_server (snd xd') \<noteq> None"
  by (auto simp: bind_server_def Let_def split: prod.splits)

lemma start_manager_inv:
  fixes xd :: "'w running"
  assumes "px_children (fst xd) = []" and "distinct (map sc_name (cf_services (da_config (snd xd))))"
    and "\<not> da_stopping (snd xd)" and "da_server (snd xd) \<noteq> None" and "da_publisher (snd xd) \<noteq> None"
  shows "daemon_inv e (start_manager e xd)"
proof -
  let ?L = "daemon_launcher e (snd xd)"
    and ?env = "[\<lparr>ev_name = ''BPM_COMMAND_ENDPOINT'', ev_value = ConnectEndpoint (Daemon_CommandEndpoint e xd)\<rparr>]"
  let ?m = "Manager_Load (cf_services (da_config (snd xd))) (new_Manager ?env)"
  obtain now x where n: "os_call (de_now e) (fst xd) = (now, x)" by (rule prod.exhaust)
  obtain y m where run: "run_op ?L now Op_StartAutostart (x, ?m) = (y, m)" by (rule prod.exhaust)
  have "px_live x = {}" using os_call_children [OF n] assms(1) by (simp add: px_live_def px_child_def)
  then have load: "manager_reach ?L px_live (x, ?m)" by (rule manager_reach.load [OF _ assms(2)])
  have allowed: "op_allowed Op_StartAutostart (snd (x, ?m))"
    by (simp add: op_allowed_def Manager_Load_def new_Manager_def)
  have "manager_reach ?L px_live (y, m)" using manager_reach.call [OF load allowed, of now] run by simp
  moreover have "\<not> mg_shuttingDown m"
    using run_op_shutting [OF allowed, of ?L now] run allowed by (simp add: op_allowed_def)
  ultimately have "daemon_inv e (y, (snd xd)\<lparr>da_manager := Some m\<rparr>)"
    using assms by (simp add: daemon_inv_def daemon_launcher_def)
  moreover have "same_core (y, (snd xd)\<lparr>da_manager := Some m\<rparr>) (start_manager e xd)"
    using n run by (simp add: start_manager_def with_manager_def same_core_def Let_def)
  ultimately show ?thesis by (rule inv_core [rotated])
qed

lemma Daemon_Start_inv:
  fixes xd :: "'w running"
  assumes start: "Daemon_Start e xd = ((DaemonCode_Ok, error), xd')"
    and "px_children (fst xd) = []" and "distinct (map sc_name (cf_services (da_config (snd xd))))"
    and "\<not> da_stopping (snd xd)"
  shows "daemon_inv e xd'"
proof -
  define a where "a = (if ms_cgroups (cf_manager (da_config (snd xd))) \<noteq> CM_Off then SetUpCgroups e xd else xd)"
  obtain err b where b: "bind_publisher e (start_gpu e a) = (err, b)" by (rule prod.exhaust)
  obtain err' c where c: "bind_server e b = (err', c)" by (rule prod.exhaust)
  have a: "px_children (fst a) = []" "da_config (snd a) = da_config (snd xd)" "\<not> da_stopping (snd a)"
    using assms by (simp_all add: a_def SetUpCgroups_fields)
  have "xd' = start_manager e c"
    using start b c by (auto simp: Daemon_Start_def a_def Let_def split: if_splits option.splits)
  moreover have "daemon_inv e (start_manager e c)"
    using bind_publisher_fields [OF b] bind_server_fields [OF c] a assms(3)
    by (intro start_manager_inv) (simp_all add: start_gpu_fields)
  ultimately show ?thesis by simp
qed

lemma created_fields:
  "px_children (fst (created e config level override x)) = px_children x"
  "da_config (snd (created e config level override x)) = config"
  "\<not> da_stopping (snd (created e config level override x))"
  by (auto simp: created_def new_Daemon_def OverrideLogLevel_def dest: os_call_children
      split: prod.splits option.splits)

lemma daemon_reach_inv: "daemon_reach e xd \<Longrightarrow> daemon_inv e xd"
proof (induction rule: daemon_reach.induct)
  case (start x config level override error xd)
  then show ?case by (auto intro!: Daemon_Start_inv [OF start(3)] simp: created_fields)
next
  case (one_round xd final xd')
  then show ?case by (blast intro: dsteps_inv daemon_round_steps)
next
  case (stop x d)
  then show ?case by (elim inv_core [rotated]) (simp add: same_core_def RequestStop_def)
next
  case (reload x d)
  then show ?case by (elim inv_core [rotated]) (simp add: same_core_def RequestReload_def)
next
  case (world x d w)
  then show ?case by (elim inv_core [rotated]) (simp add: same_core_def)
qed

end
