(* ===== verification/Daemon_Props.thy ===== *)
theory Daemon_Props
  imports Daemon_Runs Manager_Results Fake_Launcher
begin

text \<open>
  What the daemon guarantees: its rounds return and a requested stop ends \<open>Run\<close>, commands are
  executed and answered, a reload happens completely or not at all.
\<close>

section \<open>Rounds return\<close>

definition receive_returns :: "'w zmq \<Rightarrow> bool" where
  "receive_returns z \<longleftrightarrow> (\<forall>s w. ZmqSocket_Receive z True s w \<noteq> None)"

lemma ParseFile_total: "ParseFile files path \<noteq> None"
  using ParseText_total by (auto simp: ParseFile_def split: option.splits)

lemma Daemon_Reload_returns: "da_manager (snd xd) \<noteq> None \<Longrightarrow> Daemon_Reload e now xd \<noteq> None"
  using ParseFile_total [of "\<lambda>p. de_configFile e p (px_os (fst xd))" "cf_path (da_config (snd xd))"]
  by (auto simp: Daemon_Reload_def Let_def split: option.splits sum.splits prod.splits)

lemma take_reload_returns:
  assumes "da_manager (snd xd) \<noteq> None"
  shows "take_reload e now xd \<noteq> None"
proof -
  obtain signalled x where "os_call (de_takeReload e) (fst xd) = (signalled, x)" by (rule prod.exhaust)
  moreover have "Daemon_Reload e now (x, (snd xd)\<lparr>da_reloadRequested := False\<rparr>) \<noteq> None"
    using assms by (intro Daemon_Reload_returns) simp
  ultimately show ?thesis by (auto simp: take_reload_def Let_def)
qed

lemma answer_returns:
  "da_manager (snd xd) \<noteq> None \<Longrightarrow> answer e now code request problem xd \<noteq> None"
  using Daemon_Reload_returns [of xd e now] by (auto simp: answer_def Let_def split: option.splits prod.splits)

lemma Receive_returns:
  "receive_returns z \<Longrightarrow> CommandServer_Receive z server w \<noteq> None"
  by (auto simp: receive_returns_def CommandServer_Receive_def split: option.splits prod.splits)

lemma command_rounds_return:
  fixes xd :: "'w running"
  assumes "receive_returns (de_zmq e)" and "daemon_inv e xd"
  shows "command_rounds n e now xd \<noteq> None"
  using assms(2)
proof (induction n arbitrary: xd)
  case (Suc n)
  obtain server where s: "da_server (snd xd) = Some server" using Suc.prems by (auto simp: daemon_inv_def)
  obtain code request problem server' w
    where r: "CommandServer_Receive (de_zmq e) server (px_os (fst xd)) = Some (code, request, problem, server', w)"
    using Receive_returns [OF assms(1), of server "px_os (fst xd)"] by auto
  let ?a = "((fst xd)\<lparr>px_os := w\<rparr>, (snd xd)\<lparr>da_server := Some server'\<rparr>)"
  have a: "daemon_inv e ?a" using Suc.prems by (elim inv_core [rotated]) (simp add: same_core_def s)
  then have "answer e now code request problem ?a \<noteq> None" by (intro answer_returns) (auto simp: daemon_inv_def)
  then obtain reply b where b: "answer e now code request problem ?a = Some (reply, b)" by auto
  have "daemon_inv e (send_reply e request reply b)"
    using dsteps_inv [OF answer_steps [OF b] a] send_reply_core inv_core by blast
  from Suc.IH [OF this] s r b show ?case by (simp add: Let_def)
qed simp

lemma round_body_returns:
  fixes xd :: "'w running"
  assumes "receive_returns (de_zmq e)" and inv: "daemon_inv e xd"
  shows "round_body e xd \<noteq> None"
proof -
  obtain first x where f: "os_call (de_now e) (fst xd) = (first, x)" by (rule prod.exhaust)
  have "daemon_inv e (x, snd xd)" by (rule inv_core [OF os_core [OF f] inv])
  then have inv1: "daemon_inv e (take_stop e first (x, snd xd))" by (rule dsteps_inv [OF take_stop_steps])
  then have "take_reload e first (take_stop e first (x, snd xd)) \<noteq> None"
    by (intro take_reload_returns) (auto simp: daemon_inv_def)
  then obtain a where a: "take_reload e first (take_stop e first (x, snd xd)) = Some a" by auto
  obtain ready b where b: "wait_for_commands e first a = (ready, b)" by (rule prod.exhaust)
  obtain now y where n: "os_call (de_now e) (fst b) = (now, y)" by (rule prod.exhaust)
  have "daemon_inv e a" by (rule dsteps_inv [OF take_reload_steps [OF a] inv1])
  then have "daemon_inv e b" using inv_core [OF wait_core [of a e first]] b by simp
  then have "daemon_inv e (y, snd b)" by (rule inv_core [OF os_core [OF n]])
  then have "HandleCommands e now (y, snd b) \<noteq> None"
    unfolding HandleCommands_def by (rule command_rounds_return [OF assms(1)])
  then show ?thesis using f a b n by (auto simp: round_body_def Let_def split: option.splits)
qed

lemma daemon_round_returns:
  fixes xd :: "'w running"
  assumes "receive_returns (de_zmq e)" and "daemon_inv e xd"
  shows "\<exists>final xd'. daemon_round e xd = Some (final, xd')"
proof -
  from round_body_returns [OF assms] obtain now a where "round_body e xd = Some (now, a)" by auto
  then show ?thesis by (cases "round_over now (snd a)") (auto simp: daemon_round_def)
qed

section \<open>A requested stop ends Run\<close>

text \<open>A round that is not the last, and the second reading of the clock in a round.\<close>

definition goes_on :: "'w daemon_env \<Rightarrow> 'w running \<Rightarrow> 'w running \<Rightarrow> bool" where
  "goes_on e a b \<longleftrightarrow> daemon_round e a = Some (False, b)"

definition round_time :: "'w daemon_env \<Rightarrow> 'w running \<Rightarrow> nanos" where
  "round_time e xd = (case round_body e xd of Some (now, _) \<Rightarrow> in_steady now | None \<Rightarrow> 0)"

text \<open>The clock has advanced from each round to the following one.\<close>

definition rounds_take_time :: "'w daemon_env \<Rightarrow> 'w running \<Rightarrow> bool" where
  "rounds_take_time e xd \<longleftrightarrow>
     (\<forall>a b. (goes_on e)\<^sup>*\<^sup>* xd a \<longrightarrow> goes_on e a b \<longrightarrow> round_time e a < round_time e b)"

text \<open>
  A stop has been asked for: the shutdown runs already, \<open>RequestStop\<close> was called, or the signal watcher
  will answer that a stop signal has arrived when the next round asks it.
\<close>

definition stop_pending :: "'w daemon_env \<Rightarrow> 'w running \<Rightarrow> bool" where
  "stop_pending e xd \<longleftrightarrow> da_stopping (snd xd) \<or> da_stopRequested (snd xd)
     \<or> fst (de_takeStop e (snd (de_now e (px_os (fst xd)))))"

lemma take_stop_requested:
  assumes "stop_pending e xd" and "os_call (de_now e) (fst xd) = (first, x)"
  shows "da_stopping (snd (take_stop e first (x, snd xd)))"
proof -
  have "px_os x = snd (de_now e (px_os (fst xd)))" using assms(2) by (auto simp: os_call_def split: prod.splits)
  with assms(1) show ?thesis
    by (auto simp: take_stop_def stop_pending_def os_call_def BeginShutdown_def Let_def split: prod.splits)
qed

lemma stop_request_stops:
  fixes xd :: "'w running"
  assumes inv: "daemon_inv e xd" and "daemon_round e xd = Some (final, xd')"
    and "stop_pending e xd"
  shows "da_stopping (snd xd')"
proof -
  from assms(2) obtain now a where body: "round_body e xd = Some (now, a)"
    and xd': "if round_over now (snd a) then final \<and> xd' = finish e now a else xd' = a"
    by (auto simp: daemon_round_def split: option.splits if_splits)
  obtain first x where f: "os_call (de_now e) (fst xd) = (first, x)" by (rule prod.exhaust)
  have i: "daemon_inv e (take_stop e first (x, snd xd))"
    by (rule dsteps_inv [OF take_stop_steps inv_core [OF os_core [OF f] inv]])
  have "da_stopping (snd (take_stop e first (x, snd xd)))" by (rule take_stop_requested [OF assms(3) f])
  with dsteps_stopping [OF round_body_after_stop [OF body f] i] have a: "da_stopping (snd a)"
    by (simp add: winding_down_def)
  have "daemon_inv e a" by (rule dsteps_inv [OF round_body_steps [OF body] inv])
  from dsteps_stopping [OF finish_steps [OF a] this a, of now] a xd' show ?thesis
    by (auto simp: winding_down_def split: if_splits)
qed

lemma goes_on_stopping:
  fixes a b :: "'w running"
  assumes "goes_on e a b" and inv: "daemon_inv e a" and "stop_pending e a"
  shows "da_stopping (snd b) \<and> daemon_inv e b \<and> round_time e a < da_shutdownDeadline (snd b)"
proof -
  from assms(1) obtain now where body: "round_body e a = Some (now, b)" and more: "\<not> round_over now (snd b)"
    by (auto simp: goes_on_def daemon_round_def split: option.splits if_splits)
  have "da_stopping (snd b)"
    using stop_request_stops [OF inv _ assms(3), of False b] assms(1) by (simp add: goes_on_def)
  moreover have "daemon_inv e b" by (rule dsteps_inv [OF round_body_steps [OF body] inv])
  ultimately show ?thesis using more body by (simp add: round_over_def round_time_def)
qed

lemma goes_on_deadline:
  fixes a b :: "'w running"
  assumes "goes_on e a b" and "daemon_inv e a" and "da_stopping (snd a)"
  shows "da_shutdownDeadline (snd b) = da_shutdownDeadline (snd a)"
  using dsteps_stopping [OF daemon_round_steps, of e a False b] assms by (auto simp: goes_on_def winding_down_def)

lemma stopping_rounds_return:
  fixes xd :: "'w running"
  assumes "receive_returns (de_zmq e)" and "rounds_take_time e xd0" and "(goes_on e)\<^sup>*\<^sup>* xd0 xd"
    and "daemon_inv e xd" and "da_stopping (snd xd)"
  shows "run_rounds e xd \<noteq> None"
  using assms(3-5)
proof (induction "nat (da_shutdownDeadline (snd xd) - round_time e xd)" arbitrary: xd rule: less_induct)
  case less
  obtain final b where b: "daemon_round e xd = Some (final, b)"
    using daemon_round_returns [OF assms(1) less.prems(2)] by blast
  show ?case
  proof (cases final)
    case True
    with b show ?thesis by (subst run_rounds.simps) simp
  next
    case False
    with b have on: "goes_on e xd b" by (simp add: goes_on_def)
    then have reach: "(goes_on e)\<^sup>*\<^sup>* xd0 b" using less.prems(1) by (rule rtranclp.rtrancl_into_rtrancl [rotated])
    have "round_time e xd < round_time e b"
      using assms(2) less.prems(1) on unfolding rounds_take_time_def by blast
    moreover have s: "da_stopping (snd b)" "daemon_inv e b" "round_time e xd < da_shutdownDeadline (snd b)"
      using goes_on_stopping [OF on less.prems(2)] less.prems(3) by (auto simp: stop_pending_def)
    ultimately have "nat (da_shutdownDeadline (snd b) - round_time e b)
        < nat (da_shutdownDeadline (snd xd) - round_time e xd)"
      using goes_on_deadline [OF on less.prems(2,3)] by simp
    from less.hyps [OF this reach s(2,1)] False b show ?thesis by (subst run_rounds.simps) simp
  qed
qed

lemma requested_run_returns:
  fixes xd :: "'w running"
  assumes "receive_returns (de_zmq e)" and "rounds_take_time e xd" and inv: "daemon_inv e xd"
    and stop: "stop_pending e xd"
  shows "\<exists>xd'. Daemon_Run e xd = Some (0, xd')"
proof -
  obtain final b where b: "daemon_round e xd = Some (final, b)"
    using daemon_round_returns [OF assms(1) inv] by blast
  have "run_rounds e xd \<noteq> None"
  proof (cases final)
    case True
    with b show ?thesis by (subst run_rounds.simps) simp
  next
    case False
    with b have on: "goes_on e xd b" by (simp add: goes_on_def)
    have "run_rounds e b \<noteq> None"
      using goes_on_stopping [OF on inv stop] on by (intro stopping_rounds_return [OF assms(1,2)]) auto
    with False b show ?thesis by (subst run_rounds.simps) simp
  qed
  with inv show ?thesis by (auto simp: Daemon_Run_def daemon_inv_def)
qed

section \<open>A world for the witnesses\<close>

text \<open>
  The state of this world is a list that grows with every part of a message received: the sockets
  hand out the frames of one message, then nothing more.
\<close>

definition sample_zmq :: "Message \<Rightarrow> (int \<times> int) list zmq" where
  "sample_zmq message =
     \<lparr>z_socket = \<lambda>t w. (Inr 1, w), z_close = \<lambda>h w. w, z_bind = \<lambda>h e w. (None, w), z_connect = \<lambda>h e w. (None, w),
      z_setNumber = \<lambda>h opt v w. (None, w), z_setText = \<lambda>h opt v w. (None, w),
      z_send = \<lambda>h frame dontWait sendMore w. (None, w),
      z_recv = \<lambda>h dontWait w. (if length w < length message
                 then (Inr (message ! length w, length w + 1 < length message), w @ [(0, 0)])
                 else (Inl EAGAIN, w)),
      z_lastEndpoint = \<lambda>h w. None, z_strerror = \<lambda>e. ''error'',
      z_poll = \<lambda>items t w. (Inr (map (\<lambda>h. length w < length message) items), w)\<rparr>"

definition sample_nvml :: "(int \<times> int) list nvml" where
  "sample_nvml =
     \<lparr>nv_dlopen = \<lambda>n w. (None, w), nv_dlsym = \<lambda>h n. None, nv_dlclose = \<lambda>h w. w, nv_plain = \<lambda>f w. (0, w),
      nv_count = \<lambda>f w. ((0, 0), w), nv_device = \<lambda>f i w. ((0, 0), w), nv_text = \<lambda>f d n w. ((0, []), w),
      nv_utilization = \<lambda>f d w. ((0, 0, 0), w), nv_memory = \<lambda>f d w. ((0, 0, 0), w),
      nv_temperature = \<lambda>f d s w. ((0, 0), w), nv_power = \<lambda>f d w. ((0, 0), w),
      nv_processes = \<lambda>f d c b w. ((0, 0, []), w), nv_processUtilization = \<lambda>f d c t w. ((0, 0, []), w),
      nv_beyond = \<lambda>k. 0\<rparr>"

definition sample_env :: "Message \<Rightarrow> (int \<times> int) list daemon_env" where
  "sample_env message =
     \<lparr>de_os = sample_process_os, de_zmq = sample_zmq message, de_nvml = sample_nvml,
      de_now = \<lambda>w. (instant 5, w), de_takeStop = \<lambda>w. (False, w), de_takeReload = \<lambda>w. (False, w),
      de_notify = \<lambda>s w. w, de_configFile = \<lambda>path w. None, de_pid = 1, de_cpus = 1, de_host = None,
      de_undef = \<lambda>v. 0\<rparr>"

definition sample_world :: "(int \<times> int) list posix" where
  "sample_world = \<lparr>px_os = [], px_children = []\<rparr>"

definition sample_config :: Config where
  "sample_config = default_Config\<lparr>cf_manager := default_ManagerSettings\<lparr>ms_cgroups := CM_Off, ms_gpu := GM_Off\<rparr>\<rparr>"

text \<open>The daemon of this world after its start.\<close>

definition sample_daemon :: "(int \<times> int) list running" where
  "sample_daemon = snd (Daemon_Start (sample_env []) (created (sample_env []) sample_config LL_Info None sample_world))"

lemma sample_daemon_reach: "daemon_reach (sample_env []) sample_daemon"
proof -
  have "fst (fst (Daemon_Start (sample_env []) (created (sample_env []) sample_config LL_Info None sample_world)))
      = DaemonCode_Ok" by code_simp
  then have "Daemon_Start (sample_env []) (created (sample_env []) sample_config LL_Info None sample_world)
      = ((DaemonCode_Ok, snd (fst (Daemon_Start (sample_env []) (created (sample_env []) sample_config LL_Info None sample_world)))),
         sample_daemon)"
    by (simp add: sample_daemon_def prod_eq_iff)
  then show ?thesis
    by (rule daemon_reach.start [rotated 2]) (simp_all add: sample_world_def sample_config_def default_Config_def)
qed

section \<open>Properties\<close>

text \<open>
  C6: a daemon that has started and runs, whatever arrives on its sockets, whatever is requested and
  whatever the operating system does, has its manager, which holds the invariant of its services:
  unique names, a child object exactly for the services that are alive, every child object owned by
  one service. The manager refuses to start anything exactly when the daemon is stopping.
\<close>

theorem daemon_is_sound:
  assumes "daemon_reach e xd"
  shows "\<exists>m. da_manager (snd xd) = Some m \<and> (da_stopping (snd xd) \<longleftrightarrow> mg_shuttingDown m)
    \<and> distinct (names m)
    \<and> list_all (\<lambda>s. (sv_child s \<noteq> None \<longleftrightarrow> IsAlive (sv_state s)) \<and> \<not> sv_fault s) (mg_services m)
    \<and> distinct (children m) \<and> set (children m) = px_live (fst xd)"
proof -
  from daemon_reach_inv [OF assms] obtain m where m: "da_manager (snd xd) = Some m"
    and r: "manager_reach (posix_launcher (de_os e) (da_cgroups (snd xd))) px_live (fst xd, m)"
    and f: "da_stopping (snd xd) \<longleftrightarrow> mg_shuttingDown m"
    by (auto simp: daemon_inv_def daemon_launcher_def)
  from manager_reach_inv [OF r] px.manager_reach_owns [OF r] m f show ?thesis
    by (auto simp: manager_inv_def service_inv_def px.owns_def list_all_iff)
qed

theorem daemon_is_sound_witness:
  "\<exists>m. da_manager (snd sample_daemon) = Some m \<and> set (children m) = px_live (fst sample_daemon)"
  using daemon_is_sound [OF sample_daemon_reach] by blast

text \<open>
  C7: once the daemon is stopping, no round creates a child object, whatever commands and reloads are
  requested; the shutdown is not called off and its deadline is not moved.
\<close>

theorem stopping_daemon_winds_down:
  fixes xd :: "'w running"
  assumes "daemon_reach e xd" and "da_stopping (snd xd)" and "daemon_round e xd = Some (final, xd')"
  shows "px_live (fst xd') \<subseteq> px_live (fst xd) \<and> da_stopping (snd xd')
    \<and> da_shutdownDeadline (snd xd') = da_shutdownDeadline (snd xd)"
  using dsteps_stopping [OF daemon_round_steps [OF assms(3)] daemon_reach_inv [OF assms(1)] assms(2)]
  by (simp add: winding_down_def)

definition sample_requested :: "(int \<times> int) list running" where
  "sample_requested = (fst sample_daemon, RequestStop (snd sample_daemon))"

lemma sample_requested_reach: "daemon_reach (sample_env []) sample_requested"
  unfolding sample_requested_def by (rule daemon_reach.stop) (simp add: sample_daemon_reach)

lemma sample_round: "map_option fst (daemon_round (sample_env []) sample_requested) = Some True"
  by code_simp

definition sample_stopped :: "(int \<times> int) list running" where
  "sample_stopped = snd (the (daemon_round (sample_env []) sample_requested))"

lemma sample_stopped_round: "daemon_round (sample_env []) sample_requested = Some (True, sample_stopped)"
  using sample_round by (auto simp: sample_stopped_def)

lemma sample_receive: "receive_returns (sample_zmq [])"
proof -
  have "ZmqSocket_Receive (sample_zmq []) True s w \<noteq> None" for s and w :: "(int \<times> int) list"
  proof (cases "zs_handle s")
    case (Some h)
    with Receive_empty [OF Some, of "sample_zmq []" w w] show ?thesis by (simp add: sample_zmq_def)
  qed (simp add: ZmqSocket_Receive_def)
  then show ?thesis by (simp add: receive_returns_def)
qed

lemma sample_stopping: "da_stopping (snd sample_stopped)"
proof -
  have "stop_pending (sample_env []) sample_requested"
    by (simp add: stop_pending_def sample_requested_def RequestStop_def)
  with stop_request_stops [OF daemon_reach_inv [OF sample_requested_reach] sample_stopped_round]
  show ?thesis by simp
qed

theorem stopping_daemon_winds_down_witness:
  "da_stopping (snd (snd (the (daemon_round (sample_env []) sample_stopped))))"
proof -
  have reach: "daemon_reach (sample_env []) sample_stopped"
    by (rule daemon_reach.one_round [OF sample_requested_reach sample_stopped_round])
  have "receive_returns (de_zmq (sample_env []))" using sample_receive by (simp add: sample_env_def)
  from daemon_round_returns [OF this daemon_reach_inv [OF reach]] obtain final xd'
    where "daemon_round (sample_env []) sample_stopped = Some (final, xd')" by blast
  with stopping_daemon_winds_down [OF reach sample_stopping this] show ?thesis by simp
qed

text \<open>
  C8: a stop that was requested, by a call or by a signal, ends \<open>Run\<close> with exit code 0, whatever the
  services do: no round waits for ever, and the round in which the clock has passed the shutdown
  deadline is the last.
\<close>

theorem requested_stop_ends_run:
  fixes xd :: "'w running"
  assumes "daemon_reach e xd" and "stop_pending e xd"
    and "receive_returns (de_zmq e)" and "rounds_take_time e xd"
  shows "\<exists>xd'. Daemon_Run e xd = Some (0, xd')"
  by (rule requested_run_returns [OF assms(3,4) daemon_reach_inv [OF assms(1)] assms(2)])

theorem requested_stop_ends_run_witness: "\<exists>xd'. Daemon_Run (sample_env []) sample_requested = Some (0, xd')"
proof -
  have no: "\<not> goes_on (sample_env []) sample_requested b" for b
    by (simp add: goes_on_def sample_stopped_round)
  then have "(goes_on (sample_env []))\<^sup>*\<^sup>* sample_requested a \<Longrightarrow> a = sample_requested" for a
    by (auto elim: converse_rtranclpE)
  with no have "rounds_take_time (sample_env []) sample_requested" unfolding rounds_take_time_def by blast
  moreover have "stop_pending (sample_env []) sample_requested"
    by (simp add: stop_pending_def sample_requested_def RequestStop_def)
  moreover have "receive_returns (de_zmq (sample_env []))" using sample_receive by (simp add: sample_env_def)
  ultimately show ?thesis using requested_stop_ends_run [OF sample_requested_reach] by blast
qed

text \<open>
  C11: a reload happens completely or not at all. It succeeds exactly when there is a file, the daemon
  is not stopping and the file holds a configuration; when it is refused, nothing of the daemon or its
  manager has changed. When it succeeds, that configuration meets its contract, the manager has its
  services, and of the settings of the manager only the publish interval and the log level are taken
  over: the endpoints, the cgroup and GPU modes and all the rest of the daemon stay as they are.
\<close>

theorem reload_is_all_or_nothing:
  fixes xd :: "'w running"
  assumes "Daemon_Reload e now xd = Some (reply, xd')"
  shows "(let d = snd xd; old = da_config d;
          parsed = ParseFile (\<lambda>p. de_configFile e p (px_os (fst xd))) (cf_path old)
    in (cr_result reply \<noteq> CR_Ok \<longrightarrow> xd' = xd \<and> cr_result reply \<in> {CR_ReloadFailed, CR_ShuttingDown})
      \<and> (cr_result reply = CR_Ok \<longleftrightarrow> cf_path old \<noteq> [] \<and> \<not> da_stopping d \<and> (\<exists>fresh. parsed = Some (Inr fresh)))
      \<and> (cr_result reply = CR_Ok \<longrightarrow>
          (\<exists>fresh m m'. parsed = Some (Inr fresh) \<and> config_ok fresh
            \<and> da_manager d = Some m \<and> lookup m' = reloaded (cf_services fresh) (lookup m)
            \<and> snd xd' = d\<lparr>
                da_config := old\<lparr>
                  cf_manager := (cf_manager old)\<lparr>
                    ms_publishInterval := ms_publishInterval (cf_manager fresh),
                    ms_logLevel := ms_logLevel (cf_manager fresh)\<rparr>,
                  cf_services := cf_services fresh\<rparr>,
                da_logLevel := (case da_logLevelOverride d of Some l \<Rightarrow> l | None \<Rightarrow> ms_logLevel (cf_manager fresh)),
                da_manager := Some m'\<rparr>)))"
proof (cases "cr_result reply = CR_Ok")
  case False
  with assms show ?thesis
    by (auto simp: Daemon_Reload_def reload_reply_def Let_def split: if_splits option.splits sum.splits prod.splits)
next
  case True
  with assms obtain fresh m summary where run: "cf_path (da_config (snd xd)) \<noteq> []" "\<not> da_stopping (snd xd)"
      "da_manager (snd xd) = Some m"
    and parsed: "ParseFile (\<lambda>p. de_configFile e p (px_os (fst xd))) (cf_path (da_config (snd xd))) = Some (Inr fresh)"
    and config: "reload_config e fresh now m xd = (summary, xd')"
    by (auto simp: Daemon_Reload_def reload_reply_def Let_def split: if_splits option.splits sum.splits prod.splits)
  obtain s x m' where apply': "Manager_Apply (daemon_launcher e (snd xd)) (cf_services fresh) now
      (os_do (de_notify e ''RELOADING=1'') (fst xd), m) = (s, x, m')" by (rule prod_cases3)
  have ok: "config_ok fresh" using ParseFile_ok [OF parsed] by simp
  then have "distinct (map sc_name (cf_services fresh))" by (simp add: config_ok_def services_ok_def)
  from Apply_refines(1) [OF this apply'] have look: "lookup m' = reloaded (cf_services fresh) (lookup m)" by simp
  have "snd xd' = (snd xd)\<lparr>da_config := (da_config (snd xd))\<lparr>
          cf_manager := (cf_manager (da_config (snd xd)))\<lparr>
            ms_publishInterval := ms_publishInterval (cf_manager fresh),
            ms_logLevel := ms_logLevel (cf_manager fresh)\<rparr>,
          cf_services := cf_services fresh\<rparr>,
        da_logLevel := (case da_logLevelOverride (snd xd) of Some l \<Rightarrow> l | None \<Rightarrow> ms_logLevel (cf_manager fresh)),
        da_manager := Some m'\<rparr>"
    using config apply' by (auto simp: reload_config_def Let_def)
  with run parsed ok look True show ?thesis unfolding Let_def by blast
qed

text \<open>A daemon with settings of its own that reloads an empty file.\<close>

definition reload_env :: "(int \<times> int) list daemon_env" where
  "reload_env = (sample_env [])\<lparr>de_configFile := \<lambda>path w. Some []\<rparr>"

definition reload_daemon :: "(int \<times> int) list running" where
  "reload_daemon = (fst sample_daemon, (snd sample_daemon)\<lparr>da_config := \<lparr>cf_path = ''/etc/m.conf'',
     cf_manager = default_ManagerSettings\<lparr>ms_commandEndpoint := ''tcp://*:9'', ms_publishInterval := 7\<rparr>,
     cf_services = []\<rparr>\<rparr>)"

lemma reload_file: "ParseFile (\<lambda>p. Some []) ''/etc/m.conf'' = Some (Inr (default_Config\<lparr>cf_path := ''/etc/m.conf''\<rparr>))"
  by code_simp

lemma reload_succeeds:
  "map_option (\<lambda>r. cr_result (fst r)) (Daemon_Reload reload_env (instant 5) reload_daemon) = Some CR_Ok"
  by code_simp

theorem reload_is_all_or_nothing_witness:
  "cf_manager (da_config (snd (snd (the (Daemon_Reload reload_env (instant 5) reload_daemon)))))
    = default_ManagerSettings\<lparr>ms_commandEndpoint := ''tcp://*:9''\<rparr>"
proof -
  from reload_succeeds obtain reply xd' where r: "Daemon_Reload reload_env (instant 5) reload_daemon = Some (reply, xd')"
    and ok: "cr_result reply = CR_Ok" by auto
  have parsed: "ParseFile (\<lambda>p. de_configFile reload_env p (px_os (fst reload_daemon))) (cf_path (da_config (snd reload_daemon)))
      = Some (Inr (default_Config\<lparr>cf_path := ''/etc/m.conf''\<rparr>))"
    using reload_file by (simp add: reload_env_def reload_daemon_def)
  from reload_is_all_or_nothing [OF r] ok parsed
  have "cf_manager (da_config (snd xd')) = default_ManagerSettings\<lparr>ms_commandEndpoint := ''tcp://*:9''\<rparr>"
    by (auto simp: Let_def reload_daemon_def default_Config_def default_ManagerSettings_def)
  with r show ?thesis by simp
qed

text \<open>
  C10: a command that a client sends is executed by the manager and answered. When the server socket
  hands out the frames of the client behind the identity that the router adds, the daemon executes
  exactly that message. When the library takes the frames it is given, what the daemon has sent are the
  identity, the tag and the encoded reply of the manager, in this order, and the client reads that
  reply from the frames behind the identity. This is for every command but a reload, with texts that
  fit in their fields of the message.
\<close>

theorem commands_are_served:
  fixes x :: "'w posix"
  assumes "da_server d = Some server" and "zs_handle server = Some h" and "da_manager d = Some m"
    and "hands_out (de_zmq e) h True (identity # command_frames msg) (px_os x) w"
    and "text_fits 32 (cm_serviceName msg)" and "text_fits 32 (cm_args msg)"
    and "CommandCodeFromByte (cm_command msg) \<noteq> Some CC_Reload"
    and "Execute (daemon_launcher e d) msg now (x\<lparr>px_os := w\<rparr>, m) = (reply, x', m')"
    and "takes_in (de_zmq e) h True [identity, MakeFrame command_tag, EncodeReply reply] (px_os x') w'"
  shows "command_rounds (Suc n) e now (x, d)
      = command_rounds n e now (x'\<lparr>px_os := w'\<rparr>, d\<lparr>da_manager := Some m'\<rparr>)
    \<and> parse_reply [MakeFrame command_tag, EncodeReply reply] = Inr (norm_reply reply)"
proof -
  let ?request = "\<lparr>cq_identity = identity, cq_delimiter = False, cq_command = msg\<rparr>"
  have msg: "norm_command msg = msg" using assms(5,6) by (simp add: norm_command_def)
  have same: "d\<lparr>da_server := Some server\<rparr> = d" "d\<lparr>da_manager := Some m', da_server := Some server\<rparr> = d\<lparr>da_manager := Some m'\<rparr>"
    using assms(1) by simp_all
  have frames: "reply_frames ?request reply = [identity, MakeFrame command_tag, EncodeReply reply]"
    by (simp add: reply_frames_def)
  have "CommandServer_Receive (de_zmq e) server (px_os x) = Some (RC_Ok, ?request, [], server, w)"
    using Receive_parts [OF assms(2,4)] parse_command_framed [of identity msg] msg
    by (simp add: CommandServer_Receive_def)
  moreover have "daemon_launcher e d = daemon_launcher e (d\<lparr>da_server := Some server\<rparr>)"
    by (simp add: daemon_launcher_def)
  moreover have "send_reply e ?request reply (x', d\<lparr>da_manager := Some m'\<rparr>)
      = (x'\<lparr>px_os := w'\<rparr>, d\<lparr>da_manager := Some m'\<rparr>)"
    using Send_taken [OF assms(2) _ assms(9)] assms(1) frames same
    by (simp add: send_reply_def CommandServer_Reply_def)
  ultimately have "command_rounds (Suc n) e now (x, d)
      = command_rounds n e now (x'\<lparr>px_os := w'\<rparr>, d\<lparr>da_manager := Some m'\<rparr>)"
    using assms(1,3,7,8) by (simp add: answer_def Let_def same)
  with parse_reply_framed [of ?request reply] frames show ?thesis by simp
qed

definition stop_message :: CommandMessage where
  "stop_message = \<lparr>cm_command = 79, cm_serviceName = ''a'', cm_args = []\<rparr>"

text \<open>The world of this library ends with the sizes of the frames sent, and whether another follows.\<close>

definition serving_env :: "(int \<times> int) list daemon_env" where
  "serving_env = (sample_env ([1] # command_frames stop_message))
     \<lparr>de_zmq := (sample_zmq ([1] # command_frames stop_message))
        \<lparr>z_send := \<lambda>h frame follows dontWait w. (None, w @ [(int (length frame), if follows then 1 else 0)])\<rparr>\<rparr>"

definition serving_daemon :: Daemon where
  "serving_daemon = (snd sample_daemon)
     \<lparr>da_server := Some \<lparr>zs_handle = Some 1, zs_lastError = 0\<rparr>, da_manager := Some (new_Manager [])\<rparr>"

theorem commands_are_served_witness:
  "\<exists>xd. command_rounds 1 serving_env (instant 5) (sample_world, serving_daemon) = Some xd
    \<and> drop 3 (px_os (fst xd)) = [(1, 1), (3, 1), (128, 0)]"
proof -
  let ?w = "[(0, 0), (0, 0), (0, 0)]"
  obtain reply x' m' where run: "Execute (daemon_launcher serving_env serving_daemon) stop_message (instant 5)
      (sample_world\<lparr>px_os := ?w\<rparr>, new_Manager []) = (reply, x', m')" by (rule prod_cases3)
  then have x': "px_os x' = ?w"
    by (auto simp: Execute_def stop_message_def CommandCodeFromByte_def new_Manager_def FindMutable_def
        all_services_def Let_def sample_world_def split: if_splits)
  have asked: "hands_out (de_zmq serving_env) 1 True ([1] # command_frames stop_message) (px_os sample_world) ?w"
    by (simp add: serving_env_def sample_env_def sample_zmq_def command_frames_def sample_world_def)
  have taken: "takes_in (de_zmq serving_env) 1 True [[1], MakeFrame command_tag, EncodeReply reply] (px_os x')
      (?w @ [(1, 1), (3, 1), (128, 0)])"
    by (simp add: serving_env_def sample_env_def x' length_EncodeReply MakeFrame_def to_bytes_def command_tag_def)
  show ?thesis
    using commands_are_served [OF _ _ _ asked _ _ _ run taken, where n = 0]
    by (simp add: serving_daemon_def stop_message_def text_fits_def CommandCodeFromByte_def)
qed

end
