(* ===== verification/Status_Table.thy ===== *)
theory Status_Table
  imports Detailed_Report Process_Launcher Float64
begin

text \<open>
  The status table of the command line (\<open>src/manager/include/StatusTable.hpp\<close>, \<open>StatusTable.cpp\<close>):
  numbers, sizes and durations as text, one row of cells per service, the columns padded to a common
  width. \<open>printf\<close> of a double prints the exact value rounded to the decimals asked for, ties to even,
  into a buffer of 32 characters. Differences of 64-bit times are taken without wrap-around.
\<close>

section \<open>Numbers\<close>

definition zero_padded :: "nat \<Rightarrow> nat \<Rightarrow> string" where
  "zero_padded width n = replicate (width - length (digits10 n)) CHR ''0'' @ digits10 n"

text \<open>\<open>%.*f\<close>: the digits before the point, the point and the decimals.\<close>

definition print_decimal :: "nat \<Rightarrow> nat \<Rightarrow> string" where
  "print_decimal decimals n =
     digits10 (n div 10 ^ decimals)
       @ (if decimals = 0 then [] else CHR ''.'' # zero_padded decimals (n mod 10 ^ decimals))"

definition print_fixed :: "double \<Rightarrow> nat \<Rightarrow> string" where
  "print_fixed d decimals =
     (let minus = (\<lambda>s. if s then ''-'' else [])
      in case fp_of d of
           FNaN \<Rightarrow> minus (2 ^ 63 \<le> unat d) @ ''nan''
         | FInf s \<Rightarrow> minus s @ ''inf''
         | FFin s m e \<Rightarrow>
             minus s @ print_decimal decimals
               (case scale_pair (m * 10 ^ decimals) 1 (- e) of (a, b) \<Rightarrow> round_div a b))"

definition Fixed :: "double \<Rightarrow> nat \<Rightarrow> string" where
  "Fixed d decimals = take 31 (print_fixed d decimals)"

definition unknown_cell :: string where "unknown_cell = ''-''"

definition FormatPercent :: "double \<Rightarrow> string" where
  "FormatPercent percent = (if fp_less percent double_zero then unknown_cell else Fixed percent 1)"

text \<open>The unit of a size: the value is divided while it is at least 1024 and units are left.\<close>

fun byte_unit :: "double \<Rightarrow> string list \<Rightarrow> double \<times> string" where
  "byte_unit v [] = (v, [])"
| "byte_unit v [u] = (v, u)"
| "byte_unit v (u # u' # units) =
     (if fp_leq (double_of_int 1024) v then byte_unit (fp_div v (double_of_int 1024)) (u' # units) else (v, u))"

definition FormatBytes :: "64 word \<Rightarrow> string" where
  "FormatBytes bytes =
     (if bytes < 1024 then to_string (uint bytes) @ '' B''
      else case byte_unit (fp_div (double_of_word bytes) (double_of_int 1024))
                  [''KiB'', ''MiB'', ''GiB'', ''TiB'', ''PiB''] of
             (v, u) \<Rightarrow> Fixed v 1 @ '' '' @ u)"

definition ns_per_second :: int where "ns_per_second = 1000000000"

definition FormatDuration :: "nanos \<Rightarrow> string" where
  "FormatDuration nanoseconds =
     (let seconds = nat (max nanoseconds 0 div ns_per_second);
          two = (\<lambda>big bigUnit small smallUnit. digits10 big @ bigUnit @ '' '' @ zero_padded 2 small @ smallUnit)
      in take 31
          (if seconds < 60 then digits10 seconds @ ''s''
           else if seconds < 3600 then two (seconds div 60) ''m'' (seconds mod 60) ''s''
           else if seconds < 86400 then two (seconds div 3600) ''h'' (seconds div 60 mod 60) ''m''
           else two (seconds div 86400) ''d'' (seconds div 3600 mod 24) ''h''))"

section \<open>Rows\<close>

record Column =
  col_header :: string
  col_right :: bool

definition Pad :: "string \<Rightarrow> nat \<Rightarrow> bool \<Rightarrow> string" where
  "Pad t width right =
     (if length t \<ge> width then t
      else let fill = replicate (width - length t) CHR '' '' in if right then fill @ t else t @ fill)"

definition Has :: "ServiceRecord \<Rightarrow> byte \<Rightarrow> bool" where
  "Has service flag \<longleftrightarrow> and (sr_flags service) flag \<noteq> 0"

definition StateText :: "ServiceRecord \<Rightarrow> int \<Rightarrow> string" where
  "StateText service snapshot =
     ServiceStateName (sr_state service)
       @ (if sr_state service = Backoff \<and> sr_nextRestartTime service > snapshot
          then '' '' @ FormatDuration (sr_nextRestartTime service - snapshot) else [])
       @ (if sr_missedBeats service > 0 \<and> IsAlive (sr_state service)
          then '' ('' @ to_string (sr_missedBeats service) @ '' missed)'' else [])
       @ (if Has service service_flag_removing then '' (removing)'' else [])"

definition LastExitText :: "ServiceRecord \<Rightarrow> int \<Rightarrow> bool \<Rightarrow> string" where
  "LastExitText service snapshot signals =
     (if sr_lastExitTime service = 0 then unknown_cell
      else DescribeExit (sr_lastExitCode service) signals @ '', ''
             @ FormatDuration (snapshot - sr_lastExitTime service) @ '' ago'')"

definition cell_if :: "bool \<Rightarrow> string \<Rightarrow> string" where
  "cell_if known t = (if known then t else unknown_cell)"

definition wide_cells :: "ServiceRecord \<Rightarrow> int \<Rightarrow> string list" where
  "wide_cells service snapshot =
     (let usage = Has service service_flag_usage
      in [RestartModeName (sr_restartMode service),
          cell_if usage (to_string (sr_threadCount service)),
          cell_if (usage \<and> sr_openFiles service \<ge> 0) (to_string (sr_openFiles service)),
          cell_if usage (FormatBytes (sr_ioReadBytes service)),
          cell_if usage (FormatBytes (sr_ioWriteBytes service)),
          cell_if (Has service service_flag_heartbeat \<and> IsAlive (sr_state service))
            (FormatDuration (snapshot - sr_lastSeen service) @ '' ago''),
          sr_binary service])"

definition Row :: "ServiceRecord \<Rightarrow> int \<Rightarrow> bool \<Rightarrow> bool \<Rightarrow> string list" where
  "Row service snapshot wide signals =
     (let usage = Has service service_flag_usage;
          gpu = Has service service_flag_gpu;
          alive = IsAlive (sr_state service)
      in [sr_name service,
          StateText service snapshot,
          cell_if (sr_pid service > 0) (to_string (sr_pid service)),
          cell_if (alive \<and> sr_startTime service > 0) (FormatDuration (snapshot - sr_startTime service)),
          to_string (sr_restartCount service),
          cell_if usage (FormatPercent (sr_cpuPercent service)),
          cell_if usage (FormatBytes (sr_memoryBytes service)),
          cell_if gpu (FormatPercent (sr_gpuPercent service)),
          cell_if gpu (FormatBytes (sr_gpuMemoryBytes service)),
          LastExitText service snapshot signals]
         @ (if wide then wide_cells service snapshot else []))"

section \<open>The table\<close>

abbreviation newline_text :: string where "newline_text \<equiv> [CHR 0x0A]"

definition gpu_line :: "GpuRecord \<Rightarrow> string" where
  "gpu_line gpu =
     ''gpu'' @ to_string (uint (gr_index gpu)) @ '': '' @ gr_name gpu @ '', ''
       @ FormatPercent (gr_utilizationPercent gpu) @ ''% busy, '' @ FormatBytes (gr_memoryUsedBytes gpu)
       @ '' of '' @ FormatBytes (gr_memoryTotalBytes gpu)
       @ (if gr_temperatureC gpu > 0 then '', '' @ to_string (uint (gr_temperatureC gpu)) @ '' C'' else [])
       @ (if gr_powerMilliwatts gpu > 0
          then '', '' @ Fixed (fp_div (double_of_word (gr_powerMilliwatts gpu)) (double_of_int 1000)) 1 @ '' W''
          else [])
       @ newline_text"

definition RenderSummary :: "DetailedReport \<Rightarrow> string" where
  "RenderSummary rep =
     (let system = dr_system rep;
          used = (if sy_memoryTotalBytes system > sy_memoryAvailableBytes system
                  then sy_memoryTotalBytes system - sy_memoryAvailableBytes system else 0)
      in ''berayprocessmanager '' @ dr_managerVersion rep @ '' on ''
           @ (if dr_hostName rep = [] then ''?'' else dr_hostName rep)
           @ '', pid '' @ to_string (dr_managerPid rep) @ '', up ''
           @ FormatDuration (dr_snapshotTime rep - dr_managerStartTime rep)
           @ (if and (dr_flags rep) report_flag_stopping \<noteq> 0 then '', shutting down'' else []) @ newline_text
           @ ''host: CPU '' @ FormatPercent (sy_cpuPercent system) @ ''% of '' @ to_string (uint (sy_cpuCount system))
           @ '' cores, memory '' @ FormatBytes used @ '' used of '' @ FormatBytes (sy_memoryTotalBytes system)
           @ '', load '' @ Fixed (sy_loadAverage1 system) 2 @ '' '' @ Fixed (sy_loadAverage5 system) 2
           @ '' '' @ Fixed (sy_loadAverage15 system) 2 @ newline_text
           @ concat (map gpu_line (dr_gpus rep)))"

definition columns_of :: "(string \<times> bool) list \<Rightarrow> Column list" where
  "columns_of cs = map (\<lambda>(h, r). \<lparr>col_header = h, col_right = r\<rparr>) cs"

definition table_columns :: "bool \<Rightarrow> Column list" where
  "table_columns wide =
     columns_of [(''SERVICE'', False), (''STATE'', False), (''PID'', True), (''UPTIME'', True),
                 (''RESTARTS'', True), (''CPU%'', True), (''MEMORY'', True), (''GPU%'', True),
                 (''VRAM'', True), (''LAST EXIT'', False)]
       @ (if wide
          then columns_of [(''MODE'', False), (''THREADS'', True), (''FILES'', True), (''READ'', True),
                           (''WRITE'', True), (''HEARTBEAT'', True), (''BINARY'', False)]
          else [])"

text \<open>The widths grow with the cells of a row.\<close>

fun widen :: "string list \<Rightarrow> nat list \<Rightarrow> nat list" where
  "widen (cell # cells) (w # ws) = max w (length cell) # widen cells ws"
| "widen _ ws = ws"

definition column_widths :: "Column list \<Rightarrow> string list list \<Rightarrow> nat list" where
  "column_widths columns rows = fold widen rows (map (\<lambda>c. length (col_header c)) columns)"

text \<open>One line: a last cell that is aligned to the left is not padded.\<close>

fun line_cells :: "Column list \<Rightarrow> nat list \<Rightarrow> string list \<Rightarrow> string" where
  "line_cells (c # cs) (w # ws) [cell] = (if \<not> col_right c then cell else Pad cell w True)"
| "line_cells (c # cs) (w # ws) (cell # cells) = Pad cell w (col_right c) @ ''  '' @ line_cells cs ws cells"
| "line_cells _ _ _ = []"

definition table_lines :: "bool \<Rightarrow> DetailedReport \<Rightarrow> string list" where
  "table_lines wide rep =
     (let columns = table_columns wide;
          rows = map (\<lambda>s. Row s (dr_snapshotTime rep) wide (and (dr_flags rep) report_flag_windows = 0)) (dr_services rep);
          widths = column_widths columns rows
      in map (line_cells columns widths) (map col_header columns # rows))"

definition Render :: "bool \<Rightarrow> DetailedReport \<Rightarrow> string" where
  "Render wide rep =
     RenderSummary rep @ newline_text
       @ (if dr_services rep = [] then ''No services are configured.'' @ newline_text
          else concat (map (\<lambda>l. l @ newline_text) (table_lines wide rep)))"

section \<open>The columns are aligned\<close>

lemma length_Pad: "length (Pad t w r) = max (length t) w"
  by (simp add: Pad_def Let_def)

lemma length_Row [simp]: "length (Row s t wide signals) = length (table_columns wide)"
  by (simp add: Row_def wide_cells_def table_columns_def columns_of_def Let_def)

lemma length_widen [simp]: "length (widen cells ws) = length ws"
  by (induction cells ws rule: widen.induct) auto

lemma length_column_widths [simp]: "length (column_widths columns rows) = length columns"
proof -
  have "length (fold widen rows ws) = length ws" for ws by (induction rows arbitrary: ws) auto
  then show ?thesis by (simp add: column_widths_def)
qed

lemma nth_widen:
  "length cells = length ws \<Longrightarrow> i < length ws \<Longrightarrow> widen cells ws ! i = max (ws ! i) (length (cells ! i))"
  by (induction cells ws arbitrary: i rule: widen.induct) (auto simp: nth_Cons split: nat.splits)

lemma fold_widen:
  assumes "\<forall>row \<in> set rows. length row = length ws" and "i < length ws"
  shows "ws ! i \<le> fold widen rows ws ! i \<and> (\<forall>row \<in> set rows. length (row ! i) \<le> fold widen rows ws ! i)"
  using assms
proof (induction rows arbitrary: ws)
  case (Cons row rows)
  from Cons.IH [of "widen row ws"] Cons.prems show ?case by (auto simp: nth_widen)
qed simp

text \<open>
  Where the cell of column \<open>i\<close> starts does not depend on the line.
\<close>

definition column_start :: "nat list \<Rightarrow> nat \<Rightarrow> nat" where
  "column_start widths i = sum_list (map (\<lambda>w. w + 2) (take i widths))"

text \<open>The cell of column \<open>i\<close> as a line shows it.\<close>

definition shown_cell :: "Column list \<Rightarrow> nat list \<Rightarrow> string list \<Rightarrow> nat \<Rightarrow> string" where
  "shown_cell columns widths cells i =
     (if length cells = i + 1 \<and> \<not> col_right (columns ! i) then cells ! i
      else Pad (cells ! i) (widths ! i) (col_right (columns ! i)))"

lemma shown_cell_Suc: "shown_cell (c # cs) (w # ws) (cell # cells) (Suc j) = shown_cell cs ws cells j"
  by (auto simp: shown_cell_def)

lemma line_cells_column:
  assumes "length cells = length columns" and "length widths = length columns"
    and "\<forall>i < length cells. length (cells ! i) \<le> widths ! i" and "i < length cells"
  shows "\<exists>before after. line_cells columns widths cells = before @ shown_cell columns widths cells i @ after
    \<and> length before = column_start widths i"
  using assms
proof (induction columns widths cells arbitrary: i rule: line_cells.induct)
  case (1 c cs w ws cell)
  then show ?case by (auto simp: column_start_def shown_cell_def)
next
  case (2 c cs w ws cell cell' cells)
  show ?case
  proof (cases i)
    case 0
    then show ?thesis by (auto simp: column_start_def shown_cell_def intro!: exI [of _ "[]"])
  next
    case (Suc j)
    have "\<forall>k < length (cell' # cells). length ((cell' # cells) ! k) \<le> ws ! k" using 2(4) by (auto dest: spec [of _ "Suc _"])
    from 2(1) [OF _ _ this, of j] 2(2,3,5) Suc obtain before after where
      "line_cells cs ws (cell' # cells) = before @ shown_cell cs ws (cell' # cells) j @ after"
      and "length before = column_start ws j" by auto
    moreover have "length cell \<le> w" using 2(4) by fastforce
    ultimately show ?thesis
      using Suc by (intro exI [of _ "Pad cell w (col_right c) @ ''  '' @ before"] exI [of _ after])
        (simp add: column_start_def length_Pad shown_cell_Suc)
  qed
qed simp_all

text \<open>Every line of the table shows the cell of a column at the same place.\<close>

lemma table_line_column:
  assumes "cells = map col_header (table_columns wide) \<or> cells \<in> set rows"
    and "\<forall>row \<in> set rows. length row = length (table_columns wide)" and "i < length (table_columns wide)"
  shows "\<exists>before after. line_cells (table_columns wide) (column_widths (table_columns wide) rows) cells
      = before @ shown_cell (table_columns wide) (column_widths (table_columns wide) rows) cells i @ after
    \<and> length before = column_start (column_widths (table_columns wide) rows) i"
proof (rule line_cells_column)
  let ?ws = "map (\<lambda>c. length (col_header c)) (table_columns wide)"
  show "length cells = length (table_columns wide)" using assms by auto
  then show "\<forall>k < length cells. length (cells ! k) \<le> column_widths (table_columns wide) rows ! k"
    using fold_widen [of rows ?ws] assms by (auto simp: column_widths_def)
  show "i < length cells" using assms by auto
qed simp

text \<open>The cells of every line, the headers first, and the widths of the columns.\<close>

definition table_cells :: "bool \<Rightarrow> DetailedReport \<Rightarrow> string list list" where
  "table_cells wide rep =
     map col_header (table_columns wide)
       # map (\<lambda>s. Row s (dr_snapshotTime rep) wide (and (dr_flags rep) report_flag_windows = 0)) (dr_services rep)"

definition table_widths :: "bool \<Rightarrow> DetailedReport \<Rightarrow> nat list" where
  "table_widths wide rep = column_widths (table_columns wide) (tl (table_cells wide rep))"

text \<open>
  C37: the status table is aligned. In every line, the headers as well as the row of every service, the
  cell of a column starts at the place that the widths of the columns before it give, which is the same
  for all lines, and no cell is wider than its column.
\<close>

theorem status_table_is_aligned:
  assumes "line < length (table_lines wide rep)" and "i < length (table_columns wide)"
  shows "\<exists>before after.
      table_lines wide rep ! line
        = before @ shown_cell (table_columns wide) (table_widths wide rep) (table_cells wide rep ! line) i @ after
    \<and> length before = column_start (table_widths wide rep) i
    \<and> length (table_cells wide rep ! line ! i) \<le> table_widths wide rep ! i"
proof -
  let ?cells = "table_cells wide rep ! line" and ?columns = "table_columns wide" and ?widths = "table_widths wide rep"
  have lines: "table_lines wide rep = map (line_cells ?columns ?widths) (table_cells wide rep)"
    by (simp add: table_lines_def table_cells_def table_widths_def Let_def)
  have line: "line < length (table_cells wide rep)" using assms(1) by (simp add: lines)
  then have cells: "?cells = map col_header ?columns \<or> ?cells \<in> set (tl (table_cells wide rep))"
    using nth_mem [OF line] by (auto simp: table_cells_def)
  have rows: "\<forall>row \<in> set (tl (table_cells wide rep)). length row = length ?columns"
    by (auto simp: table_cells_def)
  from table_line_column [of ?cells wide "tl (table_cells wide rep)" i] cells rows assms(2)
  obtain before after where shown: "line_cells ?columns ?widths ?cells = before @ shown_cell ?columns ?widths ?cells i @ after"
    "length before = column_start ?widths i" by (auto simp: table_widths_def)
  moreover have "length (?cells ! i) \<le> ?widths ! i"
    using fold_widen [of "tl (table_cells wide rep)" "map (\<lambda>c. length (col_header c)) ?columns" i] cells rows assms(2)
    by (auto simp: table_widths_def column_widths_def)
  moreover have "table_lines wide rep ! line = line_cells ?columns ?widths ?cells" using line by (simp add: lines)
  ultimately show ?thesis by metis
qed

text \<open>A report of one service.\<close>

definition sample_report :: DetailedReport where
  "sample_report =
     \<lparr>dr_managerPid = 99, dr_snapshotTime = 10, dr_managerStartTime = 1, dr_publishIntervalMs = 1000,
      dr_flags = 0, dr_system = default_SystemRecord, dr_hostName = ''rig-01'', dr_managerVersion = ''1.0.0'',
      dr_services =
        [\<lparr>sr_name = ''vision-pipeline'', sr_binary = ''vision'', sr_description = [], sr_pid = 42, sr_state = Running,
          sr_restartMode = Always, sr_flags = 0, sr_restartCount = 0, sr_missedBeats = 0, sr_lastExitCode = 0,
          sr_processCount = 0, sr_threadCount = 0, sr_openFiles = 0, sr_startTime = 1, sr_lastSeen = 0,
          sr_lastExitTime = 0, sr_nextRestartTime = 0, sr_cpuTimeUsec = 0, sr_cpuPercent = double_zero,
          sr_memoryBytes = 0, sr_memoryPeakBytes = 0, sr_memoryLimitBytes = 0, sr_ioReadBytes = 0,
          sr_ioWriteBytes = 0, sr_gpuPercent = double_zero, sr_gpuMemoryBytes = 0, sr_oomKills = 0,
          sr_cpuLimitPercent = 0\<rparr>],
      dr_gpus = []\<rparr>"

theorem status_table_is_aligned_witness:
  "\<exists>before after. table_lines False sample_report ! 0
      = before @ shown_cell (table_columns False) (table_widths False sample_report) (table_cells False sample_report ! 0) 1 @ after
    \<and> length before = 17"
proof -
  have start: "column_start (table_widths False sample_report) 1 = 17"
    by (simp add: column_start_def table_widths_def column_widths_def table_cells_def sample_report_def
        table_columns_def columns_of_def Row_def Let_def)
  have lines: "length (table_lines False sample_report) = 2" by (simp add: table_lines_def sample_report_def Let_def)
  have columns: "length (table_columns False) = 10" by (simp add: table_columns_def columns_of_def)
  have "0 < length (table_lines False sample_report)" "1 < length (table_columns False)"
    by (simp_all only: lines columns)
  from status_table_is_aligned [OF this] start show ?thesis by metis
qed

end
