(* ===== verification/Main_Program.thy ===== *)
theory Main_Program
  imports Daemon Status_Table
begin

text \<open>
  The program (\<open>src/manager/src/main.cpp\<close>): it parses the command line and runs the manager, prints
  the status table, sends a command or checks a configuration file. The result of each mode is its
  exit code. The output streams, the file system and the terminal are in the record \<open>main_env\<close>
  beside the environment of the daemon; the value \<open>None\<close> is a program that never ends.
\<close>

record 'w main_env =
  me_daemon :: "'w daemon_env"
  me_exists :: "string \<Rightarrow> 'w \<Rightarrow> bool"
  me_stdout :: "string \<Rightarrow> 'w \<Rightarrow> 'w"
  me_stderr :: "string \<Rightarrow> 'w \<Rightarrow> 'w"
  me_install :: "'w \<Rightarrow> 'w"
  me_escapes :: "'w \<Rightarrow> bool"
  me_zmqVersion :: string

definition exit_ok :: int where "exit_ok = 0"
definition exit_refused :: int where "exit_refused = 1"
definition exit_usage :: int where "exit_usage = 2"
definition exit_no_answer :: int where "exit_no_answer = 3"
definition report_wait_margin :: millis where "report_wait_margin = 2000"

lemmas exit_codes = exit_ok_def exit_refused_def exit_usage_def exit_no_answer_def

definition clear_screen :: string where "clear_screen = [CHR 0x1B] @ ''[H'' @ [CHR 0x1B] @ ''[2J''"

definition line_end :: string where "line_end = [CHR 0x0A]"

text \<open>Reading the configuration, and the steady clock.\<close>

definition read_config :: "'w main_env \<Rightarrow> string \<Rightarrow> 'w \<Rightarrow> (ConfigError + Config) option" where
  "read_config me path w = ParseFile (\<lambda>p. de_configFile (me_daemon me) p w) path"

definition steady_clock :: "'w main_env \<Rightarrow> 'w \<Rightarrow> nanos \<times> 'w" where
  "steady_clock me w = (case de_now (me_daemon me) w of (now, w) \<Rightarrow> (in_steady now, w))"

definition DescribeConfigError :: "string \<Rightarrow> ConfigError \<Rightarrow> string" where
  "DescribeConfigError path error =
     path @ (if ce_line error > 0 then '':'' @ to_string (ce_line error) else []) @ '': '' @ ce_message error"

section \<open>Endpoints\<close>

text \<open>The endpoints and the publish interval, or the exit code of a configuration that is in error.\<close>

definition ResolveEndpoints ::
  "'w main_env \<Rightarrow> Options \<Rightarrow> 'w \<Rightarrow> ((int + string \<times> string \<times> millis) \<times> 'w) option" where
  "ResolveEndpoints me options w =
     (let path = op_configPath options;
          pick = (\<lambda>command rep interval.
            Inr (if op_commandEndpoint options \<noteq> [] then op_commandEndpoint options else command,
                 if op_reportEndpoint options \<noteq> [] then op_reportEndpoint options else rep, interval));
          defaults = pick ''tcp://127.0.0.1:5557'' ''tcp://127.0.0.1:6668'' 1000
      in if op_configGiven options \<or> me_exists me path w then
           (case read_config me path w of
              None \<Rightarrow> None
            | Some (Inr config) \<Rightarrow>
                Some (pick (ConnectEndpoint (ms_commandEndpoint (cf_manager config)))
                        (ConnectEndpoint (ms_reportEndpoint (cf_manager config)))
                        (ms_publishInterval (cf_manager config)), w)
            | Some (Inl error) \<Rightarrow>
                if op_configGiven options
                then Some (Inl exit_usage, me_stderr me (DescribeConfigError path error @ line_end) w)
                else Some (defaults, w))
         else Some (defaults, w))"

section \<open>Checking a configuration\<close>

definition check_line :: "ServiceConfig \<Rightarrow> string" where
  "check_line s =
     ''  '' @ sc_name s @ '': '' @ sc_binary s @ '' (restart '' @ RestartModeName (sc_restart s)
       @ (if sc_autostart s then '', autostart'' else [])
       @ (case sc_dependsOn s of [] \<Rightarrow> []
          | first # others \<Rightarrow> '', after '' @ first @ (if others \<noteq> [] then '' and others'' else []))
       @ '')'' @ line_end"

definition check_text :: "string \<Rightarrow> Config \<Rightarrow> string" where
  "check_text path config =
     path @ '': '' @ to_string (int (length (cf_services config))) @ '' services'' @ line_end
       @ ''  health '' @ ms_healthEndpoint (cf_manager config) @ '', report ''
       @ ms_reportEndpoint (cf_manager config) @ '', commands '' @ ms_commandEndpoint (cf_manager config) @ line_end
       @ concat (map check_line (cf_services config))"

definition RunCheck :: "'w main_env \<Rightarrow> Options \<Rightarrow> 'w \<Rightarrow> (int \<times> 'w) option" where
  "RunCheck me options w =
     (case read_config me (op_configPath options) w of
        None \<Rightarrow> None
      | Some (Inl error) \<Rightarrow>
          Some (exit_usage, me_stderr me (DescribeConfigError (op_configPath options) error @ line_end) w)
      | Some (Inr config) \<Rightarrow> Some (exit_ok, me_stdout me (check_text (op_configPath options) config) w))"

section \<open>Running the manager\<close>

definition RunManager :: "'w main_env \<Rightarrow> Options \<Rightarrow> 'w \<Rightarrow> (int \<times> 'w posix) option" where
  "RunManager me options w =
     (let e = me_daemon me; world = (\<lambda>w. \<lparr>px_os = w, px_children = []\<rparr>)
      in case read_config me (op_configPath options) w of
           None \<Rightarrow> None
         | Some (Inl error) \<Rightarrow> Some (exit_usage, world w)
         | Some (Inr config) \<Rightarrow>
             (let level = (case op_logLevel options of Some l \<Rightarrow> l | None \<Rightarrow> ms_logLevel (cf_manager config));
                  (x, d) = new_Daemon e config level (world (me_install me w));
                  d = (case op_logLevel options of None \<Rightarrow> d | Some l \<Rightarrow> OverrideLogLevel l d)
              in case Daemon_Start e (x, d) of
                   ((code, problem), xd) \<Rightarrow>
                     if code \<noteq> DaemonCode_Ok then Some (exit_refused, Daemon_Destroy e xd)
                     else case Daemon_Run e xd of
                       None \<Rightarrow> None
                     | Some (status, xd) \<Rightarrow> Some (status, Daemon_Destroy e xd)))"

section \<open>The status table\<close>

definition client_code :: "ClientCode \<Rightarrow> int" where
  "client_code code = (if code = CL_Timeout then exit_no_answer else exit_refused)"

definition close_client :: "'w main_env \<Rightarrow> ManagerClient \<Rightarrow> 'w \<Rightarrow> 'w" where
  "close_client me mc w = close_socket (de_zmq (me_daemon me)) (mc_subscriber mc) w"

definition status_once ::
  "'w main_env \<Rightarrow> bool \<Rightarrow> millis \<Rightarrow> ManagerClient \<Rightarrow> 'w \<Rightarrow> (int \<times> 'w) option" where
  "status_once me wide timeout mc w =
     (case WaitForReport (de_zmq (me_daemon me)) (steady_clock me) timeout mc w of
        None \<Rightarrow> None
      | Some (Inl (code, error), mc, w) \<Rightarrow>
          Some (client_code code, close_client me mc (me_stderr me (error @ line_end) w))
      | Some (Inr snapshot, mc, w) \<Rightarrow>
          Some (exit_ok, close_client me mc (me_stdout me (Render wide snapshot) w)))"

text \<open>The watch view, until a stop request.\<close>

partial_function (option) watch_loop ::
  "'w main_env \<Rightarrow> bool \<Rightarrow> bool \<Rightarrow> millis \<Rightarrow> ManagerClient \<Rightarrow> 'w \<Rightarrow> (int \<times> ManagerClient \<times> 'w) option" where
  "watch_loop me wide escapes timeout mc w =
     (case de_takeStop (me_daemon me) w of (stop, w) \<Rightarrow>
        if stop then Some (exit_ok, mc, w)
        else case WaitForReport (de_zmq (me_daemon me)) (steady_clock me) timeout mc w of
          None \<Rightarrow> None
        | Some (r, mc, w) \<Rightarrow>
            (case r of
               Inl (code, error) \<Rightarrow>
                 if code = CL_Timeout
                 then watch_loop me wide escapes timeout mc (me_stderr me (error @ line_end) w)
                 else Some (exit_refused, mc, me_stderr me (error @ line_end) w)
             | Inr snapshot \<Rightarrow>
                 watch_loop me wide escapes timeout mc
                   (me_stdout me ((if escapes then clear_screen else line_end) @ Render wide snapshot) w)))"

definition RunStatus :: "'w main_env \<Rightarrow> Options \<Rightarrow> 'w \<Rightarrow> (int \<times> 'w) option" where
  "RunStatus me options w =
     (case ResolveEndpoints me options w of
        None \<Rightarrow> None
      | Some (Inl code, w) \<Rightarrow> Some (code, w)
      | Some (Inr (command, rep, interval), w) \<Rightarrow>
          (let timeout = (if op_timeoutGiven options then op_timeout options
                          else max (op_timeout options) (interval + report_wait_margin));
               mc = new_ManagerClient command rep
           in if \<not> op_watch options then status_once me (op_wide options) timeout mc w
              else map_option (\<lambda>(code, mc, w). (code, close_client me mc w))
                     (watch_loop me (op_wide options) (me_escapes me w) timeout mc (me_install me w))))"

section \<open>Sending a command\<close>

fun command_of_mode :: "Mode \<Rightarrow> CommandCode" where
  "command_of_mode Mode_Start = CC_Start"
| "command_of_mode Mode_Stop = CC_Stop"
| "command_of_mode Mode_Restart = CC_Restart"
| "command_of_mode Mode_Heartbeat = CC_Heartbeat"
| "command_of_mode _ = CC_Reload"

definition reply_line :: "CommandCode \<Rightarrow> string \<Rightarrow> CommandReply \<Rightarrow> string" where
  "reply_line code service reply =
     CommandName code @ (if service = [] then [] else '' '' @ service) @ '': ''
       @ CommandResultName (cr_result reply)
       @ (if cr_message reply = [] then [] else '' ('' @ cr_message reply @ '')'') @ line_end"

definition RunCommand :: "'w main_env \<Rightarrow> Options \<Rightarrow> 'w \<Rightarrow> (int \<times> 'w) option" where
  "RunCommand me options w =
     (case ResolveEndpoints me options w of
        None \<Rightarrow> None
      | Some (Inl code, w) \<Rightarrow> Some (code, w)
      | Some (Inr (command, rep, interval), w) \<Rightarrow>
          (let code = command_of_mode (op_mode options)
           in case SendCommand (de_zmq (me_daemon me)) (steady_clock me) code (op_serviceName options)
                     (op_timeout options) (new_ManagerClient command rep) w of
                None \<Rightarrow> None
              | Some (Inl (sent, error), w) \<Rightarrow> Some (client_code sent, me_stderr me (error @ line_end) w)
              | Some (Inr reply, w) \<Rightarrow>
                  (let line = reply_line code (op_serviceName options) reply
                   in if IsSuccess (cr_result reply) then Some (exit_ok, me_stdout me line w)
                      else Some (exit_refused, me_stderr me line w))))"

section \<open>The program\<close>

text \<open>The name of the program is what follows the last slash of the first argument.\<close>

definition file_name :: "string \<Rightarrow> string" where
  "file_name path = rev (takeWhile (\<lambda>c. c \<noteq> CHR ''/'') (rev path))"

definition program_name :: "string list \<Rightarrow> string" where
  "program_name argv = (case argv of [] \<Rightarrow> ''berayprocessmanager'' | a # as \<Rightarrow> file_name a)"

definition Dispatch :: "'w main_env \<Rightarrow> string list \<Rightarrow> 'w \<Rightarrow> (int \<times> 'w) option" where
  "Dispatch me argv w =
     (let program = program_name argv
      in case ParseCommandLine (tl argv) of
           Inl (code, error) \<Rightarrow> Some (exit_usage, me_stderr me (program @ '': '' @ error @ line_end) w)
         | Inr options \<Rightarrow>
             (case op_mode options of
                Mode_Help \<Rightarrow> Some (exit_ok, me_stdout me (UsageText program) w)
              | Mode_Version \<Rightarrow>
                  Some (exit_ok, me_stdout me (manager_name @ '' '' @ manager_version @ '' (libzmq ''
                          @ me_zmqVersion me @ '')'' @ line_end) w)
              | Mode_Check \<Rightarrow> RunCheck me options w
              | Mode_Run \<Rightarrow> map_option (\<lambda>(code, x). (code, px_os x)) (RunManager me options w)
              | Mode_Status \<Rightarrow> RunStatus me options w
              | _ \<Rightarrow> RunCommand me options w))"

end
