(* ===== verification/Main_Props.thy ===== *)
theory Main_Props
  imports Main_Program Daemon_Props
begin

text \<open>
  What the program leaves to its caller: no process object survives the manager, and the exit code
  tells what happened.
\<close>

section \<open>Nothing is left behind\<close>

lemma run_rounds_inv:
  fixes xd :: "'w running"
  assumes "run_rounds e xd = Some xd'"
  shows "daemon_inv e xd \<longrightarrow> daemon_inv e xd'"
proof (rule run_rounds.raw_induct [of "\<lambda>e xd xd'. daemon_inv e xd \<longrightarrow> daemon_inv e xd'"])
  fix run :: "'w daemon_env \<Rightarrow> 'w running \<Rightarrow> 'w running option" and e xd xd'
  assume IH: "\<And>e xd xd'. run e xd = Some xd' \<Longrightarrow> daemon_inv e xd \<longrightarrow> daemon_inv e xd'"
    and step: "(case daemon_round e xd of None \<Rightarrow> None
      | Some (final, xd) \<Rightarrow> if final then Some xd else run e xd) = Some xd'"
  obtain final a where a: "daemon_round e xd = Some (final, a)" using step by (auto split: option.splits)
  with step have "if final then xd' = a else run e a = Some xd'" by (auto split: if_splits)
  with IH [of e a xd'] dsteps_inv [OF daemon_round_steps [OF a]]
  show "daemon_inv e xd \<longrightarrow> daemon_inv e xd'" by (auto split: if_splits)
qed (rule assms)

lemma Daemon_Run_inv:
  fixes xd :: "'w running"
  assumes "Daemon_Run e xd = Some (code, xd')" and "daemon_inv e xd"
  shows "daemon_inv e xd' \<and> code = 0"
proof -
  from assms obtain a where a: "run_rounds e xd = Some a" and code: "code = 0"
    and xd': "xd' = (case da_cgroups (snd a) of None \<Rightarrow> a
      | Some tree \<Rightarrow> RemoveTaskGroups e (ListGroups (de_os e) (px_os (fst a)) tree) a)"
    by (auto simp: Daemon_Run_def daemon_inv_def split: option.splits)
  have inv: "daemon_inv e a" using run_rounds_inv [OF a] assms(2) by blast
  show ?thesis
  proof (cases "da_cgroups (snd a)")
    case (Some tree)
    then have "xd' = RemoveTaskGroups e (ListGroups (de_os e) (px_os (fst a)) tree) a" using xd' by simp
    with inv_core [OF RemoveTaskGroups_core inv] code show ?thesis by simp
  qed (use xd' inv code in simp)
qed

lemma destroy_services_live:
  fixes x :: "'w posix"
  shows "px_live (destroy_services (posix_launcher os cgroups) m x) = px_live x - set (children m)"
proof -
  have "px_live (fold (\<lambda>s x. case sv_child s of None \<Rightarrow> x | Some h \<Rightarrow> l_Destroy (posix_launcher os cgroups) h x) ss x)
    = px_live x - {h. \<exists>s \<in> set ss. sv_child s = Some h}" for ss
    by (induction ss arbitrary: x) (auto simp: px.destroy_live split: option.splits)
  moreover have "set (children m) = {h. \<exists>s \<in> set (mg_services m). sv_child s = Some h}"
    by (auto simp: children_def split: option.splits)
  ultimately show ?thesis by (simp add: destroy_services_def)
qed

lemma Daemon_Destroy_live:
  fixes xd :: "'w running"
  assumes "daemon_inv e xd \<or> da_manager (snd xd) = None \<and> px_children (fst xd) = []"
  shows "px_live (Daemon_Destroy e xd) = {}"
  using assms
proof
  assume inv: "daemon_inv e xd"
  then obtain m where m: "da_manager (snd xd) = Some m"
    and r: "manager_reach (posix_launcher (de_os e) (da_cgroups (snd xd))) px_live (fst xd, m)"
    by (auto simp: daemon_inv_def daemon_launcher_def)
  have "set (children m) = px_live (fst xd)" using px.manager_reach_owns [OF r] by (simp add: px.owns_def)
  with m show ?thesis
    by (simp add: Daemon_Destroy_def daemon_launcher_def destroy_services_live os_do_def Let_def)
next
  assume "da_manager (snd xd) = None \<and> px_children (fst xd) = []"
  then show ?thesis by (simp add: Daemon_Destroy_def px_live_def px_child_def Let_def)
qed

lemma start_keeps_manager:
  "da_manager (snd (SetUpCgroups e xd)) = da_manager (snd xd)"
  "da_manager (snd (start_gpu e xd)) = da_manager (snd xd)"
  "bind_publisher e xd = (error, xd') \<Longrightarrow> da_manager (snd xd') = da_manager (snd xd)"
  "bind_server e xd = (error, xd') \<Longrightarrow> da_manager (snd xd') = da_manager (snd xd)"
  by (auto simp: SetUpCgroups_def RemoveTaskGroups_def start_gpu_def bind_publisher_def bind_server_def Let_def
      split: sum.splits prod.splits)

lemma Daemon_Start_failed:
  fixes xd :: "'w running"
  assumes start: "Daemon_Start e xd = ((code, error), xd')" and "code \<noteq> DaemonCode_Ok"
    and "px_children (fst xd) = []" and "da_manager (snd xd) = None"
  shows "da_manager (snd xd') = None \<and> px_children (fst xd') = []"
proof -
  define a where "a = (if ms_cgroups (cf_manager (da_config (snd xd))) \<noteq> CM_Off then SetUpCgroups e xd else xd)"
  obtain err b where b: "bind_publisher e (start_gpu e a) = (err, b)" by (rule prod.exhaust)
  obtain err' c where c: "bind_server e b = (err', c)" by (rule prod.exhaust)
  have "xd' \<in> {a, b, c}"
    using start assms(2) b c by (auto simp: Daemon_Start_def a_def Let_def split: if_splits option.splits)
  moreover have a: "px_children (fst a) = []" "da_manager (snd a) = None"
    using assms(3,4) by (simp_all add: a_def SetUpCgroups_fields start_keeps_manager)
  moreover have b': "px_children (fst b) = []" "da_manager (snd b) = None"
    using bind_publisher_fields [OF b] start_keeps_manager(3) [OF b] a
    by (simp_all add: start_gpu_fields start_keeps_manager)
  moreover have "px_children (fst c) = []" "da_manager (snd c) = None"
    using bind_server_fields [OF c] start_keeps_manager(4) [OF c] b' by simp_all
  ultimately show ?thesis by auto
qed

text \<open>The daemon that \<open>RunManager\<close> starts.\<close>

definition daemon_of :: "'w main_env \<Rightarrow> Options \<Rightarrow> Config \<Rightarrow> 'w \<Rightarrow> 'w running" where
  "daemon_of me options config w =
     created (me_daemon me) config
       (case op_logLevel options of Some l \<Rightarrow> l | None \<Rightarrow> ms_logLevel (cf_manager config)) (op_logLevel options)
       \<lparr>px_os = me_install me w, px_children = []\<rparr>"

lemma RunManager_cases:
  assumes "RunManager me options w = Some (code, x)"
  shows "(code = exit_usage \<and> x = \<lparr>px_os = w, px_children = []\<rparr>
      \<and> (\<exists>error. read_config me (op_configPath options) w = Some (Inl error)))
    \<or> (\<exists>config start problem xd. read_config me (op_configPath options) w = Some (Inr config)
        \<and> Daemon_Start (me_daemon me) (daemon_of me options config w) = ((start, problem), xd)
        \<and> (if start \<noteq> DaemonCode_Ok then code = exit_refused \<and> x = Daemon_Destroy (me_daemon me) xd
           else \<exists>xd'. Daemon_Run (me_daemon me) xd = Some (code, xd') \<and> x = Daemon_Destroy (me_daemon me) xd'))"
  using assms
  by (auto simp: RunManager_def daemon_of_def created_def Let_def split: option.splits sum.splits prod.splits if_splits)

lemma RunManager_result:
  fixes x :: "'w posix"
  assumes "RunManager me options w = Some (code, x)"
  shows "px_live x = {} \<and> code \<in> {exit_ok, exit_refused, exit_usage}
    \<and> (code = exit_usage \<longleftrightarrow> (\<exists>error. read_config me (op_configPath options) w = Some (Inl error)))"
  using RunManager_cases [OF assms]
proof (elim disjE exE conjE)
  fix error
  assume "code = exit_usage" and "x = \<lparr>px_os = w, px_children = []\<rparr>"
    and "read_config me (op_configPath options) w = Some (Inl error)"
  then show ?thesis by (simp add: px_live_def px_child_def)
next
  fix config start problem xd
  assume config: "read_config me (op_configPath options) w = Some (Inr config)"
    and start: "Daemon_Start (me_daemon me) (daemon_of me options config w) = ((start, problem), xd)"
    and run: "if start \<noteq> DaemonCode_Ok then code = exit_refused \<and> x = Daemon_Destroy (me_daemon me) xd
      else \<exists>xd'. Daemon_Run (me_daemon me) xd = Some (code, xd') \<and> x = Daemon_Destroy (me_daemon me) xd'"
  let ?d = "daemon_of me options config w"
  have distinct: "distinct (map sc_name (cf_services (da_config (snd ?d))))"
    using ParseFile_ok config
    by (auto simp: read_config_def daemon_of_def created_fields config_ok_def services_ok_def)
  have fields: "px_children (fst ?d) = []" "\<not> da_stopping (snd ?d)" "da_manager (snd ?d) = None"
    by (auto simp: daemon_of_def created_fields)
      (simp add: created_def new_Daemon_def OverrideLogLevel_def split: prod.splits option.splits)
  show ?thesis
  proof (cases "start = DaemonCode_Ok")
    case True
    with start have "daemon_inv (me_daemon me) xd" by (auto intro: Daemon_Start_inv [OF _ fields(1) distinct fields(2)])
    with run True Daemon_Run_inv [of "me_daemon me" xd code] config show ?thesis
      by (auto simp: Daemon_Destroy_live exit_codes)
  next
    case False
    from Daemon_Start_failed [OF start False fields(1,3)] run False config show ?thesis
      by (auto simp: Daemon_Destroy_live exit_codes)
  qed
qed

section \<open>The exit code\<close>

definition config_in_error :: "'w main_env \<Rightarrow> Options \<Rightarrow> 'w \<Rightarrow> bool" where
  "config_in_error me options w \<longleftrightarrow> (\<exists>error. read_config me (op_configPath options) w = Some (Inl error))"

definition client_mode :: "Mode \<Rightarrow> bool" where
  "client_mode m \<longleftrightarrow> m \<in> {Mode_Status, Mode_Start, Mode_Stop, Mode_Restart, Mode_Reload, Mode_Heartbeat}"

text \<open>A command line that is in error, or that asks for a configuration that is.\<close>

definition usage_error :: "'w main_env \<Rightarrow> string list \<Rightarrow> 'w \<Rightarrow> bool" where
  "usage_error me argv w \<longleftrightarrow>
     (case ParseCommandLine (tl argv) of
        Inl _ \<Rightarrow> True
      | Inr options \<Rightarrow> config_in_error me options w
          \<and> (op_mode options \<in> {Mode_Run, Mode_Check} \<or> client_mode (op_mode options) \<and> op_configGiven options))"

lemma ResolveEndpoints_code:
  assumes "ResolveEndpoints me options w = Some (r, w')"
  shows "(\<exists>code. r = Inl code) \<longleftrightarrow> op_configGiven options \<and> config_in_error me options w"
    and "r = Inl code \<Longrightarrow> code = exit_usage"
  using assms
  by (auto simp: ResolveEndpoints_def config_in_error_def Let_def split: if_splits option.splits sum.splits)

text \<open>
  The code for what a client has got: 0 for a good answer, 1 for a bad one and for a failure, 3 for no
  answer in time.
\<close>

definition outcome_code :: "('r \<Rightarrow> bool) \<Rightarrow> (ClientCode \<times> string) + 'r \<Rightarrow> int" where
  "outcome_code good r =
     (case r of Inl (c, error) \<Rightarrow> if c = CL_Timeout then 3 else 1 | Inr x \<Rightarrow> if good x then 0 else 1)"

lemma watch_loop_code:
  assumes "watch_loop me wide escapes timeout mc w = Some r"
  shows "fst r \<in> {exit_ok, exit_refused}"
proof (rule watch_loop.raw_induct [of "\<lambda>me wide escapes timeout mc w r. fst r \<in> {exit_ok, exit_refused}"])
  fix loop :: "'a main_env \<Rightarrow> bool \<Rightarrow> bool \<Rightarrow> millis \<Rightarrow> ManagerClient \<Rightarrow> 'a \<Rightarrow> (int \<times> ManagerClient \<times> 'a) option"
    and me wide escapes timeout mc w r
  assume IH: "\<And>me wide escapes timeout mc w r. loop me wide escapes timeout mc w = Some r
      \<Longrightarrow> fst r \<in> {exit_ok, exit_refused}"
    and step: "(case de_takeStop (me_daemon me) w of (stop, w) \<Rightarrow>
        if stop then Some (exit_ok, mc, w)
        else case WaitForReport (de_zmq (me_daemon me)) (steady_clock me) timeout mc w of
          None \<Rightarrow> None
        | Some (r, mc, w) \<Rightarrow>
            (case r of
               Inl (code, error) \<Rightarrow>
                 if code = CL_Timeout
                 then loop me wide escapes timeout mc (me_stderr me (error @ line_end) w)
                 else Some (exit_refused, mc, me_stderr me (error @ line_end) w)
             | Inr snapshot \<Rightarrow>
                 loop me wide escapes timeout mc
                   (me_stdout me ((if escapes then clear_screen else line_end) @ Render wide snapshot) w))) = Some r"
  from step IH show "fst r \<in> {exit_ok, exit_refused}"
    by (auto split: prod.splits if_splits option.splits sum.splits)
qed (rule assms)

text \<open>How long \<open>status\<close> waits for a report.\<close>

definition report_timeout :: "Options \<Rightarrow> millis \<Rightarrow> millis" where
  "report_timeout options interval =
     (if op_timeoutGiven options then op_timeout options else max (op_timeout options) (interval + report_wait_margin))"

definition status_outcome :: "'w main_env \<Rightarrow> Options \<Rightarrow> 'w \<Rightarrow> int \<Rightarrow> bool" where
  "status_outcome me options w code \<longleftrightarrow>
     (\<exists>command rep interval v r mc v'. ResolveEndpoints me options w = Some (Inr (command, rep, interval), v)
        \<and> WaitForReport (de_zmq (me_daemon me)) (steady_clock me) (report_timeout options interval)
            (new_ManagerClient command rep) v = Some (r, mc, v')
        \<and> code = outcome_code (\<lambda>snapshot. True) r)"

definition command_outcome :: "'w main_env \<Rightarrow> Options \<Rightarrow> 'w \<Rightarrow> int \<Rightarrow> bool" where
  "command_outcome me options w code \<longleftrightarrow>
     (\<exists>command rep interval v r v'. ResolveEndpoints me options w = Some (Inr (command, rep, interval), v)
        \<and> SendCommand (de_zmq (me_daemon me)) (steady_clock me) (command_of_mode (op_mode options))
            (op_serviceName options) (op_timeout options) (new_ManagerClient command rep) v = Some (r, v')
        \<and> code = outcome_code (\<lambda>reply. IsSuccess (cr_result reply)) r)"

lemma outcome_code_not_usage: "outcome_code good r \<noteq> 2"
  by (auto simp: outcome_code_def split: sum.splits)

lemma outcomes_not_usage:
  "status_outcome me options w code \<Longrightarrow> code \<noteq> 2" "command_outcome me options w code \<Longrightarrow> code \<noteq> 2"
  by (auto simp: status_outcome_def command_outcome_def outcome_code_not_usage)

lemma status_once_code:
  assumes "status_once me wide timeout mc w = Some (code, w')"
  shows "\<exists>r mc' v. WaitForReport (de_zmq (me_daemon me)) (steady_clock me) timeout mc w = Some (r, mc', v)
    \<and> code = outcome_code (\<lambda>snapshot. True) r"
proof -
  from assms obtain r mc' v where "WaitForReport (de_zmq (me_daemon me)) (steady_clock me) timeout mc w = Some (r, mc', v)"
    by (auto simp: status_once_def split: option.splits)
  with assms show ?thesis
    by (cases r) (auto simp: status_once_def outcome_code_def client_code_def exit_codes)
qed

lemma RunStatus_code:
  assumes "RunStatus me options w = Some (code, w')"
  shows "if op_configGiven options \<and> config_in_error me options w then code = 2
    else if op_watch options then code \<in> {0, 1} else status_outcome me options w code"
proof -
  from assms obtain r w1 where r: "ResolveEndpoints me options w = Some (r, w1)"
    by (auto simp: RunStatus_def split: option.splits)
  show ?thesis
  proof (cases r)
    case (Inl c)
    with ResolveEndpoints_code [OF r] assms r show ?thesis by (auto simp: RunStatus_def exit_codes)
  next
    case (Inr p)
    obtain command rep interval where p: "p = (command, rep, interval)" by (rule prod_cases3)
    have "code \<in> {0, 1}" if "op_watch options"
      using assms r Inr p that
      by (auto simp: RunStatus_def Let_def exit_codes dest!: watch_loop_code)
    moreover have "status_outcome me options w code" if "\<not> op_watch options"
    proof -
      have "status_once me (op_wide options) (report_timeout options interval) (new_ManagerClient command rep) w1
          = Some (code, w')"
        using assms r Inr p that by (simp add: RunStatus_def report_timeout_def Let_def)
      from status_once_code [OF this] obtain res mc v where
        "WaitForReport (de_zmq (me_daemon me)) (steady_clock me) (report_timeout options interval)
          (new_ManagerClient command rep) w1 = Some (res, mc, v)"
        and "code = outcome_code (\<lambda>snapshot. True) res" by blast
      with r Inr p show ?thesis unfolding status_outcome_def by blast
    qed
    ultimately show ?thesis using ResolveEndpoints_code(1) [OF r] Inr by auto
  qed
qed

lemma RunCommand_code:
  assumes "RunCommand me options w = Some (code, w')"
  shows "if op_configGiven options \<and> config_in_error me options w then code = 2 else command_outcome me options w code"
proof -
  from assms obtain r w1 where r: "ResolveEndpoints me options w = Some (r, w1)"
    by (auto simp: RunCommand_def split: option.splits)
  show ?thesis
  proof (cases r)
    case (Inl c)
    with ResolveEndpoints_code [OF r] assms r show ?thesis by (auto simp: RunCommand_def exit_codes)
  next
    case (Inr p)
    obtain command rep interval where p: "p = (command, rep, interval)" by (rule prod_cases3)
    obtain res v where s: "SendCommand (de_zmq (me_daemon me)) (steady_clock me) (command_of_mode (op_mode options))
        (op_serviceName options) (op_timeout options) (new_ManagerClient command rep) w1 = Some (res, v)"
      using assms r Inr p by (auto simp: RunCommand_def Let_def split: option.splits)
    have "code = outcome_code (\<lambda>reply. IsSuccess (cr_result reply)) res"
      using assms r Inr p s
      by (auto simp: RunCommand_def outcome_code_def client_code_def exit_codes Let_def
          split: sum.splits prod.splits if_splits)
    with s r Inr p have "command_outcome me options w code" unfolding command_outcome_def by blast
    with ResolveEndpoints_code(1) [OF r] Inr show ?thesis by auto
  qed
qed

section \<open>Properties\<close>

text \<open>
  C12: the program that has run as the manager, for however long and whatever its services, its clients
  and the operating system did, has destroyed every child object it created, and its exit code is 2
  exactly when the configuration could not be used.
\<close>

theorem manager_leaves_nothing_behind:
  fixes x :: "'w posix"
  assumes "RunManager me options w = Some (code, x)"
  shows "px_live x = {} \<and> code \<in> {exit_ok, exit_refused, exit_usage}
    \<and> (code = exit_usage \<longleftrightarrow> config_in_error me options w)"
  using RunManager_result [OF assms] unfolding config_in_error_def .

text \<open>A manager whose file is empty and that is asked to stop at once.\<close>

definition sample_main :: "(int \<times> int) list main_env" where
  "sample_main =
     \<lparr>me_daemon = (sample_env [])\<lparr>de_configFile := \<lambda>path w. Some [], de_takeStop := \<lambda>w. (True, w)\<rparr>,
      me_exists = \<lambda>path w. True, me_stdout = \<lambda>s w. w, me_stderr = \<lambda>s w. w, me_install = \<lambda>w. w,
      me_escapes = \<lambda>w. False, me_zmqVersion = ''4''\<rparr>"

declare run_rounds.simps [code]

lemma sample_run: "map_option fst (RunManager sample_main initial_Options []) = Some exit_ok"
  by code_simp

theorem manager_leaves_nothing_behind_witness:
  "px_live (snd (the (RunManager sample_main initial_Options []))) = {}"
proof -
  from sample_run obtain x where "RunManager sample_main initial_Options [] = Some (exit_ok, x)" by auto
  with manager_leaves_nothing_behind [OF this] show ?thesis by simp
qed

text \<open>
  C13: the exit code of the program tells the outcome. It is 2 exactly when the command line or the
  configuration it asks for is in error. Otherwise a command ends with 0 exactly when the manager has
  answered with a success, with 3 exactly when it has not answered in time, and with 1 when it has
  refused or the exchange has failed; \<open>status\<close> likewise, by the report it waits for, but the watch view
  never ends with 3. Help, version and a check that finds no error end with 0, the manager with 0 or 1.
\<close>

theorem exit_code_tells_outcome:
  assumes "Dispatch me argv w = Some (code, w')"
  shows "(code = 2 \<longleftrightarrow> usage_error me argv w)
    \<and> (\<forall>options. ParseCommandLine (tl argv) = Inr options \<and> code \<noteq> 2 \<longrightarrow>
        (case op_mode options of
           Mode_Help \<Rightarrow> code = 0
         | Mode_Version \<Rightarrow> code = 0
         | Mode_Check \<Rightarrow> code = 0
         | Mode_Run \<Rightarrow> code \<in> {0, 1}
         | Mode_Status \<Rightarrow> if op_watch options then code \<in> {0, 1} else status_outcome me options w code
         | _ \<Rightarrow> command_outcome me options w code))"
proof (cases "ParseCommandLine (tl argv)")
  case (Inl e)
  with assms show ?thesis by (auto simp: Dispatch_def usage_error_def exit_codes split: prod.splits)
next
  case (Inr options)
  consider (own) "op_mode options \<in> {Mode_Help, Mode_Version}" | (check) "op_mode options = Mode_Check"
    | (run) "op_mode options = Mode_Run" | (status) "op_mode options = Mode_Status"
    | (command) "op_mode options \<in> {Mode_Start, Mode_Stop, Mode_Restart, Mode_Reload, Mode_Heartbeat}"
    by (cases "op_mode options") auto
  then show ?thesis
  proof cases
    case own
    with assms Inr show ?thesis
      by (auto simp: Dispatch_def usage_error_def client_mode_def exit_codes Let_def)
  next
    case check
    with assms Inr show ?thesis
      by (auto simp: Dispatch_def RunCheck_def usage_error_def config_in_error_def client_mode_def exit_codes
          split: option.splits sum.splits)
  next
    case run
    with assms Inr obtain x where "RunManager me options w = Some (code, x)"
      by (auto simp: Dispatch_def)
    from RunManager_result [OF this] Inr run show ?thesis
      by (auto simp: usage_error_def config_in_error_def client_mode_def exit_codes)
  next
    case status
    with assms Inr have "RunStatus me options w = Some (code, w')" by (simp add: Dispatch_def)
    from RunStatus_code [OF this] Inr status show ?thesis
      by (auto simp: usage_error_def client_mode_def dest: outcomes_not_usage split: if_splits)
  next
    case command
    with assms Inr have "RunCommand me options w = Some (code, w')"
      by (auto simp: Dispatch_def)
    from RunCommand_code [OF this] Inr command show ?thesis
      by (auto simp: usage_error_def client_mode_def dest: outcomes_not_usage split: if_splits)
  qed
qed

text \<open>
  A client whose clock advances by a millisecond with every reading. The frames it can receive are
  those of the list behind the number of readings so far.
\<close>

definition client_main :: "Message \<Rightarrow> (int \<times> int) list main_env" where
  "client_main message = sample_main
     \<lparr>me_daemon := (sample_env message)\<lparr>de_now := \<lambda>w. (instant (int (length w)), w @ [(0, 0)])\<rparr>,
      me_exists := \<lambda>path w. False\<rparr>"

definition stop_argv :: "string list" where
  "stop_argv = [''manager'', ''--stop'', ''a'', ''--timeout'', ''2'']"


declare await_reply.simps [code] receive_loop.simps [code]

definition refused_reply :: CommandReply where
  "refused_reply = \<lparr>cr_command = 79, cr_result = CR_UnknownService, cr_serviceName = ''a'', cr_message = []\<rparr>"

lemma client_unanswered: "map_option fst (Dispatch (client_main []) stop_argv []) = Some 3"
  by code_simp

definition refusing :: Message where
  "refusing = [[], [], MakeFrame command_tag, EncodeReply refused_reply]"

lemma client_refused: "map_option fst (Dispatch (client_main refusing) stop_argv []) = Some 1"
  by code_simp

lemma stop_options: "map_sum id op_mode (ParseCommandLine (tl stop_argv)) = Inr Mode_Stop"
  by code_simp

theorem exit_code_tells_outcome_witness:
  "\<exists>options. ParseCommandLine (tl stop_argv) = Inr options
    \<and> command_outcome (client_main []) options [] 3 \<and> command_outcome (client_main refusing) options [] 1"
proof -
  from stop_options obtain options where o: "ParseCommandLine (tl stop_argv) = Inr options" "op_mode options = Mode_Stop"
    by (cases "ParseCommandLine (tl stop_argv)") auto
  from client_unanswered obtain v where v: "Dispatch (client_main []) stop_argv [] = Some (3, v)" by auto
  from client_refused obtain u where u: "Dispatch (client_main refusing) stop_argv [] = Some (1, u)" by auto
  from o exit_code_tells_outcome [OF v] exit_code_tells_outcome [OF u] show ?thesis by auto
qed

end
