(* ===== verification/Host_Services.thy ===== *)
theory Host_Services
  imports Logger Zmq_Socket Status_Table "HOL-Library.Signed_Division"
begin

text \<open>
  What the daemon uses of its POSIX host besides files and processes: the line a log message becomes
  and where it goes (\<open>Logger.cpp\<close>), stop and reload requests by signals (\<open>SignalWatcher\<close>), the
  terminal (\<open>Console\<close>), the state messages to systemd (\<open>SystemdNotifier\<close>) and the ZeroMQ context
  with the moves of a socket (\<open>ZmqSocket.cpp\<close>).
\<close>

section \<open>Log lines\<close>

record calendar =
  tm_year :: int
  tm_mon :: int
  tm_mday :: int
  tm_hour :: int
  tm_min :: int
  tm_sec :: int

text \<open>\<open>%0nd\<close>\<close>

definition padded_int :: "nat \<Rightarrow> int \<Rightarrow> string" where
  "padded_int n i = (if i < 0 then CHR ''-'' # zero_padded (n - 1) (nat (- i)) else zero_padded n (nat i))"

text \<open>\<open>local_time\<close> is \<open>localtime_r\<close>.\<close>

definition LocalTimestamp :: "(int \<Rightarrow> calendar) \<Rightarrow> nanos \<Rightarrow> string" where
  "LocalTimestamp local_time wallNs =
     (let c = local_time (wallNs sdiv 1000000000);
          ms = (wallNs sdiv 1000000) smod 1000
      in take 79 (padded_int 4 (tm_year c + 1900) @ ''-'' @ padded_int 2 (tm_mon c + 1) @ ''-''
           @ padded_int 2 (tm_mday c) @ '' '' @ padded_int 2 (tm_hour c) @ '':'' @ padded_int 2 (tm_min c)
           @ '':'' @ padded_int 2 (tm_sec c) @ ''.'' @ padded_int 3 ms))"

record 'w log_os =
  lo_localTime :: "int \<Rightarrow> calendar"
  lo_now :: "'w \<Rightarrow> nanos \<times> 'w"
  lo_stderr :: "string \<Rightarrow> 'w \<Rightarrow> 'w"
  lo_journalStream :: "string option"

definition Logger_Write :: "'w log_os \<Rightarrow> Logger \<Rightarrow> LogLevel \<Rightarrow> string \<Rightarrow> 'w \<Rightarrow> 'w" where
  "Logger_Write os lg level message w =
     (if \<not> Logger_Enabled lg level then w
      else case lo_now os w of
        (now, w) \<Rightarrow> lo_stderr os (Logger_Format (LocalTimestamp (lo_localTime os)) lg level message now) w)"

definition GlobalLogger :: "'w log_os \<Rightarrow> Logger" where
  "GlobalLogger os = \<lparr>log_level = LL_Info, log_journal = (lo_journalStream os \<noteq> None)\<rparr>"

definition LogError :: "'w log_os \<Rightarrow> Logger \<Rightarrow> string \<Rightarrow> 'w \<Rightarrow> 'w" where
  "LogError os lg = Logger_Write os lg LL_Error"
definition LogWarning :: "'w log_os \<Rightarrow> Logger \<Rightarrow> string \<Rightarrow> 'w \<Rightarrow> 'w" where
  "LogWarning os lg = Logger_Write os lg LL_Warning"
definition LogInfo :: "'w log_os \<Rightarrow> Logger \<Rightarrow> string \<Rightarrow> 'w \<Rightarrow> 'w" where
  "LogInfo os lg = Logger_Write os lg LL_Info"
definition LogDebug :: "'w log_os \<Rightarrow> Logger \<Rightarrow> string \<Rightarrow> 'w \<Rightarrow> 'w" where
  "LogDebug os lg = Logger_Write os lg LL_Debug"

text \<open>In the journal a message is one line that starts with its priority, and errors are never filtered.\<close>

lemma error_line_written:
  assumes "lo_now os w = (now, w')"
  shows "LogError os lg message w = lo_stderr os (Logger_Format (LocalTimestamp (lo_localTime os)) lg LL_Error message now) w'"
  using assms by (simp add: LogError_def Logger_Write_def)

lemma filtered_message_silent: "log_level lg < level \<Longrightarrow> Logger_Write os lg level message w = w"
  by (simp add: Logger_Write_def Logger_Enabled_def less_eq_LogLevel_def less_LogLevel_def)

section \<open>Signals\<close>

definition SIGHUP :: int where "SIGHUP = 1"
definition SIGINT :: int where "SIGINT = 2"
definition SIGPIPE :: int where "SIGPIPE = 13"
definition SIGTERM :: int where "SIGTERM = 15"
definition SIGCHLD :: int where "SIGCHLD = 17"

datatype disposition = DefaultAction | IgnoreSignal | CallHandler

record signals =
  sg_action :: "int \<Rightarrow> disposition"
  sg_blocked :: "int list"

definition SignalWatcher_Install :: "signals \<Rightarrow> signals" where
  "SignalWatcher_Install s =
     \<lparr>sg_action = (sg_action s)(SIGTERM := CallHandler, SIGINT := CallHandler, SIGHUP := CallHandler,
                     SIGPIPE := IgnoreSignal, SIGCHLD := DefaultAction),
      sg_blocked = filter (\<lambda>n. n \<notin> {SIGTERM, SIGINT, SIGHUP, SIGCHLD}) (sg_blocked s)\<rparr>"

text \<open>The two flags of the watcher.\<close>

record SignalWatcher =
  sw_stopRequested :: bool
  sw_reloadRequested :: bool

definition new_SignalWatcher :: SignalWatcher where
  "new_SignalWatcher = \<lparr>sw_stopRequested = False, sw_reloadRequested = False\<rparr>"

definition HandleSignal :: "int \<Rightarrow> SignalWatcher \<Rightarrow> SignalWatcher" where
  "HandleSignal number s =
     (if number = SIGHUP then s\<lparr>sw_reloadRequested := True\<rparr> else s\<lparr>sw_stopRequested := True\<rparr>)"

definition TakeStopRequest :: "SignalWatcher \<Rightarrow> bool \<times> SignalWatcher" where
  "TakeStopRequest s = (sw_stopRequested s, s\<lparr>sw_stopRequested := False\<rparr>)"

definition TakeReloadRequest :: "SignalWatcher \<Rightarrow> bool \<times> SignalWatcher" where
  "TakeReloadRequest s = (sw_reloadRequested s, s\<lparr>sw_reloadRequested := False\<rparr>)"

text \<open>Signals and the daemon's questions, in the order they happen.\<close>

datatype watch_event = Delivered int | StopTaken | ReloadTaken

fun watch :: "watch_event \<Rightarrow> SignalWatcher \<Rightarrow> SignalWatcher" where
  "watch (Delivered number) s = HandleSignal number s"
| "watch StopTaken s = snd (TakeStopRequest s)"
| "watch ReloadTaken s = snd (TakeReloadRequest s)"

text \<open>
  No request is lost and none is invented: the answer is whether such a signal has arrived since the
  last question, whatever else arrived in between.
\<close>

lemma stop_request_exact:
  "fst (TakeStopRequest (fold watch events new_SignalWatcher))
    \<longleftrightarrow> (\<exists>number. number \<noteq> SIGHUP \<and> Delivered number \<in> set (takeWhile (\<lambda>e. e \<noteq> StopTaken) (rev events)))"
proof (induction events rule: rev_induct)
  case (snoc e events)
  then show ?case
    by (cases e) (auto simp: TakeStopRequest_def TakeReloadRequest_def HandleSignal_def)
qed (simp add: TakeStopRequest_def new_SignalWatcher_def)

lemma reload_request_exact:
  "fst (TakeReloadRequest (fold watch events new_SignalWatcher))
    \<longleftrightarrow> Delivered SIGHUP \<in> set (takeWhile (\<lambda>e. e \<noteq> ReloadTaken) (rev events))"
proof (induction events rule: rev_induct)
  case (snoc e events)
  then show ?case
    by (cases e) (auto simp: TakeStopRequest_def TakeReloadRequest_def HandleSignal_def)
qed (simp add: TakeReloadRequest_def new_SignalWatcher_def)

text \<open>After \<open>Install\<close> the kernel keeps exited services for the manager, and its signals arrive.\<close>

lemma Install_signals:
  "sg_action (SignalWatcher_Install s) SIGCHLD = DefaultAction"
  "number \<in> {SIGTERM, SIGINT, SIGHUP} \<Longrightarrow> sg_action (SignalWatcher_Install s) number = CallHandler
     \<and> number \<notin> set (sg_blocked (SignalWatcher_Install s))"
  by (auto simp: SignalWatcher_Install_def SIGCHLD_def SIGTERM_def SIGINT_def SIGHUP_def SIGPIPE_def)

section \<open>The terminal\<close>

definition UseUtf8Output :: "'w \<Rightarrow> 'w" where
  "UseUtf8Output w = w"

text \<open>\<open>isatty\<close> of the standard output.\<close>

definition EnableEscapes :: "('w \<Rightarrow> int) \<Rightarrow> 'w \<Rightarrow> bool" where
  "EnableEscapes terminal w \<longleftrightarrow> terminal w = 1"

definition Console_Arguments :: "string list \<Rightarrow> string list" where
  "Console_Arguments argv = drop 1 argv"

section \<open>Messages to systemd\<close>

record 'w notify_os =
  no_getenv :: "string \<Rightarrow> 'w \<Rightarrow> string option"
  no_socket :: "'w \<Rightarrow> int \<times> 'w"
  no_sendto :: "int \<Rightarrow> string \<Rightarrow> string \<Rightarrow> 'w \<Rightarrow> int \<times> 'w"
  no_close :: "int \<Rightarrow> 'w \<Rightarrow> 'w"

definition sun_path_size :: nat where "sun_path_size = 108"

text \<open>The path of the address; a leading at-sign names a socket in the abstract namespace.\<close>

definition socket_address :: "string \<Rightarrow> string" where
  "socket_address path = (if hd path = CHR ''@'' then CHR 0x00 # tl path else path)"

definition SystemdNotifier_Notify :: "'w notify_os \<Rightarrow> string \<Rightarrow> 'w \<Rightarrow> bool \<times> 'w" where
  "SystemdNotifier_Notify os state w =
     (case no_getenv os ''NOTIFY_SOCKET'' w of
        None \<Rightarrow> (False, w)
      | Some path \<Rightarrow>
          if path = [] \<or> length path \<ge> sun_path_size then (False, w)
          else case no_socket os w of
            (fd, w) \<Rightarrow>
              if fd < 0 then (False, w)
              else case no_sendto os fd state (socket_address path) w of
                (sent, w) \<Rightarrow> (sent = int (length state), no_close os fd w))"

text \<open>Without systemd nothing is sent.\<close>

lemma Notify_without_systemd:
  "no_getenv os ''NOTIFY_SOCKET'' w = None \<Longrightarrow> SystemdNotifier_Notify os state w = (False, w)"
  by (simp add: SystemdNotifier_Notify_def)

section \<open>The ZeroMQ context\<close>

text \<open>\<open>zc_term\<close> gives the error number of a failed call; a null handle is \<open>None\<close>.\<close>

record 'w zmq_context_os =
  zc_new :: "'w \<Rightarrow> nat option \<times> 'w"
  zc_term :: "nat \<Rightarrow> 'w \<Rightarrow> int option \<times> 'w"
  zc_version :: "int \<times> int \<times> int"

type_synonym ZmqContext = "nat option"

definition ZmqVersion :: "'w zmq_context_os \<Rightarrow> string" where
  "ZmqVersion z = (case zc_version z of (major, minor, patch) \<Rightarrow>
     to_string major @ ''.'' @ to_string minor @ ''.'' @ to_string patch)"

definition new_ZmqContext :: "'w zmq_context_os \<Rightarrow> 'w \<Rightarrow> ZmqContext \<times> 'w" where
  "new_ZmqContext z w = zc_new z w"

text \<open>Termination is tried again when a signal interrupts it; \<open>None\<close> is that this never ends.\<close>

partial_function (option) term_loop :: "'w zmq_context_os \<Rightarrow> nat \<Rightarrow> 'w \<Rightarrow> 'w option" where
  "term_loop z h w = (case zc_term z h w of (error, w) \<Rightarrow> if error = Some EINTR then term_loop z h w else Some w)"

definition ZmqContext_Destroy :: "'w zmq_context_os \<Rightarrow> ZmqContext \<Rightarrow> 'w \<Rightarrow> 'w option" where
  "ZmqContext_Destroy z c w = (case c of None \<Rightarrow> Some w | Some h \<Rightarrow> term_loop z h w)"

text \<open>A move: the new value of the target and of the other, which is left empty.\<close>

definition ZmqContext_Take :: "ZmqContext \<Rightarrow> ZmqContext \<times> ZmqContext" where
  "ZmqContext_Take other = (other, None)"

definition ZmqContext_Assign ::
  "'w zmq_context_os \<Rightarrow> ZmqContext \<Rightarrow> ZmqContext \<Rightarrow> 'w \<Rightarrow> (ZmqContext \<times> ZmqContext \<times> 'w) option" where
  "ZmqContext_Assign z this other w =
     (case ZmqContext_Take this of (closing, this) \<Rightarrow>
        map_option (\<lambda>w. (other, None, w)) (ZmqContext_Destroy z closing w))"

definition ZmqSocket_Take :: "ZmqSocket \<Rightarrow> ZmqSocket \<times> ZmqSocket" where
  "ZmqSocket_Take other = (other, other\<lparr>zs_handle := None\<rparr>)"

definition ZmqSocket_Assign :: "'w zmq \<Rightarrow> ZmqSocket \<Rightarrow> ZmqSocket \<Rightarrow> 'w \<Rightarrow> ZmqSocket \<times> ZmqSocket \<times> 'w" where
  "ZmqSocket_Assign z this other w =
     (case ZmqSocket_Close z this w of
        (this, w) \<Rightarrow> (this\<lparr>zs_handle := zs_handle other, zs_lastError := zs_lastError other\<rparr>,
                      other\<lparr>zs_handle := None\<rparr>, w))"

text \<open>A move leaves exactly one owner of the handle, and the old socket of the target is closed.\<close>

lemma move_keeps_one_owner:
  "ZmqSocket_Assign z this other w = (this', other', w') \<Longrightarrow>
     zs_handle this' = zs_handle other \<and> zs_handle other' = None \<and> w' = snd (ZmqSocket_Close z this w)"
  by (auto simp: ZmqSocket_Assign_def split: prod.splits)

end
