(* ===== verification/Daemon_Signals.thy ===== *)
theory Daemon_Signals
  imports Daemon_Props Host_Services
begin

text \<open>
  The daemon with the signal watcher of its host: the flags of the watcher are a part of the world,
  \<open>view\<close> reads them, and the question the daemon asks in every round is \<open>TakeStopRequest\<close>. Signals may
  arrive while the clock is read; they can only set flags.
\<close>

definition watches_signals :: "('w \<Rightarrow> SignalWatcher) \<Rightarrow> 'w daemon_env \<Rightarrow> bool" where
  "watches_signals view e \<longleftrightarrow>
     (\<forall>w. fst (de_takeStop e w) = fst (TakeStopRequest (view w)))
     \<and> (\<forall>w. sw_stopRequested (view w) \<longrightarrow> sw_stopRequested (view (snd (de_now e w))))"

text \<open>A stop signal that has arrived since the last question is a pending stop.\<close>

lemma signal_is_pending:
  assumes "watches_signals view e" and "view (px_os (fst xd)) = fold watch events new_SignalWatcher"
    and "number \<noteq> SIGHUP" and "Delivered number \<in> set (takeWhile (\<lambda>e. e \<noteq> StopTaken) (rev events))"
  shows "stop_pending e xd"
proof -
  have "sw_stopRequested (view (px_os (fst xd)))"
    using stop_request_exact [of events] assms(2-4) by (auto simp: TakeStopRequest_def)
  then have "fst (de_takeStop e (snd (de_now e (px_os (fst xd)))))"
    using assms(1) by (simp add: watches_signals_def TakeStopRequest_def)
  then show ?thesis by (simp add: stop_pending_def)
qed

text \<open>From the next round on nothing is started any more.\<close>

lemma stop_signal_stops_daemon:
  fixes xd :: "'w running"
  assumes "daemon_reach e xd" and "watches_signals view e"
    and "view (px_os (fst xd)) = fold watch events new_SignalWatcher"
    and "number \<noteq> SIGHUP" and "Delivered number \<in> set (takeWhile (\<lambda>e. e \<noteq> StopTaken) (rev events))"
    and "daemon_round e xd = Some (final, xd')"
  shows "da_stopping (snd xd')"
  by (rule stop_request_stops [OF daemon_reach_inv [OF assms(1)] assms(6) signal_is_pending [OF assms(2-5)]])

text \<open>
  C9: a termination signal ends the daemon. When one has arrived since the daemon last asked, whatever
  other signals arrived before and after it, \<open>Run\<close> returns with exit code 0.
\<close>

theorem stop_signal_ends_run:
  fixes xd :: "'w running"
  assumes "daemon_reach e xd" and "watches_signals view e"
    and "view (px_os (fst xd)) = fold watch events new_SignalWatcher"
    and "Delivered SIGTERM \<in> set (takeWhile (\<lambda>e. e \<noteq> StopTaken) (rev events))"
    and "receive_returns (de_zmq e)" and "rounds_take_time e xd"
  shows "\<exists>xd'. Daemon_Run e xd = Some (0, xd')"
proof -
  have "SIGTERM \<noteq> SIGHUP" by (simp add: SIGTERM_def SIGHUP_def)
  from signal_is_pending [OF assms(2,3) this assms(4)] show ?thesis
    by (rule requested_run_returns [OF assms(5,6) daemon_reach_inv [OF assms(1)]])
qed

text \<open>The world of the other witnesses, with a signal that keeps arriving.\<close>

definition signal_env :: "(int \<times> int) list daemon_env" where
  "signal_env = (sample_env [])\<lparr>de_takeStop := \<lambda>w. (True, w)\<rparr>"

definition signalled_daemon :: "(int \<times> int) list running" where
  "signalled_daemon = snd (Daemon_Start signal_env (created signal_env sample_config LL_Info None sample_world))"

lemma signalled_start:
  "fst (fst (Daemon_Start signal_env (created signal_env sample_config LL_Info None sample_world))) = DaemonCode_Ok"
  by code_simp

lemma signalled_reach: "daemon_reach signal_env signalled_daemon"
proof -
  have "Daemon_Start signal_env (created signal_env sample_config LL_Info None sample_world)
      = ((DaemonCode_Ok, snd (fst (Daemon_Start signal_env (created signal_env sample_config LL_Info None sample_world)))),
         signalled_daemon)"
    using signalled_start by (simp add: signalled_daemon_def prod_eq_iff)
  then show ?thesis
    by (rule daemon_reach.start [rotated 2]) (simp_all add: sample_world_def sample_config_def default_Config_def)
qed

lemma signalled_round: "map_option fst (daemon_round signal_env signalled_daemon) = Some True"
  by code_simp

theorem stop_signal_ends_run_witness: "\<exists>xd'. Daemon_Run signal_env signalled_daemon = Some (0, xd')"
proof -
  let ?view = "\<lambda>w :: (int \<times> int) list. fold watch [Delivered SIGTERM] new_SignalWatcher"
  have "SIGTERM \<noteq> SIGHUP" by (simp add: SIGTERM_def SIGHUP_def)
  then have watches: "watches_signals ?view signal_env"
    by (simp add: watches_signals_def signal_env_def TakeStopRequest_def HandleSignal_def)
  have "\<not> goes_on signal_env signalled_daemon b" for b
    using signalled_round by (auto simp: goes_on_def)
  moreover from this have "(goes_on signal_env)\<^sup>*\<^sup>* signalled_daemon a \<Longrightarrow> a = signalled_daemon" for a
    by (auto elim: converse_rtranclpE)
  ultimately have time: "rounds_take_time signal_env signalled_daemon" unfolding rounds_take_time_def by blast
  have "receive_returns (de_zmq signal_env)" using sample_receive by (simp add: signal_env_def sample_env_def)
  from stop_signal_ends_run [OF signalled_reach watches _ _ this time, of "[Delivered SIGTERM]"] show ?thesis by simp
qed

end
