(* ===== verification/Windows_Launcher.thy ===== *)
theory Windows_Launcher
  imports Manager_Runs
begin

unbundle bit_operations_syntax

text \<open>
  The launcher of Windows hosts (\<open>src/manager/src/windows/NativeLauncher.cpp\<close>): a service is a process
  in a job object. Wide strings are lists of 16-bit code units. The functions of the Win32 interface
  and the two conversions between UTF-8 and UTF-16 are a record of functions over the outside world;
  a kernel handle is an integer, 0 for a null pointer and -1 for \<open>INVALID_HANDLE_VALUE\<close>. The class
  \<open>Handle\<close> closes on every way out of a function what it still holds, which the model writes out.
\<close>

type_synonym wide = "16 word list"
type_synonym dword = "32 word"

definition wide_of :: "string \<Rightarrow> wide" where
  "wide_of s = map (\<lambda>c. word_of_nat (of_char c)) s"

definition backslash :: "16 word" where "backslash = 92"
definition quote_mark :: "16 word" where "quote_mark = 34"

section \<open>The system\<close>

datatype FileAccess = GenericRead | GenericWrite | AppendData

text \<open>
  \<open>wi_attributes\<close>, \<open>wi_variable\<close>, \<open>wi_search\<close>, \<open>wi_active\<close>, \<open>wi_accounting\<close>, \<open>wi_workingSet\<close> and
  \<open>wi_handleCount\<close> are \<open>None\<close> where the function fails. \<open>wi_jobIds job slots\<close> is the number of processes
  in the job with the IDs that fit into the slots. \<open>wi_start\<close> is \<open>CreateProcessW\<close> with the path, the
  command line, the environment, the directory and the three standard handles: the error, or the
  handles of the process and its thread with the process ID. \<open>wi_windows\<close> lists the top-level windows
  with the processes that own them.
\<close>

record 'w win32 =
  wi_widen :: "string \<Rightarrow> wide"
  wi_narrow :: "wide \<Rightarrow> string"
  wi_icmp :: "wide \<Rightarrow> wide \<Rightarrow> int"
  wi_messageText :: "dword \<Rightarrow> wide option"
  wi_lastError :: "'w \<Rightarrow> dword"
  wi_attributes :: "wide \<Rightarrow> 'w \<Rightarrow> dword option"
  wi_variable :: "wide \<Rightarrow> 'w \<Rightarrow> wide option"
  wi_search :: "wide option \<Rightarrow> wide \<Rightarrow> wide \<Rightarrow> 'w \<Rightarrow> wide option"
  wi_environment :: "'w \<Rightarrow> wide list"
  wi_steady :: "'w \<Rightarrow> nanos"
  wi_processors :: "'w \<Rightarrow> dword"
  wi_close :: "int \<Rightarrow> 'w \<Rightarrow> 'w"
  wi_duplicate :: "int \<Rightarrow> 'w \<Rightarrow> int option \<times> 'w"
  wi_createFile :: "wide \<Rightarrow> FileAccess \<Rightarrow> 'w \<Rightarrow> int \<times> 'w"
  wi_standard :: "bool \<Rightarrow> 'w \<Rightarrow> int"
  wi_windows :: "'w \<Rightarrow> (nat \<times> dword) list"
  wi_postClose :: "nat \<Rightarrow> 'w \<Rightarrow> 'w"
  wi_ctrlBreak :: "dword \<Rightarrow> 'w \<Rightarrow> 'w"
  wi_createJob :: "'w \<Rightarrow> int \<times> 'w"
  wi_setLimits :: "int \<Rightarrow> 64 word option \<Rightarrow> 'w \<Rightarrow> bool \<times> 'w"
  wi_setRate :: "int \<Rightarrow> dword \<Rightarrow> 'w \<Rightarrow> bool \<times> 'w"
  wi_active :: "int \<Rightarrow> 'w \<Rightarrow> dword option"
  wi_jobIds :: "int \<Rightarrow> nat \<Rightarrow> 'w \<Rightarrow> (nat \<times> dword list) option"
  wi_accounting :: "int \<Rightarrow> 'w \<Rightarrow> (64 word \<times> 64 word \<times> 64 word \<times> 64 word) option"
  wi_terminateJob :: "int \<Rightarrow> dword \<Rightarrow> 'w \<Rightarrow> 'w"
  wi_wait :: "int \<Rightarrow> dword \<Rightarrow> 'w \<Rightarrow> bool \<times> 'w"
  wi_exitCode :: "int \<Rightarrow> 'w \<Rightarrow> dword option"
  wi_openProcess :: "dword \<Rightarrow> 'w \<Rightarrow> int \<times> 'w"
  wi_workingSet :: "int \<Rightarrow> 'w \<Rightarrow> 64 word option"
  wi_handleCount :: "int \<Rightarrow> 'w \<Rightarrow> dword option"
  wi_restrict :: "int list \<Rightarrow> 'w \<Rightarrow> bool \<times> 'w"
  wi_start :: "wide \<Rightarrow> wide \<Rightarrow> wide \<Rightarrow> wide option \<Rightarrow> int \<times> int \<times> int \<Rightarrow> 'w
    \<Rightarrow> (dword + int \<times> int \<times> dword) \<times> 'w"
  wi_assign :: "int \<Rightarrow> int \<Rightarrow> 'w \<Rightarrow> bool \<times> 'w"
  wi_terminate :: "int \<Rightarrow> dword \<Rightarrow> 'w \<Rightarrow> 'w"
  wi_resume :: "int \<Rightarrow> 'w \<Rightarrow> 'w"

definition initial_job_slots :: nat where "initial_job_slots = 256"
definition kill_wait_ms :: dword where "kill_wait_ms = 5000"
definition FILE_ATTRIBUTE_DIRECTORY :: dword where "FILE_ATTRIBUTE_DIRECTORY = 0x10"

definition Widen :: "'w win32 \<Rightarrow> string \<Rightarrow> wide" where
  "Widen k s = (if s = [] then [] else wi_widen k s)"

definition Narrow :: "'w win32 \<Rightarrow> wide \<Rightarrow> string" where
  "Narrow k s = (if s = [] then [] else wi_narrow k s)"

definition SystemErrorText :: "'w win32 \<Rightarrow> dword \<Rightarrow> string" where
  "SystemErrorText k error =
     Narrow k (rev (dropWhile (\<lambda>c. c \<in> {10, 13, 32}) (rev (case wi_messageText k error of None \<Rightarrow> [] | Some t \<Rightarrow> t))))
       @ '' (error '' @ to_string (uint error) @ '')''"

definition Valid :: "int \<Rightarrow> bool" where
  "Valid h \<longleftrightarrow> h \<noteq> 0 \<and> h \<noteq> -1"

text \<open>\<open>Reset\<close>, and the destructors of handles that go out of scope together.\<close>

definition Handle_Reset :: "'w win32 \<Rightarrow> int \<Rightarrow> 'w \<Rightarrow> 'w" where
  "Handle_Reset k h w = (if Valid h then wi_close k h w else w)"

definition close_handles :: "'w win32 \<Rightarrow> int list \<Rightarrow> 'w \<Rightarrow> 'w" where
  "close_handles k = fold (Handle_Reset k)"

section \<open>The command line\<close>

definition special_units :: wide where "special_units = [32, 9, 10, 11, quote_mark]"

text \<open>The loop that quotes: a run of backslashes, then the end, a quote or another unit.\<close>

function quote_loop :: "wide \<Rightarrow> wide" where
  "quote_loop argument =
     (let n = length (takeWhile (\<lambda>c. c = backslash) argument)
      in case drop n argument of
           [] \<Rightarrow> replicate (2 * n) backslash
         | c # rest \<Rightarrow>
             replicate (if c = quote_mark then 2 * n + 1 else n) backslash @ [c] @ quote_loop rest)"
  by pat_completeness auto
termination
proof (relation "measure length")
  fix argument rest :: wide and n c
  assume "drop n argument = c # rest"
  then have "length (drop n argument) = Suc (length rest)" by simp
  then show "(rest, argument) \<in> measure length" by simp
qed simp

definition QuoteArgument :: "wide \<Rightarrow> wide" where
  "QuoteArgument argument =
     (if argument \<noteq> [] \<and> (\<forall>c \<in> set argument. c \<notin> set special_units) then argument
      else [quote_mark] @ quote_loop argument @ [quote_mark])"

definition command_line :: "wide \<Rightarrow> wide list \<Rightarrow> wide" where
  "command_line path arguments =
     QuoteArgument path @ concat (map (\<lambda>a. [32] @ QuoteArgument a) arguments)"

section \<open>The program and its environment\<close>

definition FileExists :: "'w win32 \<Rightarrow> wide \<Rightarrow> 'w \<Rightarrow> bool" where
  "FileExists k path w =
     (case wi_attributes k path w of None \<Rightarrow> False | Some a \<Rightarrow> a AND FILE_ATTRIBUTE_DIRECTORY = 0)"

definition DirectoryExists :: "'w win32 \<Rightarrow> wide \<Rightarrow> 'w \<Rightarrow> bool" where
  "DirectoryExists k path w =
     (case wi_attributes k path w of None \<Rightarrow> False | Some a \<Rightarrow> a AND FILE_ATTRIBUTE_DIRECTORY \<noteq> 0)"

text \<open>The last override of a variable, or the manager's own value, or nothing.\<close>

definition Win_VariableFor :: "'w win32 \<Rightarrow> EnvironmentVariable list \<Rightarrow> wide \<Rightarrow> 'w \<Rightarrow> wide" where
  "Win_VariableFor k overrides n w =
     (case find (\<lambda>v. wi_icmp k (Widen k (ev_name v)) n = 0) (rev overrides) of
        Some v \<Rightarrow> Widen k (ev_value v)
      | None \<Rightarrow> (case wi_variable k n w of None \<Rightarrow> [] | Some v \<Rightarrow> v))"

definition is_slash :: "16 word \<Rightarrow> bool" where
  "is_slash c \<longleftrightarrow> c = backslash \<or> c = 47"

text \<open>A drive with a root directory, or a network name.\<close>

fun win_absolute :: "wide \<Rightarrow> bool" where
  "win_absolute (a # b # c # rest) \<longleftrightarrow>
     ((65 \<le> a \<and> a \<le> 90 \<or> 97 \<le> a \<and> a \<le> 122) \<and> b = 58 \<and> is_slash c)
     \<or> (is_slash a \<and> is_slash b \<and> \<not> is_slash c)"
| "win_absolute _ \<longleftrightarrow> False"

definition Win_ResolveBinary :: "'w win32 \<Rightarrow> LaunchRequest \<Rightarrow> 'w \<Rightarrow> (LaunchCode \<times> string) + wide" where
  "Win_ResolveBinary k request w =
     (let binary = Widen k (lr_binary request)
      in if \<forall>c \<in> set binary. \<not> is_slash c then
           (let search = Win_VariableFor k (lr_environment request) (wide_of ''PATH'') w
            in case wi_search k (if search = [] then None else Some search) binary (wide_of ''.exe'') w of
                 None \<Rightarrow> Inl (BinaryNotFound, lr_binary request @ '' was not found on PATH'')
               | Some found \<Rightarrow>
                   if found = [] \<or> length found \<ge> 32768
                   then Inl (BinaryNotFound, lr_binary request @ '' was not found on PATH'')
                   else Inr found)
         else
           (let path = (if win_absolute binary \<or> lr_workingDirectory request = [] then binary
                        else Widen k (lr_workingDirectory request) @ [backslash] @ binary);
                path = (if \<not> FileExists k path w \<and> FileExists k (path @ wide_of ''.exe'') w
                        then path @ wide_of ''.exe'' else path)
            in if \<not> FileExists k path w then Inl (BinaryNotFound, Narrow k path @ '' does not exist'')
               else Inr path))"

text \<open>The ordered map of variables; names that differ only in case are one name.\<close>

fun variable_put :: "'w win32 \<Rightarrow> wide \<Rightarrow> wide \<Rightarrow> (wide \<times> wide) list \<Rightarrow> (wide \<times> wide) list" where
  "variable_put k n v [] = [(n, v)]"
| "variable_put k n v ((n', v') # es) =
     (if wi_icmp k n' n < 0 then (n', v') # variable_put k n v es
      else if wi_icmp k n n' < 0 then (n, v) # (n', v') # es
      else (n', v) # es)"

text \<open>An entry of the own environment; the separator is searched from the second unit.\<close>

definition put_own :: "'w win32 \<Rightarrow> wide \<Rightarrow> (wide \<times> wide) list \<Rightarrow> (wide \<times> wide) list" where
  "put_own k entry es =
     (case entry of [] \<Rightarrow> es
      | c # rest \<Rightarrow>
          (let n = c # takeWhile (\<lambda>d. d \<noteq> 61) rest
           in if 61 \<in> set rest then variable_put k n (drop (length n + 1) entry) es else es))"

definition block_variables :: "'w win32 \<Rightarrow> EnvironmentVariable list \<Rightarrow> 'w \<Rightarrow> (wide \<times> wide) list" where
  "block_variables k overrides w =
     fold (\<lambda>v. variable_put k (Widen k (ev_name v)) (Widen k (ev_value v))) overrides
       (fold (put_own k) (takeWhile (\<lambda>e. e \<noteq> []) (wi_environment k w)) [])"

definition BuildEnvironmentBlock :: "'w win32 \<Rightarrow> EnvironmentVariable list \<Rightarrow> 'w \<Rightarrow> wide" where
  "BuildEnvironmentBlock k overrides w =
     concat (map (\<lambda>(n, v). n @ [61] @ v @ [0]) (block_variables k overrides w)) @ [0]"

definition InheritableCopy :: "'w win32 \<Rightarrow> int \<Rightarrow> 'w \<Rightarrow> int \<times> 'w" where
  "InheritableCopy k source w =
     (if source = 0 \<or> source = -1 then (0, w)
      else case wi_duplicate k source w of (None, w) \<Rightarrow> (0, w) | (Some copy, w) \<Rightarrow> (copy, w))"

definition OpenNul :: "'w win32 \<Rightarrow> FileAccess \<Rightarrow> 'w \<Rightarrow> int \<times> 'w" where
  "OpenNul k access w = wi_createFile k (wide_of ''NUL'') access w"

section \<open>Job objects\<close>

definition ActiveProcesses :: "'w win32 \<Rightarrow> int \<Rightarrow> 'w \<Rightarrow> dword" where
  "ActiveProcesses k job w = (case wi_active k job w of None \<Rightarrow> 0 | Some n \<Rightarrow> n)"

text \<open>Four attempts, each with twice the slots the last answer asked for.\<close>

fun job_ids_loop :: "nat \<Rightarrow> 'w win32 \<Rightarrow> int \<Rightarrow> nat \<Rightarrow> 'w \<Rightarrow> dword list" where
  "job_ids_loop 0 k job slots w = []"
| "job_ids_loop (Suc n) k job slots w =
     (case wi_jobIds k job slots w of
        None \<Rightarrow> []
      | Some (assigned, ids) \<Rightarrow>
          if length ids < assigned then job_ids_loop n k job (assigned * 2) w else ids)"

definition JobProcessIds :: "'w win32 \<Rightarrow> int \<Rightarrow> 'w \<Rightarrow> dword list" where
  "JobProcessIds k job w = job_ids_loop 4 k job initial_job_slots w"

text \<open>One window of \<open>EnumWindows\<close>.\<close>

definition CloseWindowOfMember :: "'w win32 \<Rightarrow> dword list \<Rightarrow> nat \<times> dword \<Rightarrow> 'w \<Rightarrow> 'w" where
  "CloseWindowOfMember k pids window w = (if snd window \<in> set pids then wi_postClose k (fst window) w else w)"

section \<open>The child object\<close>

record WindowsChild =
  wc_process :: int
  wc_job :: int
  wc_pid :: dword
  wc_exit :: "ExitStatus option"
  wc_ended :: "ExitStatus option"
  wc_drainDeadline :: nanos
  wc_peakMemory :: "64 word"

definition new_WindowsChild :: "int \<Rightarrow> int \<Rightarrow> dword \<Rightarrow> WindowsChild" where
  "new_WindowsChild process job pid =
     \<lparr>wc_process = process, wc_job = job, wc_pid = pid, wc_exit = None, wc_ended = None,
      wc_drainDeadline = 0, wc_peakMemory = 0\<rparr>"

text \<open>The destructor, with those of the members.\<close>

definition WindowsChild_Destroy :: "'w win32 \<Rightarrow> WindowsChild \<Rightarrow> 'w \<Rightarrow> 'w" where
  "WindowsChild_Destroy k c w =
     close_handles k [wc_job c, wc_process c]
       (if wc_exit c = None then snd (wi_wait k (wc_process c) kill_wait_ms (wi_terminateJob k (wc_job c) 1 w))
        else w)"

definition WindowsChild_Pid :: "WindowsChild \<Rightarrow> int" where
  "WindowsChild_Pid c = sint (wc_pid c)"

definition win_drain :: "'w win32 \<Rightarrow> 'w \<times> WindowsChild \<Rightarrow> ExitStatus option \<times> 'w \<times> WindowsChild" where
  "win_drain k wc =
     (let w = fst wc; c = snd wc
      in if ActiveProcesses k (wc_job c) w > 0 \<and> wi_steady k w < wc_drainDeadline c then (None, w, c)
         else (wc_ended c, w, c\<lparr>wc_exit := wc_ended c\<rparr>))"

definition WindowsChild_Poll ::
  "'w win32 \<Rightarrow> 'w \<times> WindowsChild \<Rightarrow> ExitStatus option \<times> 'w \<times> WindowsChild" where
  "WindowsChild_Poll k wc =
     (let w = fst wc; c = snd wc
      in if wc_exit c \<noteq> None then (wc_exit c, w, c)
         else if wc_ended c \<noteq> None then win_drain k (w, c)
         else case wi_wait k (wc_process c) 0 w of
                (False, w) \<Rightarrow> (None, w, c)
              | (True, w) \<Rightarrow>
                  (let code = (case wi_exitCode k (wc_process c) w of None \<Rightarrow> 0 | Some code \<Rightarrow> code);
                       c = c\<lparr>wc_ended := Some \<lparr>ex_code = sint code, ex_signal = 0\<rparr>,
                             wc_drainDeadline := wi_steady k w + ns_of_ms kill_grace\<rparr>
                   in win_drain k (wi_terminateJob k (wc_job c) code w, c)))"

definition WindowsChild_Kill :: "'w win32 \<Rightarrow> WindowsChild \<Rightarrow> 'w \<Rightarrow> 'w" where
  "WindowsChild_Kill k c w = (if wc_exit c = None then wi_terminateJob k (wc_job c) 1 w else w)"

definition WindowsChild_RequestStop :: "'w win32 \<Rightarrow> StopSignal \<Rightarrow> WindowsChild \<Rightarrow> 'w \<Rightarrow> 'w" where
  "WindowsChild_RequestStop k sig c w =
     (if wc_exit c \<noteq> None then w
      else if sig = SS_Kill then WindowsChild_Kill k c w
      else let w = wi_ctrlBreak k (wc_pid c) w;
               pids = JobProcessIds k (wc_job c) w
           in fold (CloseWindowOfMember k pids) (wi_windows k w) w)"

text \<open>The figures of one member: the sample, the handles counted so far, and whether all are known.\<close>

definition win_sample_member ::
  "'w win32 \<Rightarrow> ProcessTable \<Rightarrow> dword \<Rightarrow> UsageSample \<times> int \<times> bool \<times> 'w \<Rightarrow> UsageSample \<times> int \<times> bool \<times> 'w" where
  "win_sample_member k table member st =
     (case st of (sample, handles, known, w) \<Rightarrow>
        (let sample = (case ProcessTable_Find table (sint member) of
               None \<Rightarrow> sample
             | Some entry \<Rightarrow> sample\<lparr>us_threadCount := us_threadCount sample + pe_threads entry\<rparr>)
         in case wi_openProcess k member w of (opened, w) \<Rightarrow>
              if \<not> Valid opened then (sample, handles, False, w)
              else
                (let sample = (case wi_workingSet k opened w of
                       None \<Rightarrow> sample
                     | Some bytes \<Rightarrow> sample\<lparr>us_memoryBytes := us_memoryBytes sample + bytes\<rparr>);
                     count = wi_handleCount k opened w;
                     w' = close_handles k [opened] w
                 in case count of
                      None \<Rightarrow> (sample, handles, False, w')
                    | Some n \<Rightarrow> (sample, handles + sint n, known, w'))))"

definition win_accounting :: "'w win32 \<Rightarrow> int \<Rightarrow> 'w \<Rightarrow> UsageSample \<Rightarrow> UsageSample" where
  "win_accounting k job w sample =
     (case wi_accounting k job w of
        None \<Rightarrow> sample
      | Some (userTime, kernelTime, readBytes, writeBytes) \<Rightarrow>
          sample\<lparr>us_cpuTimeUsec := (userTime + kernelTime) div 10, us_ioReadBytes := readBytes, us_ioWriteBytes := writeBytes\<rparr>)"

definition WindowsChild_Sample ::
  "'w win32 \<Rightarrow> ProcessTable \<Rightarrow> 'w \<times> WindowsChild \<Rightarrow> UsageSample \<times> 'w \<times> WindowsChild" where
  "WindowsChild_Sample k table wc =
     (let w = fst wc; c = snd wc;
          members = JobProcessIds k (wc_job c) w;
          sample = (win_accounting k (wc_job c) w default_UsageSample)\<lparr>us_processCount := int (length members)\<rparr>
      in case fold (win_sample_member k table) members (sample, 0, members \<noteq> [], w) of
           (sample, handles, known, w) \<Rightarrow>
             (let peak = max (wc_peakMemory c) (us_memoryBytes sample)
              in (sample\<lparr>us_openFiles := if known then handles else -1, us_memoryPeakBytes := peak\<rparr>,
                  w, c\<lparr>wc_peakMemory := peak\<rparr>)))"

definition WindowsChild_MemberPids :: "'w win32 \<Rightarrow> WindowsChild \<Rightarrow> 'w \<Rightarrow> int list" where
  "WindowsChild_MemberPids k c w = sort (map sint (JobProcessIds k (wc_job c) w))"

section \<open>Launching\<close>

text \<open>The standard output and error of the service; an unset handle is 0.\<close>

definition win_output ::
  "'w win32 \<Rightarrow> LaunchRequest \<Rightarrow> 'w \<Rightarrow> ((LaunchCode \<times> string) + int \<times> int) \<times> 'w" where
  "win_output k request w =
     (if lr_output request = OM_File then
        case wi_createFile k (Widen k (lr_outputPath request)) AppendData w of
          (output, w) \<Rightarrow>
            if \<not> Valid output
            then (Inl (OutputFailed, ''cannot open '' @ lr_outputPath request @ '': ''
                         @ SystemErrorText k (wi_lastError k w)), w)
            else (Inr (output, 0), w)
      else if lr_output request = OM_Null then
        case OpenNul k GenericWrite w of (output, w) \<Rightarrow> (Inr (output, 0), w)
      else
        case InheritableCopy k (wi_standard k False w) w of
          (output, w) \<Rightarrow>
            case InheritableCopy k (wi_standard k True w) w of
              (errors, w) \<Rightarrow>
                if Valid output then (Inr (output, errors), w)
                else case OpenNul k GenericWrite w of (output, w) \<Rightarrow> (Inr (output, errors), w))"

definition cpu_rate :: "dword \<Rightarrow> dword \<Rightarrow> dword" where
  "cpu_rate percent processors = min (max (percent * 100 div max processors 1) 1) 10000"

text \<open>The job object with the limits of the request; a CPU limit that cannot be set is only logged.\<close>

definition open_job :: "'w win32 \<Rightarrow> LaunchRequest \<Rightarrow> 'w \<Rightarrow> ((LaunchCode \<times> string) + int) \<times> 'w" where
  "open_job k request w =
     (case wi_createJob k w of
        (job, w) \<Rightarrow>
          if \<not> Valid job
          then (Inl (SpawnFailed, ''cannot create a job object: '' @ SystemErrorText k (wi_lastError k w)), w)
          else case wi_setLimits k job (if lr_memoryMax request > 0 then Some (lr_memoryMax request) else None) w of
            (False, w) \<Rightarrow>
              (Inl (SpawnFailed, ''cannot configure the job object: '' @ SystemErrorText k (wi_lastError k w)),
               close_handles k [job] w)
          | (True, w) \<Rightarrow>
              (Inr job,
               if lr_cpuMaxPercent request > 0
               then snd (wi_setRate k job (cpu_rate (lr_cpuMaxPercent request) (wi_processors k w)) w)
               else w))"

definition start_error :: "dword \<Rightarrow> LaunchCode" where
  "start_error error =
     (if error = 267 then WorkingDirectoryMissing
      else if error \<in> {2, 3, 193} then BinaryNotFound
      else SpawnFailed)"

text \<open>The process, suspended, into its job; then it runs.\<close>

definition start_in_job ::
  "'w win32 \<Rightarrow> wide \<Rightarrow> wide \<Rightarrow> wide \<Rightarrow> wide \<Rightarrow> int \<times> int \<times> int \<Rightarrow> int \<Rightarrow> 'w
   \<Rightarrow> ((LaunchCode \<times> string) + WindowsChild) \<times> 'w" where
  "start_in_job k path line block directory streams job w =
     (case wi_start k path line block (if directory = [] then None else Some directory) streams w of
        (Inl error, w) \<Rightarrow>
          (Inl (start_error error, ''cannot start '' @ Narrow k path @ '': '' @ SystemErrorText k error),
           close_handles k [job] w)
      | (Inr (process, thread, pid), w) \<Rightarrow>
          (case wi_assign k job process w of
             (False, w) \<Rightarrow>
               (let problem = ''cannot put the process in its job object: '' @ SystemErrorText k (wi_lastError k w)
                in (Inl (SpawnFailed, problem),
                    close_handles k [thread, process, job] (wi_terminate k process 1 w)))
           | (True, w) \<Rightarrow>
               (Inr (new_WindowsChild process job pid), close_handles k [thread] (wi_resume k thread w))))"

definition launch_with_streams ::
  "'w win32 \<Rightarrow> LaunchRequest \<Rightarrow> wide \<Rightarrow> wide \<Rightarrow> wide \<Rightarrow> wide \<Rightarrow> int \<Rightarrow> int \<Rightarrow> int \<Rightarrow> 'w
   \<Rightarrow> ((LaunchCode \<times> string) + WindowsChild) \<times> 'w" where
  "launch_with_streams k request path line block directory input output errors w =
     (if \<not> Valid input \<or> \<not> Valid output
      then (Inl (OutputFailed, ''cannot prepare standard handles: '' @ SystemErrorText k (wi_lastError k w)), w)
      else
        let errorHandle = (if Valid errors then errors else output)
        in case open_job k request w of
             (Inl failure, w) \<Rightarrow> (Inl failure, w)
           | (Inr job, w) \<Rightarrow>
               (case wi_restrict k ([input, output] @ (if errorHandle \<noteq> output then [errorHandle] else [])) w of
                  (False, w) \<Rightarrow>
                    (Inl (SpawnFailed, ''cannot restrict inherited handles: '' @ SystemErrorText k (wi_lastError k w)),
                     close_handles k [job] w)
                | (True, w) \<Rightarrow> start_in_job k path line block directory (input, output, errorHandle) job w))"

definition Win_Launch ::
  "'w win32 \<Rightarrow> LaunchRequest \<Rightarrow> 'w \<Rightarrow> ((LaunchCode \<times> string) + WindowsChild) \<times> 'w" where
  "Win_Launch k request w =
     (case Win_ResolveBinary k request w of
        Inl failure \<Rightarrow> (Inl failure, w)
      | Inr path \<Rightarrow>
          (let directory = Widen k (lr_workingDirectory request)
           in if directory \<noteq> [] \<and> \<not> DirectoryExists k directory w
              then (Inl (WorkingDirectoryMissing,
                      ''working directory '' @ lr_workingDirectory request @ '' does not exist''), w)
              else
                let line = command_line path (map (Widen k) (lr_arguments request));
                    block = BuildEnvironmentBlock k (lr_environment request) w;
                    (input, w) = OpenNul k GenericRead w
                in case win_output k request w of
                     (Inl failure, w) \<Rightarrow> (Inl failure, close_handles k [input] w)
                   | (Inr (output, errors), w) \<Rightarrow>
                       (case launch_with_streams k request path line block directory input output errors w of
                          (r, w) \<Rightarrow> (r, close_handles k [errors, output, input] w))))"

text \<open>The world of the Windows launcher: the system and the child objects, by handle.\<close>

record 'w windows =
  wx_os :: 'w
  wx_children :: "WindowsChild option list"

definition wx_child :: "handle \<Rightarrow> 'w windows \<Rightarrow> WindowsChild option" where
  "wx_child h x = (if h < length (wx_children x) then wx_children x ! h else None)"

definition wx_live :: "'w windows \<Rightarrow> handle set" where
  "wx_live x = {h. wx_child h x \<noteq> None}"

definition wx_set :: "handle \<Rightarrow> WindowsChild option \<Rightarrow> 'w \<Rightarrow> 'w windows \<Rightarrow> 'w windows" where
  "wx_set h c w x = x\<lparr>wx_os := w, wx_children := (wx_children x)[h := c]\<rparr>"

definition wx_Launch ::
  "'w win32 \<Rightarrow> LaunchRequest \<Rightarrow> 'w windows \<Rightarrow> ((LaunchCode \<times> string) + handle) \<times> 'w windows" where
  "wx_Launch k request x =
     (case Win_Launch k request (wx_os x) of
        (Inl failure, w) \<Rightarrow> (Inl failure, x\<lparr>wx_os := w\<rparr>)
      | (Inr child, w) \<Rightarrow>
          (Inr (length (wx_children x)), x\<lparr>wx_os := w, wx_children := wx_children x @ [Some child]\<rparr>))"

definition wx_effect :: "(WindowsChild \<Rightarrow> 'w \<Rightarrow> 'w) \<Rightarrow> handle \<Rightarrow> 'w windows \<Rightarrow> 'w windows" where
  "wx_effect f h x = (case wx_child h x of None \<Rightarrow> x | Some c \<Rightarrow> x\<lparr>wx_os := f c (wx_os x)\<rparr>)"

definition windows_launcher :: "'w win32 \<Rightarrow> 'w windows launcher" where
  "windows_launcher k =
     \<lparr>l_Launch = wx_Launch k,
      l_Pid = \<lambda>h x. (case wx_child h x of None \<Rightarrow> 0 | Some c \<Rightarrow> WindowsChild_Pid c),
      l_Poll = \<lambda>h x. (case wx_child h x of
          None \<Rightarrow> (None, x)
        | Some c \<Rightarrow> (case WindowsChild_Poll k (wx_os x, c) of (r, w, c') \<Rightarrow> (r, wx_set h (Some c') w x))),
      l_RequestStop = \<lambda>h sig. wx_effect (WindowsChild_RequestStop k sig) h,
      l_Kill = wx_effect (WindowsChild_Kill k),
      l_Sample = \<lambda>h table x. (case wx_child h x of
          None \<Rightarrow> (default_UsageSample, x)
        | Some c \<Rightarrow> (case WindowsChild_Sample k table (wx_os x, c) of
                      (sample, w, c') \<Rightarrow> (sample, wx_set h (Some c') w x))),
      l_MemberPids = \<lambda>h table x. (case wx_child h x of
          None \<Rightarrow> [] | Some c \<Rightarrow> WindowsChild_MemberPids k c (wx_os x)),
      l_Destroy = \<lambda>h x. (case wx_child h x of
          None \<Rightarrow> x | Some c \<Rightarrow> wx_set h None (WindowsChild_Destroy k c (wx_os x)) x)\<rparr>"

section \<open>The ownership contract\<close>

lemma wx_child_set [simp]:
  "h < length (wx_children x) \<Longrightarrow> wx_child j (wx_set h c w x) = (if j = h then c else wx_child j x)"
  by (auto simp: wx_child_def wx_set_def)

lemma wx_child_Some: "wx_child h x = Some c \<Longrightarrow> h < length (wx_children x)"
  by (simp add: wx_child_def split: if_splits)

lemma wx_effect_live [simp]: "wx_live (wx_effect f h x) = wx_live x"
  by (simp add: wx_effect_def wx_live_def wx_child_def split: option.splits)

lemma wx_live_set [simp]:
  assumes "wx_child h x = Some c"
  shows "wx_live (wx_set h (Some c') w x) = wx_live x"
    and "wx_live (wx_set h None w x) = wx_live x - {h}"
  using assms wx_child_Some [OF assms] by (auto simp: wx_live_def)

lemma wx_live_none: "wx_child h x = None \<Longrightarrow> wx_live x - {h} = wx_live x"
  by (simp add: wx_live_def)

interpretation wx: process_launcher "windows_launcher k" wx_live for k
proof unfold_locales
  fix rq x h x'
  assume "l_Launch (windows_launcher k) rq x = (Inr h, x')"
  then obtain c w where "h = length (wx_children x)"
    and "x' = x\<lparr>wx_os := w, wx_children := wx_children x @ [Some c]\<rparr>"
    by (auto simp: windows_launcher_def wx_Launch_def split: prod.splits sum.splits)
  then show "h \<notin> wx_live x \<and> wx_live x' = insert h (wx_live x)"
    by (auto simp: wx_live_def wx_child_def nth_append)
next
  fix rq x e x'
  assume "l_Launch (windows_launcher k) rq x = (Inl e, x')"
  then show "wx_live x' = wx_live x"
    by (auto simp: windows_launcher_def wx_Launch_def wx_live_def wx_child_def split: prod.splits sum.splits)
qed (auto simp: windows_launcher_def wx_live_none split: option.splits prod.splits)

section \<open>The command line is read back\<close>

text \<open>
  The documented rules by which a program splits its command line. \<open>split q current rest\<close> are the
  arguments when \<open>rest\<close> is still to be read, \<open>current\<close> is the argument so far and \<open>q\<close> tells whether the
  position is within quotes: blanks outside quotes separate, a quote after an even number of
  backslashes switches, after an odd number it stands for itself, in both cases two backslashes stand
  for one, and other backslashes stand for themselves. The name of the program is read without
  backslash rules, up to the closing quote or the first blank.
\<close>

definition is_gap :: "wide \<Rightarrow> bool" where
  "is_gap rest \<longleftrightarrow> rest = [] \<or> (\<exists>c more_units. rest = 32 # c # more_units \<and> c \<noteq> 32 \<and> c \<noteq> 9)"

definition argument_rules :: "(bool \<Rightarrow> wide \<Rightarrow> wide \<Rightarrow> wide list) \<Rightarrow> bool" where
  "argument_rules split \<longleftrightarrow>
     (\<forall>q current. split q current [] = [current])
     \<and> (\<forall>current rest. is_gap rest \<longrightarrow> rest \<noteq> [] \<longrightarrow> split False current rest = current # split False [] (tl rest))
     \<and> (\<forall>q current c rest. c \<notin> {0, backslash, quote_mark} \<longrightarrow> (q \<or> c \<notin> {32, 9}) \<longrightarrow>
          split q current (c # rest) = split q (current @ [c]) rest)
     \<and> (\<forall>q current n rest. (rest = [] \<or> hd rest \<notin> {backslash, quote_mark}) \<longrightarrow>
          split q current (replicate n backslash @ rest) = split q (current @ replicate n backslash) rest)
     \<and> (\<forall>q current n rest. \<not> (q \<and> rest \<noteq> [] \<and> hd rest = quote_mark) \<longrightarrow>
          split q current (replicate (2 * n) backslash @ [quote_mark] @ rest)
            = split (\<not> q) (current @ replicate n backslash) rest)
     \<and> (\<forall>q current n rest.
          split q current (replicate (2 * n + 1) backslash @ [quote_mark] @ rest)
            = split q (current @ replicate n backslash @ [quote_mark]) rest)"

definition name_rules :: "(wide \<Rightarrow> wide list) \<Rightarrow> (bool \<Rightarrow> wide \<Rightarrow> wide \<Rightarrow> wide list) \<Rightarrow> bool" where
  "name_rules argv split \<longleftrightarrow>
     (\<forall>n rest. is_gap rest \<longrightarrow> quote_mark \<notin> set n \<longrightarrow>
        argv ([quote_mark] @ n @ [quote_mark] @ rest) = n # (if rest = [] then [] else split False [] (tl rest)))
     \<and> (\<forall>n rest. is_gap rest \<longrightarrow> n \<noteq> [] \<longrightarrow> set n \<inter> {32, 9, quote_mark} = {} \<longrightarrow>
        argv (n @ rest) = n # (if rest = [] then [] else split False [] (tl rest)))"

lemmas unit_defs = backslash_def quote_mark_def special_units_def

lemma run_of_backslashes:
  "argument = replicate (length (takeWhile (\<lambda>c. c = backslash) argument)) backslash
    @ drop (length (takeWhile (\<lambda>c. c = backslash) argument)) argument"
  by (induction argument) auto

lemma after_run: "drop (length (takeWhile (\<lambda>c. c = backslash) argument)) argument = c # rest \<Longrightarrow> c \<noteq> backslash"
  by (induction argument) (auto split: if_splits)

lemma run_cases:
  obtains (run) n where "argument = replicate n backslash" "n = length (takeWhile (\<lambda>c. c = backslash) argument)"
      "drop n argument = []"
  | (unit) n c rest where "argument = replicate n backslash @ c # rest" "c \<noteq> backslash"
      "n = length (takeWhile (\<lambda>c. c = backslash) argument)" "drop n argument = c # rest"
proof (cases "drop (length (takeWhile (\<lambda>c. c = backslash) argument)) argument")
  case Nil
  with run_of_backslashes [of argument] run show ?thesis by simp
next
  case (Cons c rest)
  with run_of_backslashes [of argument] after_run [OF Cons] unit show ?thesis by metis
qed

declare quote_loop.simps [simp del]

lemma quote_loop_run: "drop (length (takeWhile (\<lambda>c. c = backslash) a)) a = []
    \<Longrightarrow> quote_loop a = replicate (2 * length (takeWhile (\<lambda>c. c = backslash) a)) backslash"
  by (subst quote_loop.simps) (simp add: Let_def)

lemma quote_loop_unit: "drop (length (takeWhile (\<lambda>c. c = backslash) a)) a = c # rest
    \<Longrightarrow> quote_loop a = replicate (if c = quote_mark then 2 * length (takeWhile (\<lambda>c. c = backslash) a) + 1
        else length (takeWhile (\<lambda>c. c = backslash) a)) backslash @ [c] @ quote_loop rest"
  by (subst quote_loop.simps) (simp add: Let_def)

lemma argument_rules_use:
  assumes "argument_rules split"
  shows rule_end: "split q current [] = [current]"
    and rule_gap: "is_gap rest \<Longrightarrow> rest \<noteq> [] \<Longrightarrow> split False current rest = current # split False [] (tl rest)"
    and rule_unit: "c \<notin> {0, backslash, quote_mark} \<Longrightarrow> q \<or> c \<notin> {32, 9}
      \<Longrightarrow> split q current (c # rest) = split q (current @ [c]) rest"
    and rule_run: "rest = [] \<or> hd rest \<notin> {backslash, quote_mark}
      \<Longrightarrow> split q current (replicate n backslash @ rest) = split q (current @ replicate n backslash) rest"
    and rule_even: "\<not> (q \<and> rest \<noteq> [] \<and> hd rest = quote_mark)
      \<Longrightarrow> split q current (replicate (2 * n) backslash @ [quote_mark] @ rest)
        = split (\<not> q) (current @ replicate n backslash) rest"
    and rule_odd: "split q current (replicate (2 * n + 1) backslash @ [quote_mark] @ rest)
        = split q (current @ replicate n backslash @ [quote_mark]) rest"
proof -
  note rules = assms [unfolded argument_rules_def]
  note rest_rules = rules [THEN conjunct2]
  note runs = rest_rules [THEN conjunct2, THEN conjunct2]
  show "split q current [] = [current]" by (rule rules [THEN conjunct1, rule_format])
  show "is_gap rest \<Longrightarrow> rest \<noteq> [] \<Longrightarrow> split False current rest = current # split False [] (tl rest)"
    by (rule rest_rules [THEN conjunct1, rule_format])
  show "c \<notin> {0, backslash, quote_mark} \<Longrightarrow> q \<or> c \<notin> {32, 9}
      \<Longrightarrow> split q current (c # rest) = split q (current @ [c]) rest"
    by (rule rest_rules [THEN conjunct2, THEN conjunct1, rule_format])
  show "rest = [] \<or> hd rest \<notin> {backslash, quote_mark}
      \<Longrightarrow> split q current (replicate n backslash @ rest) = split q (current @ replicate n backslash) rest"
    by (rule runs [THEN conjunct1, rule_format])
  show "\<not> (q \<and> rest \<noteq> [] \<and> hd rest = quote_mark)
      \<Longrightarrow> split q current (replicate (2 * n) backslash @ [quote_mark] @ rest)
        = split (\<not> q) (current @ replicate n backslash) rest"
    by (rule runs [THEN conjunct2, THEN conjunct1, rule_format])
  show "split q current (replicate (2 * n + 1) backslash @ [quote_mark] @ rest)
        = split q (current @ replicate n backslash @ [quote_mark]) rest"
    by (rule runs [THEN conjunct2, THEN conjunct2, rule_format])
qed

lemma read_quote_loop:
  assumes rules: "argument_rules split" and gap: "rest = [] \<or> hd rest \<noteq> quote_mark"
  shows "0 \<notin> set argument
    \<Longrightarrow> split True current (quote_loop argument @ [quote_mark] @ rest) = split False (current @ argument) rest"
proof (induction argument arbitrary: current rule: quote_loop.induct)
  case (1 argument)
  show ?case
  proof (cases rule: run_cases [of argument])
    case (run n)
    have loop: "quote_loop argument = replicate (2 * n) backslash" using quote_loop_run run(2,3) by simp
    show ?thesis unfolding loop unfolding run(1)
      using rule_even [OF rules, of True rest current n] gap by simp
  next
    case (unit n c tail)
    have loop: "quote_loop argument
        = replicate (if c = quote_mark then 2 * n + 1 else n) backslash @ [c] @ quote_loop tail"
      using quote_loop_unit [of argument c tail] unit(3,4) by simp
    have tail: "0 \<notin> set tail" "c \<noteq> 0" using 1(2) unit(1) by auto
    have IH: "split True current' (quote_loop tail @ [quote_mark] @ rest) = split False (current' @ tail) rest"
      for current' by (rule 1(1) [OF unit(3) unit(4) tail(1)])
    show ?thesis
    proof (cases "c = quote_mark")
      case True
      have "split True current (quote_loop argument @ [quote_mark] @ rest)
          = split True (current @ replicate n backslash @ [quote_mark]) (quote_loop tail @ [quote_mark] @ rest)"
        unfolding loop using rule_odd [OF rules, of True current n "quote_loop tail @ [quote_mark] @ rest"] True
        by simp
      also have "\<dots> = split False ((current @ replicate n backslash @ [quote_mark]) @ tail) rest" by (rule IH)
      finally show ?thesis using unit(1) True by simp
    next
      case False
      have "split True current (quote_loop argument @ [quote_mark] @ rest)
          = split True current (replicate n backslash @ (c # quote_loop tail @ [quote_mark] @ rest))"
        unfolding loop using False by simp
      also have "\<dots> = split True (current @ replicate n backslash) (c # quote_loop tail @ [quote_mark] @ rest)"
        by (rule rule_run [OF rules]) (simp add: False unit(2))
      also have "\<dots> = split True ((current @ replicate n backslash) @ [c]) (quote_loop tail @ [quote_mark] @ rest)"
        by (rule rule_unit [OF rules]) (simp_all add: False unit(2) tail(2))
      also have "\<dots> = split False (((current @ replicate n backslash) @ [c]) @ tail) rest" by (rule IH)
      finally show ?thesis using unit(1) by simp
    qed
  qed
qed

lemma read_plain:
  assumes rules: "argument_rules split" and gap: "rest = [] \<or> hd rest \<notin> {backslash, quote_mark}"
  shows "\<forall>c \<in> set argument. c \<notin> set special_units \<and> c \<noteq> 0
    \<Longrightarrow> split False current (argument @ rest) = split False (current @ argument) rest"
proof (induction argument arbitrary: current rule: quote_loop.induct)
  case (1 argument)
  show ?case
  proof (cases rule: run_cases [of argument])
    case (run n)
    show ?thesis unfolding run(1) by (rule rule_run [OF rules gap])
  next
    case (unit n c tail)
    have c: "c \<noteq> 0" "c \<noteq> quote_mark" "c \<noteq> 32" "c \<noteq> 9" using 1(2) unit(1) by (auto simp: special_units_def)
    have tail: "\<forall>c \<in> set tail. c \<notin> set special_units \<and> c \<noteq> 0" using 1(2) unit(1) by simp
    have "split False current (argument @ rest) = split False current (replicate n backslash @ (c # tail @ rest))"
      using unit(1) by simp
    also have "\<dots> = split False (current @ replicate n backslash) (c # tail @ rest)"
      by (rule rule_run [OF rules]) (simp add: c unit(2))
    also have "\<dots> = split False ((current @ replicate n backslash) @ [c]) (tail @ rest)"
      by (rule rule_unit [OF rules]) (simp_all add: c unit(2))
    also have "\<dots> = split False (((current @ replicate n backslash) @ [c]) @ tail) rest"
      by (rule 1(1) [OF unit(3) unit(4) tail])
    finally show ?thesis using unit(1) by simp
  qed
qed

lemma gap_head:
  assumes "is_gap rest"
  shows "rest = [] \<or> hd rest \<noteq> quote_mark" and "rest = [] \<or> hd rest \<notin> {backslash, quote_mark}"
  using assms by (auto simp: is_gap_def unit_defs)

lemma read_argument:
  assumes rules: "argument_rules split" and gap: "is_gap rest" and zero: "0 \<notin> set argument"
  shows "split False [] (QuoteArgument argument @ rest) = split False argument rest"
proof (cases "argument \<noteq> [] \<and> (\<forall>c \<in> set argument. c \<notin> set special_units)")
  case True
  then have "\<forall>c \<in> set argument. c \<notin> set special_units \<and> c \<noteq> 0" using zero by auto
  from read_plain [OF rules gap_head(2) [OF gap] this, of "[]"] True show ?thesis
    by (simp add: QuoteArgument_def)
next
  case False
  then have quoted: "QuoteArgument argument = [quote_mark] @ quote_loop argument @ [quote_mark]"
    unfolding QuoteArgument_def by (rule if_not_P)
  have "split False [] (QuoteArgument argument @ rest) = split True [] (quote_loop argument @ [quote_mark] @ rest)"
    unfolding quoted using rule_even [OF rules, of False "quote_loop argument @ [quote_mark] @ rest" "[]" 0] by simp
  also have "\<dots> = split False argument rest"
    using read_quote_loop [OF rules gap_head(1) [OF gap] zero, of "[]"] by simp
  finally show ?thesis .
qed

lemma QuoteArgument_head: "\<exists>c rest. QuoteArgument argument = c # rest \<and> c \<noteq> 32 \<and> c \<noteq> 9"
proof (cases "argument \<noteq> [] \<and> (\<forall>c \<in> set argument. c \<notin> set special_units)")
  case True
  then show ?thesis by (cases argument) (auto simp: QuoteArgument_def unit_defs)
next
  case False
  then have "QuoteArgument argument = quote_mark # quote_loop argument @ [quote_mark]"
    unfolding QuoteArgument_def by (simp only: if_False append_Cons append_Nil)
  then show ?thesis by (simp add: unit_defs)
qed

definition arguments_text :: "wide list \<Rightarrow> wide" where
  "arguments_text arguments = concat (map (\<lambda>a. [32] @ QuoteArgument a) arguments)"

lemma arguments_text_Cons: "arguments_text (a # arguments) = 32 # QuoteArgument a @ arguments_text arguments"
  by (simp add: arguments_text_def)

lemma arguments_text_gap: "is_gap (arguments_text arguments)"
proof (cases arguments)
  case (Cons a rest)
  with QuoteArgument_head [of a] show ?thesis by (auto simp: is_gap_def arguments_text_Cons)
qed (simp add: is_gap_def arguments_text_def)

lemma read_arguments:
  assumes rules: "argument_rules split"
  shows "\<forall>a \<in> set arguments. 0 \<notin> set a
    \<Longrightarrow> split False current (arguments_text arguments) = current # arguments"
proof (induction arguments arbitrary: current)
  case Nil
  show ?case using rule_end [OF rules] by (simp add: arguments_text_def)
next
  case (Cons a rest)
  have "split False current (arguments_text (a # rest))
      = current # split False [] (tl (arguments_text (a # rest)))"
    by (rule rule_gap [OF rules arguments_text_gap]) (simp add: arguments_text_Cons)
  also have "tl (arguments_text (a # rest)) = QuoteArgument a @ arguments_text rest"
    by (simp add: arguments_text_Cons)
  also have "split False [] \<dots> = split False a (arguments_text rest)"
    by (rule read_argument [OF rules arguments_text_gap]) (use Cons.prems in simp)
  also have "\<dots> = a # rest" using Cons by simp
  finally show ?case .
qed

lemma quote_loop_path:
  "quote_mark \<notin> set path \<Longrightarrow> path = [] \<or> last path \<noteq> backslash \<Longrightarrow> quote_loop path = path"
proof (induction path rule: quote_loop.induct)
  case (1 path)
  show ?case
  proof (cases rule: run_cases [of path])
    case (run n)
    have "n = 0"
    proof (rule ccontr)
      assume "n \<noteq> 0"
      then have "path \<noteq> [] \<and> last path = backslash" unfolding run(1) by simp
      with 1(3) show False by blast
    qed
    then have "path = []" using run(1) by simp
    with quote_loop_run [of path] show ?thesis by simp
  next
    case (unit n c tail)
    have tail: "quote_mark \<notin> set tail" "tail = [] \<or> last tail \<noteq> backslash" "c \<noteq> quote_mark"
      using 1(2,3) unit(1) by (auto split: if_splits)
    have "quote_loop path = replicate n backslash @ [c] @ quote_loop tail"
      using quote_loop_unit [of path c tail] unit(3,4) tail(3) by simp
    also have "quote_loop tail = tail" by (rule 1(1) [OF unit(3,4) tail(1,2)])
    finally show ?thesis unfolding unit(1) by simp
  qed
qed

text \<open>
  C36: a program that a service is started as reads back exactly its arguments. Splitting the command
  line by the documented rules gives the path of the program and then every argument, whatever
  blanks, quotes and backslashes they contain.
\<close>

theorem windows_arguments_round_trip:
  assumes "argument_rules split" and "name_rules argv split"
    and "path \<noteq> []" and "quote_mark \<notin> set path" and "last path \<noteq> backslash"
    and "\<forall>a \<in> set arguments. 0 \<notin> set a"
  shows "argv (command_line path arguments) = path # arguments"
proof -
  let ?rest = "arguments_text arguments"
  have line: "command_line path arguments = QuoteArgument path @ ?rest"
    by (simp add: command_line_def arguments_text_def)
  have rest: "(if ?rest = [] then [] else split False [] (tl ?rest)) = arguments"
  proof (cases arguments)
    case (Cons a others)
    have "split False [] ?rest = [] # split False [] (tl ?rest)"
      by (rule rule_gap [OF assms(1) arguments_text_gap]) (simp add: Cons arguments_text_Cons)
    with read_arguments [OF assms(1,6), of "[]"] have "split False [] (tl ?rest) = arguments" by simp
    moreover have "?rest \<noteq> []" by (simp add: Cons arguments_text_Cons)
    ultimately show ?thesis by simp
  qed (simp add: arguments_text_def)
  note names = assms(2) [unfolded name_rules_def]
  show ?thesis
  proof (cases "\<forall>c \<in> set path. c \<notin> set special_units")
    case True
    then have plain: "set path \<inter> {32, 9, quote_mark} = {}" by (auto simp: special_units_def)
    have "argv (path @ ?rest) = path # (if ?rest = [] then [] else split False [] (tl ?rest))"
      by (rule names [THEN conjunct2, rule_format, OF arguments_text_gap assms(3) plain])
    with rest line True assms(3) show ?thesis by (simp add: QuoteArgument_def)
  next
    case False
    then have "QuoteArgument path = [quote_mark] @ path @ [quote_mark]"
      using quote_loop_path [OF assms(4)] assms(5) unfolding QuoteArgument_def by simp
    moreover have "argv ([quote_mark] @ path @ [quote_mark] @ ?rest)
        = path # (if ?rest = [] then [] else split False [] (tl ?rest))"
      by (rule names [THEN conjunct1, rule_format, OF arguments_text_gap assms(4)])
    ultimately show ?thesis using rest line by simp
  qed
qed

text \<open>A splitter that follows the rules.\<close>

function sample_split :: "bool \<Rightarrow> wide \<Rightarrow> wide \<Rightarrow> wide list" where
  "sample_split q current rest =
     (let n = length (takeWhile (\<lambda>c. c = backslash) rest)
      in case drop n rest of
           [] \<Rightarrow> [current @ replicate n backslash]
         | c # r \<Rightarrow>
             if c = quote_mark then
               (if odd n then sample_split q (current @ replicate (n div 2) backslash @ [quote_mark]) r
                else sample_split (\<not> q) (current @ replicate (n div 2) backslash) r)
             else if \<not> q \<and> c \<in> {32, 9} then (current @ replicate n backslash) # sample_split False [] r
             else sample_split q (current @ replicate n backslash @ [c]) r)"
  by pat_completeness auto
termination
proof (relation "measure (\<lambda>(q, current, rest). length rest)", goal_cases)
  case (2 q current rest n c r)
  then have "length (drop n rest) = Suc (length r)" by simp
  then show ?case by simp
next
  case (3 q current rest n c r)
  then have "length (drop n rest) = Suc (length r)" by simp
  then show ?case by simp
next
  case (4 q current rest n c r)
  then have "length (drop n rest) = Suc (length r)" by simp
  then show ?case by simp
next
  case (5 q current rest n c r)
  then have "length (drop n rest) = Suc (length r)" by simp
  then show ?case by simp
qed simp

declare sample_split.simps [simp del]

definition sample_argv :: "wide \<Rightarrow> wide list" where
  "sample_argv line =
     (let (n, rest) = (case line of
            [] \<Rightarrow> ([], [])
          | c # others \<Rightarrow>
              if c = quote_mark
              then (takeWhile (\<lambda>d. d \<noteq> quote_mark) others, tl (dropWhile (\<lambda>d. d \<noteq> quote_mark) others))
              else (takeWhile (\<lambda>d. d \<notin> {32, 9}) line, dropWhile (\<lambda>d. d \<notin> {32, 9}) line))
      in n # (if rest = [] then [] else sample_split False [] (tl rest)))"

lemma takeWhile_run: "rest = [] \<or> hd rest \<noteq> b
  \<Longrightarrow> takeWhile (\<lambda>c. c = b) (replicate n b @ rest) = replicate n b"
  by (induction n) (cases rest; simp)+

lemma sample_split_run:
  assumes "rest = [] \<or> hd rest \<noteq> backslash"
  shows "sample_split q current (replicate n backslash @ rest) =
     (case rest of
        [] \<Rightarrow> [current @ replicate n backslash]
      | c # r \<Rightarrow>
          if c = quote_mark then
            (if odd n then sample_split q (current @ replicate (n div 2) backslash @ [quote_mark]) r
             else sample_split (\<not> q) (current @ replicate (n div 2) backslash) r)
          else if \<not> q \<and> c \<in> {32, 9} then (current @ replicate n backslash) # sample_split False [] r
          else sample_split q (current @ replicate n backslash @ [c]) r)"
  unfolding sample_split.simps [of q current "replicate n backslash @ rest"] takeWhile_run [OF assms]
  by (simp add: Let_def)

lemma sample_split_plain:
  "rest = [] \<or> hd rest \<noteq> backslash \<Longrightarrow> sample_split q current rest =
     (case rest of
        [] \<Rightarrow> [current]
      | c # r \<Rightarrow>
          if c = quote_mark then sample_split (\<not> q) current r
          else if \<not> q \<and> c \<in> {32, 9} then current # sample_split False [] r
          else sample_split q (current @ [c]) r)"
  using sample_split_run [of rest q current 0] by (simp split: list.splits)

lemma sample_rules: "argument_rules sample_split"
  unfolding argument_rules_def
proof (intro conjI allI impI, goal_cases)
  case (1 q current)
  show ?case by (simp add: sample_split_plain)
next
  case (2 current rest)
  then show ?case by (auto simp: is_gap_def sample_split_plain unit_defs)
next
  case (3 q current c rest)
  then show ?case by (auto simp: sample_split_plain)
next
  case (4 q current n rest)
  then have plain: "rest = [] \<or> hd rest \<noteq> backslash" by blast
  show ?case
    using 4 sample_split_run [OF plain, of q current n] sample_split_plain [OF plain, of q "current @ replicate n backslash"]
    by (cases rest) auto
next
  case (5 q current n rest)
  have plain: "quote_mark # rest = [] \<or> hd (quote_mark # rest) \<noteq> backslash" by (simp add: unit_defs)
  show ?case using sample_split_run [OF plain, of q current "2 * n"] by simp
next
  case (6 q current n rest)
  have plain: "quote_mark # rest = [] \<or> hd (quote_mark # rest) \<noteq> backslash" by (simp add: unit_defs)
  show ?case using sample_split_run [OF plain, of q current "2 * n + 1"] by simp
qed

lemma takeWhile_none: "\<forall>c \<in> set n. P c \<Longrightarrow> rest = [] \<or> \<not> P (hd rest)
  \<Longrightarrow> takeWhile P (n @ rest) = n \<and> dropWhile P (n @ rest) = rest"
  by (induction n) (cases rest; simp)+

lemma sample_names: "name_rules sample_argv sample_split"
  unfolding name_rules_def
proof (intro conjI allI impI, goal_cases)
  case (1 n rest)
  then have "takeWhile (\<lambda>d. d \<noteq> quote_mark) (n @ quote_mark # rest) = n
      \<and> dropWhile (\<lambda>d. d \<noteq> quote_mark) (n @ quote_mark # rest) = quote_mark # rest"
    by (intro takeWhile_none) auto
  then show ?case by (simp add: sample_argv_def Let_def)
next
  case (2 n rest)
  then have "takeWhile (\<lambda>d. d \<notin> {32, 9}) (n @ rest) = n \<and> dropWhile (\<lambda>d. d \<notin> {32, 9}) (n @ rest) = rest"
    by (intro takeWhile_none) (auto simp: is_gap_def)
  moreover obtain c others where "n = c # others" "c \<noteq> quote_mark" using 2 by (cases n) auto
  ultimately show ?case by (simp add: sample_argv_def Let_def)
qed

theorem windows_arguments_round_trip_witness:
  "sample_argv (command_line (wide_of ''C:/x.exe'') [wide_of ''a b'', [backslash, quote_mark], []])
    = [wide_of ''C:/x.exe'', wide_of ''a b'', [backslash, quote_mark], []]"
  by (rule windows_arguments_round_trip [OF sample_rules sample_names])
    (simp_all add: wide_of_def unit_defs)

section \<open>The exit of a service\<close>

text \<open>
  Once the main process has ended the job is terminated, and the exit is reported only when no process
  is left in the job or the grace period is over; then it is reported.
\<close>

lemma windows_exit_waits_for_job:
  assumes "wc_exit c = None" and "wc_ended c = Some status"
  shows "fst (WindowsChild_Poll k (w, c)) = None
      \<longleftrightarrow> 0 < ActiveProcesses k (wc_job c) w \<and> wi_steady k w < wc_drainDeadline c"
    and "fst (WindowsChild_Poll k (w, c)) \<in> {None, Some status}"
  using assms by (auto simp: WindowsChild_Poll_def win_drain_def Let_def)

text \<open>A service whose exit is known gets no signal.\<close>

lemma windows_exited_child_is_left_alone:
  assumes "wc_exit c = Some status"
  shows "WindowsChild_Poll k (w, c) = (Some status, w, c)" and "WindowsChild_Kill k c w = w"
    and "WindowsChild_RequestStop k sig c w = w"
    and "WindowsChild_Destroy k c w = close_handles k [wc_job c, wc_process c] w"
  using assms
  by (simp_all add: WindowsChild_Poll_def WindowsChild_Kill_def WindowsChild_RequestStop_def WindowsChild_Destroy_def)

end
