(* ===== verification/Windows_Host.thy ===== *)
theory Windows_Host
  imports Windows_Launcher System_Monitor Host_Services Gpu_Library
begin

text \<open>
  The remaining Windows files (\<open>src/manager/src/windows\<close>): the process snapshot, the figures of the
  host, console events, the console, where the GPU driver is looked for and the systemd notifier, which
  does nothing there. The functions
  of the Win32 interface extend those of the launcher.
\<close>

text \<open>
  \<open>wh_processes\<close> walks a snapshot of processes: ID, parent and threads; \<open>wh_systemTimes\<close> are the high
  and low halves of the idle, kernel and user time; \<open>wh_arguments\<close> is the split command line of the
  program itself.
\<close>

record 'w win_host = "'w win32" +
  wh_processes :: "'w \<Rightarrow> (dword \<times> dword \<times> dword) list option"
  wh_systemTimes :: "'w \<Rightarrow> ((dword \<times> dword) \<times> (dword \<times> dword) \<times> (dword \<times> dword)) option"
  wh_memory :: "'w \<Rightarrow> (64 word \<times> 64 word) option"
  wh_tickCount :: "'w \<Rightarrow> 64 word"
  wh_hostName :: "'w \<Rightarrow> wide option"
  wh_sleep :: "dword \<Rightarrow> 'w \<Rightarrow> 'w"
  wh_outputCP :: "'w \<Rightarrow> dword"
  wh_setOutputCP :: "dword \<Rightarrow> 'w \<Rightarrow> bool \<times> 'w"
  wh_consoleMode :: "int \<Rightarrow> 'w \<Rightarrow> dword option"
  wh_setConsoleMode :: "int \<Rightarrow> dword \<Rightarrow> 'w \<Rightarrow> bool \<times> 'w"
  wh_arguments :: "'w \<Rightarrow> wide list option"
  wh_moduleName :: "'w \<Rightarrow> wide"
  wh_loadLibrary :: "wide \<Rightarrow> 'w \<Rightarrow> pointer option \<times> 'w"

section \<open>Processes\<close>

definition entry_of :: "dword \<times> dword \<times> dword \<Rightarrow> ProcessEntry" where
  "entry_of p =
     (case p of (pid, parent, threads) \<Rightarrow>
        \<lparr>pe_pid = sint pid, pe_parentPid = sint parent, pe_processGroup = 0, pe_session = 0,
         pe_cpuTimeUsec = 0, pe_childCpuTimeUsec = 0, pe_rssBytes = 0, pe_threads = sint threads,
         pe_zombie = False\<rparr>)"

definition Win_Capture :: "('w, 'more) win_host_scheme \<Rightarrow> 'w \<Rightarrow> ProcessTable" where
  "Win_Capture k w =
     (case wh_processes k w of
        None \<Rightarrow> []
      | Some processes \<Rightarrow> fold (\<lambda>p table. ProcessTable_Add (entry_of p) table) processes [])"

section \<open>The host\<close>

definition Ticks :: "dword \<times> dword \<Rightarrow> 64 word" where
  "Ticks t = (case t of (high, low) \<Rightarrow> push_bit 32 (ucast high) OR ucast low)"

definition Win_HostName :: "('w, 'more) win_host_scheme \<Rightarrow> 'w \<Rightarrow> string" where
  "Win_HostName k w = (case wh_hostName k w of None \<Rightarrow> [] | Some n \<Rightarrow> wi_narrow k n)"

text \<open>The busy and the total time; the kernel time includes the idle time.\<close>

definition cpu_times ::
  "(dword \<times> dword) \<times> (dword \<times> dword) \<times> (dword \<times> dword) \<Rightarrow> CpuTimes" where
  "cpu_times t =
     (case t of (idleTime, kernelTime, userTime) \<Rightarrow>
        \<lparr>ct_busy = Ticks kernelTime + Ticks userTime - Ticks idleTime, ct_total = Ticks kernelTime + Ticks userTime\<rparr>)"

definition Win_SystemSample ::
  "('w, 'more) win_host_scheme \<Rightarrow> 'w \<Rightarrow> SystemMonitor \<Rightarrow> SystemSnapshot \<times> SystemMonitor" where
  "Win_SystemSample k w sm =
     (let (record1, sm') =
            (case wh_systemTimes k w of
               None \<Rightarrow> (default_SystemRecord, sm)
             | Some t \<Rightarrow>
                 (default_SystemRecord\<lparr>sy_cpuPercent := system_cpu_percent (cpu_times t) sm\<rparr>,
                  \<lparr>sm_previousBusy = ct_busy (cpu_times t), sm_previousTotal = ct_total (cpu_times t),
                   sm_hasPrevious = True\<rparr>));
          record2 =
            (case wh_memory k w of
               None \<Rightarrow> record1
             | Some (physical, available) \<Rightarrow>
                 record1\<lparr>sy_memoryTotalBytes := physical, sy_memoryAvailableBytes := available\<rparr>);
          processors = wi_processors k w
      in (\<lparr>ss_record = record2\<lparr>sy_uptimeSeconds := wh_tickCount k w div 1000,
                              sy_cpuCount := (if processors > 0 then processors else 1)\<rparr>,
           ss_hostName = Win_HostName k w\<rparr>, sm'))"

section \<open>Console events\<close>

definition close_grace_ms :: dword where "close_grace_ms = 4500"

text \<open>The handler: whether it took the event, and the flag of the stop request.\<close>

definition HandleConsoleEvent ::
  "('w, 'more) win_host_scheme \<Rightarrow> dword \<Rightarrow> bool \<times> 'w \<Rightarrow> bool \<times> bool \<times> 'w" where
  "HandleConsoleEvent k event st =
     (case st of (stopRequested, w) \<Rightarrow>
        if event \<in> {0, 1} then (True, True, w)
        else if event \<in> {2, 6} then (True, True, wh_sleep k close_grace_ms w)
        else (False, stopRequested, w))"

definition Win_TakeStopRequest :: "bool \<Rightarrow> bool \<times> bool" where
  "Win_TakeStopRequest stopRequested = (stopRequested, False)"

definition Win_TakeReloadRequest :: bool where
  "Win_TakeReloadRequest = False"

section \<open>The console\<close>

definition CP_UTF8 :: dword where "CP_UTF8 = 65001"
definition ENABLE_VIRTUAL_TERMINAL_PROCESSING :: dword where "ENABLE_VIRTUAL_TERMINAL_PROCESSING = 4"

datatype exit_action = RestoreCodePage | RestoreMode

record Console =
  co_originalCodePage :: dword
  co_originalMode :: dword
  co_modeChanged :: bool
  co_atexit :: "exit_action list"

definition new_Console :: Console where
  "new_Console = \<lparr>co_originalCodePage = 0, co_originalMode = 0, co_modeChanged = False, co_atexit = []\<rparr>"

definition Win_UseUtf8Output :: "('w, 'more) win_host_scheme \<Rightarrow> Console \<times> 'w \<Rightarrow> Console \<times> 'w" where
  "Win_UseUtf8Output k cw =
     (case cw of (c, w) \<Rightarrow>
        (let current = wh_outputCP k w
         in if current = 0 \<or> current = CP_UTF8 \<or> co_originalCodePage c \<noteq> 0 then (c, w)
            else
              let c = c\<lparr>co_originalCodePage := current\<rparr>
              in case wh_setOutputCP k CP_UTF8 w of
                   (ok, w) \<Rightarrow> ((if ok then c\<lparr>co_atexit := RestoreCodePage # co_atexit c\<rparr> else c), w)))"

definition Win_EnableEscapes :: "('w, 'more) win_host_scheme \<Rightarrow> Console \<times> 'w \<Rightarrow> bool \<times> Console \<times> 'w" where
  "Win_EnableEscapes k cw =
     (case cw of (c, w) \<Rightarrow>
        (let output = wi_standard k False w
         in case (if output = -1 then None else wh_consoleMode k output w) of
              None \<Rightarrow> (False, c, w)
            | Some mode \<Rightarrow>
                if mode AND ENABLE_VIRTUAL_TERMINAL_PROCESSING \<noteq> 0 then (True, c, w)
                else case wh_setConsoleMode k output (mode OR ENABLE_VIRTUAL_TERMINAL_PROCESSING) w of
                  (False, w) \<Rightarrow> (False, c, w)
                | (True, w) \<Rightarrow>
                    (True,
                     (if co_modeChanged c then c
                      else c\<lparr>co_originalMode := mode, co_modeChanged := True,
                             co_atexit := RestoreMode # co_atexit c\<rparr>), w)))"

text \<open>The end of the program runs what was registered, the last first.\<close>

fun run_action :: "('w, 'more) win_host_scheme \<Rightarrow> Console \<Rightarrow> exit_action \<Rightarrow> 'w \<Rightarrow> 'w" where
  "run_action k c RestoreCodePage w = snd (wh_setOutputCP k (co_originalCodePage c) w)"
| "run_action k c RestoreMode w = snd (wh_setConsoleMode k (wi_standard k False w) (co_originalMode c) w)"

definition program_exit :: "('w, 'more) win_host_scheme \<Rightarrow> Console \<times> 'w \<Rightarrow> 'w" where
  "program_exit k cw = (case cw of (c, w) \<Rightarrow> fold (run_action k c) (co_atexit c) w)"

definition Win_Arguments :: "('w, 'more) win_host_scheme \<Rightarrow> string list \<Rightarrow> 'w \<Rightarrow> string list" where
  "Win_Arguments k argv w =
     (case wh_arguments k w of
        None \<Rightarrow> drop 1 argv
      | Some arguments \<Rightarrow> map (Narrow (win32.truncate k)) (drop 1 arguments))"

text \<open>The configuration file beside the program: what follows the last slash of its path is replaced.\<close>

definition module_directory :: "wide \<Rightarrow> wide" where
  "module_directory path =
     (if \<exists>c \<in> set path. is_slash c then rev (tl (dropWhile (\<lambda>c. \<not> is_slash c) (rev path))) else wide_of ''.'')"

definition Win_DefaultConfigPath :: "('w, 'more) win_host_scheme \<Rightarrow> 'w \<Rightarrow> string" where
  "Win_DefaultConfigPath k w =
     wi_narrow k (module_directory (wh_moduleName k w) @ [Windows_Launcher.backslash] @ wide_of ''services.conf'')"

definition Win_Notify :: "string \<Rightarrow> bool" where
  "Win_Notify state = False"

section \<open>Lemmas\<close>

text \<open>
  The console is given back as it was found: with a console whose code page reads back what was set
  last, the program ends with the original code page, however often UTF-8 output was asked for.
\<close>

lemma code_page_restored:
  assumes "\<And>cp w. wh_outputCP k (snd (wh_setOutputCP k cp w)) = cp" and "\<And>cp w. fst (wh_setOutputCP k cp w)"
  shows "wh_outputCP k (program_exit k (((Win_UseUtf8Output k) ^^ n) (new_Console, w))) = wh_outputCP k w"
proof -
  obtain c w1 where first: "Win_UseUtf8Output k (new_Console, w) = (c, w1)" by (rule prod.exhaust)
  have found: "wh_outputCP k w \<in> {0, CP_UTF8} \<and> c = new_Console \<and> w1 = w
      \<or> wh_outputCP k w \<notin> {0, CP_UTF8} \<and> co_originalCodePage c = wh_outputCP k w \<and> co_atexit c = [RestoreCodePage]"
    using first assms(2) [of CP_UTF8 w]
    by (auto simp: Win_UseUtf8Output_def new_Console_def Let_def split: if_splits prod.splits)
  then have again: "Win_UseUtf8Output k (c, w1) = (c, w1)"
    using first by (auto simp: Win_UseUtf8Output_def Let_def)
  have "((Win_UseUtf8Output k) ^^ Suc m) (new_Console, w) = (c, w1)" for m
    by (induction m) (use first again in simp_all)
  then have "((Win_UseUtf8Output k) ^^ n) (new_Console, w) \<in> {(new_Console, w), (c, w1)}"
    by (cases n) auto
  with found show ?thesis by (auto simp: program_exit_def new_Console_def assms(1))
qed

text \<open>The directory of a program in a directory.\<close>

lemma module_directory_of:
  assumes "is_slash c" and "\<forall>d \<in> set n. \<not> is_slash d"
  shows "module_directory (directory @ c # n) = directory"
proof -
  have "dropWhile (\<lambda>c. \<not> is_slash c) (rev n @ c # rev directory) = c # rev directory"
    using assms by (subst dropWhile_append2) auto
  then show ?thesis using assms(1) by (simp add: module_directory_def)
qed

text \<open>CPU use is unknown until there are two readings, as on POSIX.\<close>

lemma win_first_sample_unknown:
  "sy_cpuPercent (ss_record (fst (Win_SystemSample k w new_SystemMonitor))) = double_minus_one"
  by (auto simp: Win_SystemSample_def Let_def new_SystemMonitor_def system_cpu_percent_def
      default_SystemRecord_def split: option.splits)

text \<open>A stop request that a console event makes is seen by the next question.\<close>

lemma console_stop_seen:
  "HandleConsoleEvent k event (s, w) = (True, s', w') \<Longrightarrow> fst (Win_TakeStopRequest s')"
  by (auto simp: HandleConsoleEvent_def Win_TakeStopRequest_def split: if_splits)

section \<open>The GPU driver\<close>

definition MAX_PATH :: nat where "MAX_PATH = 260"

definition Win_OpenLibrary :: "('w, 'more) win_host_scheme \<Rightarrow> 'w \<Rightarrow> pointer option \<times> 'w" where
  "Win_OpenLibrary k w =
     (case wh_loadLibrary k (wide_of ''nvml.dll'') w of
        (Some h, w) \<Rightarrow> (Some h, w)
      | (None, w) \<Rightarrow>
          (case wi_variable k (wide_of ''ProgramFiles'') w of
             None \<Rightarrow> (None, w)
           | Some programFiles \<Rightarrow>
               if 0 < length programFiles \<and> length programFiles < MAX_PATH
               then wh_loadLibrary k (programFiles @ [Windows_Launcher.backslash] @ wide_of ''NVIDIA Corporation''
                      @ [Windows_Launcher.backslash] @ wide_of ''NVSMI'' @ [Windows_Launcher.backslash] @ wide_of ''nvml.dll'') w
               else (None, w)))"

section \<open>The manager on Windows\<close>

text \<open>
  The manager is as sound on this launcher as on the POSIX one: every job object belongs to one live
  service, and a live service has one.
\<close>

lemma windows_manager_is_sound:
  assumes "manager_reach (windows_launcher k) wx_live wm"
  shows "distinct (names (snd wm))
    \<and> list_all (\<lambda>s. (sv_child s \<noteq> None \<longleftrightarrow> IsAlive (sv_state s)) \<and> \<not> sv_fault s) (mg_services (snd wm))
    \<and> distinct (children (snd wm)) \<and> set (children (snd wm)) = wx_live (fst wm)"
  using manager_reach_inv [OF assms] wx.manager_reach_owns [OF assms]
  by (auto simp: manager_inv_def service_inv_def wx.owns_def list_all_iff)

text \<open>
  The driver is found under its own name, or in the directory of the vendor, and nowhere else: whatever
  is loaded came from one of the two calls.
\<close>

lemma driver_found_in_two_places:
  assumes "\<And>path w. fst (wh_loadLibrary k path w) \<noteq> None \<Longrightarrow> present path"
    and "Win_OpenLibrary k w = (Some h, w')"
  shows "present (wide_of ''nvml.dll'')
    \<or> (\<exists>d. d \<noteq> [] \<and> length d < MAX_PATH
         \<and> present (d @ [Windows_Launcher.backslash] @ wide_of ''NVIDIA Corporation''
              @ [Windows_Launcher.backslash] @ wide_of ''NVSMI'' @ [Windows_Launcher.backslash] @ wide_of ''nvml.dll''))"
proof (cases "wh_loadLibrary k (wide_of ''nvml.dll'') w")
  case (Pair r w1)
  show ?thesis
  proof (cases r)
    case None
    with assms(2) Pair obtain d where "d \<noteq> []" "length d < MAX_PATH"
      and "wh_loadLibrary k (d @ [Windows_Launcher.backslash] @ wide_of ''NVIDIA Corporation''
              @ [Windows_Launcher.backslash] @ wide_of ''NVSMI'' @ [Windows_Launcher.backslash] @ wide_of ''nvml.dll'') w1
            = (Some h, w')"
      by (auto simp: Win_OpenLibrary_def split: option.splits if_splits)
    with assms(1) show ?thesis by (metis fst_conv option.distinct(1))
  next
    case (Some h')
    with assms(1) Pair show ?thesis by (metis fst_conv option.distinct(1))
  qed
qed

end
