(* ===== verification/Spec2Isabelle.thy ===== *)
theory Spec2Isabelle
  imports Wire Logger Service_State Service_Config Command_Message Health_Record Detailed_Report
    Config_Text Config_Keys Config_Validate Config_Parser Process_Table Float64 Instant
    Process_Launcher Service Service_Props Service_Runs Service_Table Gpu_Monitor Service_Manager Manager_Props
    Manager_Results Manager_Runs Manager_Shutdown Shutdown_Progress Launch_Order Stop_Order Fake_Launcher Proc_Fs Cgroup_Tree Posix_Launcher
    Posix_Streams
    System_Monitor Report_Builder Gpu_Library Zmq_Socket Command_Server Manager_Client Command_Line
    Daemon Daemon_Runs Daemon_Props Status_Table Main_Program Main_Props
    Host_Services Daemon_Signals Windows_Launcher Windows_Host
begin

text \<open>
  A verification of the process manager in \<open>src/manager\<close>: a daemon that starts, supervises and stops
  services, publishes their health and takes commands, and the command line client beside it. The
  daemon is modelled in its POSIX build, the platform layer in both builds. Paths below are relative
  to \<open>src/manager\<close>.

  \<^bold>\<open>The program.\<close> The configuration file is parsed and validated (\<open>ConfigParser\<close>). A \<open>Service\<close> is the
  state machine of one program: it launches it through the launcher interface, watches heartbeats,
  restarts it with a growing delay within a budget, stops it with a signal and then kills it. The
  \<open>ServiceManager\<close> holds the services in the order of the file, starts them after their dependencies,
  executes commands, applies reloads and stops them in reverse order. The \<open>Daemon\<close> works in rounds: it
  takes stop and reload requests, serves the commands on its ZeroMQ socket, ticks the manager and
  publishes the health and the detailed report. The launcher uses \<open>fork\<close> and \<open>exec\<close>, the cgroup
  tree and \<open>/proc\<close>; the reports add figures of the host and of the GPUs.

  \<^bold>\<open>Theories, from the bottom.\<close>
  \<open>Prelude\<close>: machine types, decimal text, bytes. \<open>Wire\<close>: the reader and writer of messages, and the
  locale \<open>wire_record\<close> that every message interprets. \<open>Command_Message\<close>, \<open>Health_Record\<close>,
  \<open>Detailed_Report\<close>: the messages with their round trips. \<open>Logger\<close>, \<open>Service_State\<close>,
  \<open>Service_Config\<close>, \<open>Instant\<close>, \<open>Float64\<close>: levels, states, configuration records, moments, IEEE
  arithmetic on bit patterns. \<open>Config_Text\<close>, \<open>Config_Keys\<close>, \<open>Config_Validate\<close>, \<open>Config_Parser\<close>: the
  parser from characters up to the contract of a whole file. \<open>Process_Table\<close>, \<open>Proc_Fs\<close>,
  \<open>Cgroup_Tree\<close>, \<open>System_Monitor\<close>: what is read from and written to the kernel's file systems.
  \<open>Process_Launcher\<close>: the launcher interface as a record of functions, its ownership contract as the
  locale \<open>process_launcher\<close>. \<open>Posix_Launcher\<close> and \<open>Fake_Launcher\<close>: the two providers, with their
  interpretations; \<open>Posix_Streams\<close>: the open files a started program inherits. \<open>Service\<close>,
  \<open>Service_Props\<close>, \<open>Service_Runs\<close>, \<open>Service_Table\<close>: one service, its invariant, what happens over a
  run of calls, and its state machine as a table that each call follows. \<open>Service_Manager\<close>, \<open>Manager_Props\<close>,
  \<open>Manager_Results\<close>, \<open>Manager_Runs\<close>: the manager, its calls as sequences of service calls, the
  specification of a reload, reachable states. \<open>Launch_Order\<close>: the stages a call of the manager goes
  through and who is launched from one to the next; \<open>Stop_Order\<close>: everything that \<open>StopAll\<close> does.
  \<open>Manager_Shutdown\<close>, \<open>Shutdown_Progress\<close>: the locale
  \<open>obedient_launcher\<close> of programs that end when told to, and the end of every shutdown.
  \<open>Gpu_Monitor\<close>, \<open>Gpu_Library\<close>: the readings of NVML. \<open>Report_Builder\<close>, \<open>Zmq_Socket\<close>,
  \<open>Command_Server\<close>, \<open>Manager_Client\<close>, \<open>Command_Line\<close>: the reports, the sockets and both ends of the
  two channels, the options. \<open>Daemon\<close>, \<open>Daemon_Runs\<close>, \<open>Daemon_Props\<close>: the daemon, its rounds as
  steps, and what it guarantees. \<open>Status_Table\<close>, \<open>Main_Program\<close>, \<open>Main_Props\<close>: the table of the
  client, the program with its modes, and its exit codes. \<open>Host_Services\<close>: log lines, signals, the
  terminal, systemd, the ZeroMQ context; \<open>Daemon_Signals\<close>: a signal ends the daemon.
  \<open>Windows_Launcher\<close>, \<open>Windows_Host\<close>: \<open>src/windows\<close>, the third provider of the launcher interface
  and the rest of that layer.

  \<^bold>\<open>How the code is modelled.\<close> A class is a record and its methods are functions on it that return
  the new state; an exception-free error path is a value of an option or a sum type. What is outside
  the repository is a parameter: the operating system (\<open>os_files\<close>, \<open>os_cgroup\<close>, \<open>os_process\<close>), the
  ZeroMQ library (\<open>zmq\<close>), NVML and the dynamic loader (\<open>nvml\<close>), the clocks and signals
  (\<open>daemon_env\<close>), as records of functions over a world of any type. Integers that go on the wire or
  can wrap are words, durations and clock readings are unbounded integers (a day at most, and 64-bit
  nanoseconds). Doubles are their 64 bits. A child object is a handle into the world of the launcher,
  so that sharing and leaks are visible; the ghost field \<open>sv_fault\<close> records a call through a null
  pointer. Loops that wait for the outside (\<open>receive_loop\<close>, \<open>await_reply\<close>, \<open>await_report\<close>,
  \<open>run_rounds\<close>) are partial functions whose value \<open>None\<close> means that they never return; that they do
  return is proved from the advance of the clock. The search for dependency cycles and the start of
  dependencies carry fuel, one more than the number of services, and both are shown never to run
  out of it.

  \<^bold>\<open>What is shown.\<close> Every message survives its encoding, up to the truncation of texts at the width of
  their fields; a parsed configuration meets its contract; a service and the manager keep their
  invariants under every call, restarts stay within their budget, no stop is escalated twice; a
  reload implements its specification on the map of services and is atomic for the daemon; a shutdown
  launches nothing, stops services in order and completes; a daemon that is told to stop, by a
  request or by a signal, returns; a started program gets its three streams and no other open file;
  every command is executed and answered to its sender; the program leaves no child object behind and
  its exit code tells the outcome; the child object of a service sends no signal once the exit is
  known; the parsers of \<open>/proc\<close> and of the command line read back what was printed, and a Windows
  program the arguments it was given; the lines of the status table are aligned.

  \<^bold>\<open>Not modelled.\<close> The log lines that the services, the manager and the daemon write on their way
  (the logger itself is modelled); the daemon of the Windows build, which differs from the modelled one
  only in the launcher and the host figures it is given; the graphical client, which is a Python
  program, the documentation and the tests other than the fake launcher.
\<close>

section \<open>One service\<close>

text \<open>
  C14: a service that any calls have reached has a child process exactly in the states Starting,
  Running, Unhealthy and Stopping, a start is pending only while it is stopping, and no call ever
  went through a null child pointer.
\<close>

theorem service_invariant:
  assumes "service_reach L t s"
  shows "(sv_child s \<noteq> None \<longleftrightarrow> IsAlive (sv_state s))
    \<and> (sv_pendingStart s \<or> sv_restartAfterStop s \<longrightarrow> sv_state s = Stopping)
    \<and> \<not> (sv_pendingStart s \<and> sv_restartAfterStop s) \<and> \<not> sv_fault s"
  using reach_inv [OF assms] by (simp add: service_inv_def)

theorem service_invariant_witness:
  "\<not> sv_fault (snd (perform fake_launcher (instant 5) (Do_Start True)
     (new_FakeLauncher, new_Service (MakeService ''a'') [])))"
  using service_invariant [OF service_reach.call [OF service_reach.new, of 0 "instant 5" fake_launcher
      "Do_Start True" new_FakeLauncher "MakeService ''a''" "[]"]]
  by (simp add: instant_def ns_of_ms_def)

text \<open>
  C15: every call on a service follows the state machine: the state it leads to is one that the table
  allows for this call, the state and the pending requests of the service, its configuration, the
  readiness of its dependencies and the exit the call finds. A call that may not launch a program
  never brings the service to Starting.
\<close>

theorem service_state_machine:
  assumes "service_reach L t s"
  shows "sv_state (snd (perform L now op (w, s))) \<in> next_states op s (exit_seen L w s)
    \<and> (\<not> may_launch op \<and> sv_state s \<noteq> Starting
         \<longrightarrow> sv_state (snd (perform L now op (w, s))) \<noteq> Starting)"
proof -
  have path: "svc_path (may_launch op) (sv_state s) (sv_state (snd (perform L now op (w, s))))"
    by (rule path_perform [OF reach_inv [OF assms]])
  then show ?thesis
    using perform_next [OF reach_inv [OF assms], of L now op w] no_launch_no_Starting
    by (cases "may_launch op") auto
qed

text \<open>A program that dies with code 1, of a service that is never restarted.\<close>

definition dying_launcher :: "FakeLauncher launcher" where
  "dying_launcher = fake_launcher\<lparr>l_Poll := \<lambda>h w. (Some \<lparr>ex_code = 1, ex_signal = 0\<rparr>, w)\<rparr>"

definition started_once :: "FakeLauncher \<times> Service" where
  "started_once = perform dying_launcher (instant 5) (Do_Start True)
     (new_FakeLauncher, new_Service ((MakeService ''a'')\<lparr>sc_restart := Never\<rparr>) [])"

theorem service_state_machine_witness:
  "sv_state (snd (perform dying_launcher (instant 6) (Do_Tick True True) (new_FakeLauncher, snd started_once))) = Failed
   \<and> sv_state (snd (perform dying_launcher (instant 6) (Do_Start True) (new_FakeLauncher, snd started_once))) = Starting
   \<and> sv_state (snd (perform dying_launcher (instant 6) (Do_Restart True) (new_FakeLauncher, snd started_once))) = Stopping"
proof -
  have "service_reach dying_launcher (in_steady (instant 5)) (snd started_once)"
    unfolding started_once_def by (rule service_reach.call [OF service_reach.new [of _ 0]]) (simp add: instant_def ns_of_ms_def)
  note next_state = service_state_machine [OF this, THEN conjunct1, of "instant 6" _ new_FakeLauncher]
  have "sv_state (snd started_once) = Starting" "sc_restart (sv_config (snd started_once)) = Never"
    "sv_child (snd started_once) = Some 0" by code_simp+
  then show ?thesis
    using next_state [of "Do_Tick True True"] next_state [of "Do_Start True"] next_state [of "Do_Restart True"]
    by (simp add: exit_seen_def dying_launcher_def exit_states_def policy_states_def round_states_def
        start_states_def ExitedCleanly_def)
qed

text \<open>
  C30: a restart is granted while fewer than \<open>max_restarts\<close> restarts lie within the restart window,
  or always when \<open>max_restarts\<close> is zero; the delay doubles with each of them up to the maximum.
  Otherwise the service fails.
\<close>

theorem restart_budget:
  assumes "service_reach L t s" and "0 \<le> sc_restartDelay (sv_config s)"
  shows "(let n = length (recent now s); c = sv_config s; s' = ScheduleRestart now s
    in if sc_maxRestarts c > 0 \<and> sc_maxRestarts c \<le> int n then sv_state s' = Failed
       else sv_state s' = Backoff \<and> sv_restartHistory s' = recent now s @ [in_steady now]
         \<and> sv_restartAt s' = in_steady now
             + ns_of_ms (min (sc_restartDelay c * 2 ^ n) (sc_restartDelayMax c)))"
  using ScheduleRestart_budget [OF reach_history [OF assms(1)], of now] BackoffDelay_min [OF assms(2)]
  by (simp add: Let_def)

theorem restart_budget_witness:
  "sv_state (ScheduleRestart (instant 5) (new_Service (MakeService ''a'') [])) = Backoff"
proof -
  have "0 \<le> sc_restartDelay (sv_config (new_Service (MakeService ''a'') []))" by code_simp
  from restart_budget [OF service_reach.new [of fake_launcher 0] this, of "instant 5"]
  show ?thesis
    by (simp add: recent_def new_Service_def MakeService_def default_ServiceConfig_def Let_def)
qed



text \<open>
  C32: a running or starting service with a heartbeat that has been silent for fewer than
  \<open>heartbeat_tolerance\<close> whole intervals stays in its state; one silent for longer becomes
  Unhealthy or, when the configuration says so, is stopped and will be restarted.
\<close>

theorem heartbeat_tolerance:
  assumes "sv_state s = Running \<or> sv_state s = Starting" and "sv_child s = Some h"
    and "l_Poll L h w = (None, w')" and "0 < sc_heartbeatInterval (sv_config s)"
    and "sv_lastBeat s \<le> in_steady now"
    and "beats = (in_steady now - sv_lastBeat s) div 1000000 div sc_heartbeatInterval (sv_config s)"
    and "beats < 2 ^ 31"
  shows "let s' = snd (Service_Tick L now allowed ready (w, s))
    in sv_missedBeats s' = beats
      \<and> sv_state s' = (if beats < sc_heartbeatTolerance (sv_config s) then sv_state s
          else if sc_unhealthyAction (sv_config s) = UA_Restart then Stopping else Unhealthy)
      \<and> sv_restartAfterStop s' = (if beats < sc_heartbeatTolerance (sv_config s) then sv_restartAfterStop s
          else sc_unhealthyAction (sv_config s) = UA_Restart \<or> sv_restartAfterStop s)"
proof -
  have m: "missed_beats now s = beats" using missed_beats_div [of s now] assms by simp
  have e: "HeartbeatEnabled s" using assms(4) by (simp add: HeartbeatEnabled_def)
  have "Service_Tick L now allowed ready (w, s) = CheckHeartbeat L now (w', s)"
    using assms(1-3) e by (auto simp: Service_Tick_def poll_child_def tick_state_def Let_def)
  with assms(1) m show ?thesis by (auto simp: CheckHeartbeat_def Let_def)
qed

theorem heartbeat_tolerance_witness:
  "sv_state (snd (Service_Tick (fake_launcher\<lparr>l_Poll := \<lambda>h w. (None, w)\<rparr>) (instant 3500) True True
     (new_FakeLauncher, (new_Service ((MakeService ''a'')\<lparr>sc_heartbeatInterval := 1000,
         sc_heartbeatTolerance := 3\<rparr>) [])\<lparr>sv_state := Running, sv_child := Some 0\<rparr>))) = Unhealthy"
  using heartbeat_tolerance [of "(new_Service ((MakeService ''a'')\<lparr>sc_heartbeatInterval := 1000,
         sc_heartbeatTolerance := 3\<rparr>) [])\<lparr>sv_state := Running, sv_child := Some 0\<rparr>" 0
      "fake_launcher\<lparr>l_Poll := \<lambda>h w. (None, w)\<rparr>" new_FakeLauncher new_FakeLauncher "instant 3500" 3 True True]
  by (simp add: new_Service_def instant_def ns_of_ms_def Let_def MakeService_def default_ServiceConfig_def)

text \<open>
  The exit code on the wire decides what the exit meant: it is zero exactly for a clean exit, and
  the client describes it from the wire as the manager describes the exit status itself, for
  every signal a process can die of.
\<close>

theorem exit_code_on_the_wire:
  assumes "0 \<le> ex_signal status" and "ex_signal status \<le> max_signal_number"
    and "ex_signal status = 0 \<longrightarrow> 0 \<le> ex_code status"
  shows "(ExitedCleanly status \<longleftrightarrow> WireExitCode status = 0)
    \<and> DescribeExit (WireExitCode status) True = DescribeExitStatus status"
  using ExitedCleanly_wire DescribeExitStatus_wire [OF assms] by simp

theorem exit_code_on_the_wire_witness:
  "DescribeExit (WireExitCode \<lparr>ex_code = 0, ex_signal = 9\<rparr>) True
   = DescribeExitStatus \<lparr>ex_code = 0, ex_signal = 9\<rparr>"
  using exit_code_on_the_wire [of "\<lparr>ex_code = 0, ex_signal = 9\<rparr>"] by (simp add: max_signal_number_def)

section \<open>The manager\<close>

text \<open>
  C16: a reload implements its specification on the map from names to configuration and removal mark:
  listed services have the new configuration and no mark, the others keep theirs and are marked;
  the summary counts what was added and changed.
\<close>

theorem reload_refines_specification:
  fixes wm :: "'w \<times> Manager"
  assumes "distinct (map sc_name configs)" and "Manager_Apply L configs now wm = (summary, wm')"
  shows "lookup (snd wm') = reloaded configs (lookup (snd wm))
    \<and> rs_added summary = (\<Sum>c\<leftarrow>configs. count_of (counts_added (lookup (snd wm)) c))
    \<and> rs_changed summary = (\<Sum>c\<leftarrow>configs. count_of (counts_changed (lookup (snd wm)) c))"
  using Apply_refines [OF assms] by blast

theorem reload_refines_specification_witness:
  "rs_added (fst (Manager_Apply fake_launcher [MakeService ''a''] (instant 1)
     (new_FakeLauncher, Manager_Load [MakeService ''b''] (new_Manager [])))) = 1"
proof -
  let ?run = "Manager_Apply fake_launcher [MakeService ''a''] (instant 1)
    (new_FakeLauncher, Manager_Load [MakeService ''b''] (new_Manager []))"
  have "lookup (Manager_Load [MakeService ''b''] (new_Manager [])) ''a'' = None"
    by (simp add: lookup_def setups_def Manager_Load_def new_Service_def MakeService_def)
  then show ?thesis
    using reload_refines_specification [of "[MakeService ''a'']" fake_launcher "instant 1"
        "(new_FakeLauncher, Manager_Load [MakeService ''b''] (new_Manager []))" "fst ?run" "snd ?run"]
    by (simp add: counts_added_def count_of_def MakeService_def)
qed

text \<open>
  C1: in every state the manager reaches with the POSIX launcher, whatever the daemon calls and
  whatever the operating system does, names are unique, no null child was ever called, each
  service owns a child object exactly while it is alive, no two own the same one, and there is no
  child object that no service owns.
\<close>

theorem manager_is_sound:
  assumes "manager_reach (posix_launcher os cgroups) px_live wm"
  shows "distinct (names (snd wm))
    \<and> list_all (\<lambda>s. (sv_child s \<noteq> None \<longleftrightarrow> IsAlive (sv_state s)) \<and> \<not> sv_fault s) (mg_services (snd wm))
    \<and> distinct (children (snd wm)) \<and> set (children (snd wm)) = px_live (fst wm)"
  using manager_reach_inv [OF assms] px.manager_reach_owns [OF assms]
  by (auto simp: manager_inv_def service_inv_def px.owns_def list_all_iff)

definition posix_start :: "(int \<times> int) list posix \<times> Manager" where
  "posix_start = (\<lparr>px_os = [], px_children = []\<rparr>, Manager_Load [MakeService ''a''] (new_Manager []))"

lemma posix_start_reached: "manager_reach (posix_launcher sample_process_os None) px_live posix_start"
  unfolding posix_start_def by (rule manager_reach.load) (simp_all add: px_live_def px_child_def)

theorem manager_is_sound_witness:
  "distinct (children (snd (run_op (posix_launcher sample_process_os None) (instant 1) Op_StartAutostart
     posix_start)))"
proof -
  have "op_allowed Op_StartAutostart (snd posix_start)"
    by (simp add: op_allowed_def posix_start_def Manager_Load_def new_Manager_def)
  from manager_is_sound [OF manager_reach.call [OF posix_start_reached this]] show ?thesis by blast
qed

text \<open>
  C3: from the moment the manager is shutting down no call it makes creates a process, and the
  shutdown is never called off.
\<close>

theorem shutdown_creates_no_process:
  assumes "manager_reach (posix_launcher os cgroups) px_live wm" and "mg_shuttingDown (snd wm)"
    and "op_allowed op (snd wm)"
  shows "px_live (fst (run_op (posix_launcher os cgroups) now op wm)) \<subseteq> px_live (fst wm)
    \<and> mg_shuttingDown (snd (run_op (posix_launcher os cgroups) now op wm))"
  by (rule px.shutdown_launches_nothing [OF assms])

lemma stopped_start:
  "manager_reach (posix_launcher sample_process_os None) px_live
     (run_op (posix_launcher sample_process_os None) (instant 1) Op_StopAll posix_start)"
  by (rule manager_reach.call [OF posix_start_reached]) (simp add: op_allowed_def)

theorem shutdown_creates_no_process_witness:
  "mg_shuttingDown (snd (run_op (posix_launcher sample_process_os None) (instant 2) Op_Tick
     (run_op (posix_launcher sample_process_os None) (instant 1) Op_StopAll posix_start)))"
proof -
  have "mg_shuttingDown (snd (run_op (posix_launcher sample_process_os None) (instant 1) Op_StopAll posix_start))"
    by (simp add: posix_start_def Manager_Load_def new_Manager_def StopAll_def stop_one_def new_Service_def)
  from shutdown_creates_no_process [OF stopped_start this, of Op_Tick] show ?thesis
    by (simp add: op_allowed_def)
qed

text \<open>
  C2: no service is launched before its dependencies run, nor during a shutdown. A call of the manager
  passes through stages, the states between the turns of its loops over the services, from the state
  it is made in to the one it leaves. When a service has a child object in one stage that did not
  exist in the stage before, then every dependency of that service was a service in the state Running
  in the stage before, and the manager was not shutting down.
\<close>

theorem launch_waits_for_dependencies:
  assumes "manager_reach (posix_launcher os cgroups) px_live wm" and "op_allowed op (snd wm)"
  shows "hd (stages (posix_launcher os cgroups) now op wm) = wm
    \<and> last (stages (posix_launcher os cgroups) now op wm) = run_op (posix_launcher os cgroups) now op wm
    \<and> successively (\<lambda>before after. \<forall>s. launched px_live before after s \<longrightarrow>
          \<not> mg_shuttingDown (snd before)
          \<and> (\<forall>d \<in> set (sc_dependsOn (sv_config s)). \<exists>t \<in> set (mg_services (snd before)).
               Service_Name t = d \<and> sv_state t = Running))
        (stages (posix_launcher os cgroups) now op wm)"
proof (intro conjI)
  note guarded = px.stages_guarded [OF assms, of now]
  then show "hd (stages (posix_launcher os cgroups) now op wm) = wm"
    and "last (stages (posix_launcher os cgroups) now op wm) = run_op (posix_launcher os cgroups) now op wm"
    by blast+
  from guarded have "successively (guarded px_live) (stages (posix_launcher os cgroups) now op wm)" by blast
  then show "successively (\<lambda>before after. \<forall>s. launched px_live before after s \<longrightarrow>
          \<not> mg_shuttingDown (snd before)
          \<and> (\<forall>d \<in> set (sc_dependsOn (sv_config s)). \<exists>t \<in> set (mg_services (snd before)).
               Service_Name t = d \<and> sv_state t = Running))
        (stages (posix_launcher os cgroups) now op wm)"
    by (rule successively_mono) (use DependenciesRunning_met in \<open>auto simp: guarded_def\<close>)
qed

text \<open>A system where every program can be started and none exits, and a service that needs another.\<close>

definition working_os :: "(int \<times> int) list os_process" where
  "working_os = sample_process_os
     \<lparr>of_stat := \<lambda>path w. Some RegularFile, of_executable := \<lambda>path w. True, of_open := \<lambda>path mode w. (Inr 3, w),
      of_pipe := \<lambda>w. (Inr (4, 5), w), of_fork := \<lambda>w. (Inr 42, w), of_execve := \<lambda>path argv envp w. (0, w),
      of_waitid := \<lambda>pid w. (Inr False, w)\<rparr>"

definition dependent_pair :: "ServiceConfig list" where
  "dependent_pair = [MakeService ''a'', (MakeService ''b'')\<lparr>sc_dependsOn := [''a'']\<rparr>]"

definition pair_start :: "(int \<times> int) list posix \<times> Manager" where
  "pair_start = (\<lparr>px_os = [], px_children = []\<rparr>, Manager_Load dependent_pair (new_Manager []))"

theorem launch_waits_for_dependencies_witness:
  "let after = run_op (posix_launcher working_os None) (instant 1) Op_StartAutostart pair_start
   in map sv_child (mg_services (snd after)) = [Some 0, None]
    \<and> launched px_live pair_start after (mg_services (snd after) ! 0)
    \<and> (\<forall>s. launched px_live pair_start after s \<longrightarrow> sc_dependsOn (sv_config s) = [])"
proof -
  let ?after = "run_op (posix_launcher working_os None) (instant 1) Op_StartAutostart pair_start"
  have reach: "manager_reach (posix_launcher working_os None) px_live pair_start"
    unfolding pair_start_def
    by (rule manager_reach.load) (simp_all add: px_live_def px_child_def dependent_pair_def MakeService_def)
  have "op_allowed Op_StartAutostart (snd pair_start)"
    by (simp add: op_allowed_def pair_start_def Manager_Load_def new_Manager_def)
  note guard = launch_waits_for_dependencies [OF reach this, of "instant 1", THEN conjunct2, THEN conjunct2, simplified]
  have children: "map sv_child (mg_services (snd ?after)) = [Some 0, None]" by code_simp
  have "list_all (\<lambda>t. sv_state t \<noteq> Running) (mg_services (snd pair_start))" by code_simp
  then have "sc_dependsOn (sv_config s) = []" if "launched px_live pair_start ?after s" for s
    using guard that by (cases "sc_dependsOn (sv_config s)") (auto simp: list_all_iff)
  moreover have "launched px_live pair_start ?after (mg_services (snd ?after) ! 0)"
    using children by (auto simp: launched_def pair_start_def px_live_def px_child_def)
  ultimately show ?thesis using children by (simp add: Let_def)
qed

text \<open>
  C20: starting a service with its dependencies terminates, whatever the dependencies are, cycles and
  missing ones included: one unit of fuel more than there are services is enough, and all it does is
  guarded starts of services.
\<close>

theorem starting_dependencies_terminates:
  assumes "\<not> mg_shuttingDown (snd wm)"
  shows "\<exists>wm' visiting' started'.
    start_dependencies (Suc (length (mg_services (snd wm)))) L now ns wm visiting started
      = Some (wm', visiting', started')
    \<and> csteps L now start_call wm wm' \<and> csteps L now plain_call wm wm' \<and> set visiting \<subseteq> set visiting'"
proof -
  have "unvisited_names (snd wm) visiting < Suc (length (mg_services (snd wm)))"
    using unvisited_names_bound [of "snd wm" visiting] by simp
  from start_dependencies_spec [OF assms this] show ?thesis using csteps_started by blast
qed

theorem starting_dependencies_terminates_witness:
  "start_dependencies 3 fake_launcher (instant 1) [''a''] (new_FakeLauncher,
     Manager_Load [(MakeService ''a'')\<lparr>sc_dependsOn := [''b'']\<rparr>, (MakeService ''b'')\<lparr>sc_dependsOn := [''a'']\<rparr>]
       (new_Manager [])) [''b''] [] \<noteq> None"
proof -
  let ?m = "Manager_Load [(MakeService ''a'')\<lparr>sc_dependsOn := [''b'']\<rparr>,
    (MakeService ''b'')\<lparr>sc_dependsOn := [''a'']\<rparr>] (new_Manager [])"
  have "Suc (length (mg_services ?m)) = 3" "\<not> mg_shuttingDown ?m"
    by (simp_all add: Manager_Load_def new_Manager_def)
  then show ?thesis
    using starting_dependencies_terminates [of "(new_FakeLauncher, ?m)" fake_launcher "instant 1"
        "[''a'']" "[''b'']" "[]"] by auto
qed

text \<open>
  A command that is refused changes nothing and says why: an unknown command, a reload, any
  command but a heartbeat during shutdown, a heartbeat for all services, a service that does not
  exist or is being removed. Every reply echoes the command and the name.
\<close>

theorem refused_commands:
  fixes wm :: "'w \<times> Manager"
  assumes "Execute L msg now wm = (reply, wm')" and "code = CommandCodeFromByte (cm_command msg)"
    and "i = FindMutable (snd wm) (cm_serviceName msg)"
  shows "cr_command reply = cm_command msg \<and> cr_serviceName reply = cm_serviceName msg
    \<and> (code = None \<or> code = Some CC_Reload \<longrightarrow> cr_result reply = CR_UnknownCommand \<and> wm' = wm)
    \<and> (mg_shuttingDown (snd wm) \<and> code \<in> {Some CC_Start, Some CC_Stop, Some CC_Restart}
      \<longrightarrow> cr_result reply = CR_ShuttingDown \<and> wm' = wm)
    \<and> (code = Some CC_Heartbeat \<and> cm_serviceName msg = all_services
      \<longrightarrow> cr_result reply = CR_Malformed \<and> wm' = wm)
    \<and> (code \<noteq> None \<and> code \<noteq> Some CC_Reload \<and> (\<not> mg_shuttingDown (snd wm) \<or> code = Some CC_Heartbeat)
        \<and> cm_serviceName msg \<noteq> all_services \<and> (i = None \<or> sv_removing (mg_services (snd wm) ! the i))
      \<longrightarrow> cr_result reply = CR_UnknownService \<and> wm' = wm)"
  using assms by (intro conjI impI) (auto simp: Execute_def Let_def split: option.splits if_splits prod.splits)

theorem refused_commands_witness:
  "cr_result (fst (Execute fake_launcher \<lparr>cm_command = 99, cm_serviceName = ''a'', cm_args = []\<rparr>
     (instant 1) (new_FakeLauncher, new_Manager []))) = CR_UnknownCommand"
proof -
  let ?run = "Execute fake_launcher \<lparr>cm_command = 99, cm_serviceName = ''a'', cm_args = []\<rparr>
    (instant 1) (new_FakeLauncher, new_Manager [])"
  have "CommandCodeFromByte 99 = None" by code_simp
  with refused_commands [of fake_launcher _ "instant 1" "(new_FakeLauncher, new_Manager [])" "fst ?run" "snd ?run"]
  show ?thesis by simp
qed

text \<open>
  A tick drops from the list exactly the services that are being removed and have no process any
  more; their names are added to the list for the daemon, which the next \<open>TakeRemoved\<close> hands
  out and empties. No other service is lost.
\<close>

theorem removed_services_are_reported:
  "\<exists>gone. mg_removed (snd (Manager_Tick L now wm)) = mg_removed (snd wm) @ gone
    \<and> mset (names (snd (Manager_Tick L now wm))) + mset gone = mset (names (snd wm))
    \<and> set gone \<subseteq> (\<lambda>s. Service_Name s) ` {s \<in> set (mg_services (snd wm)). sv_removing s}
    \<and> filter finished_removal (mg_services (snd (Manager_Tick L now wm))) = []
    \<and> TakeRemoved (snd (Manager_Tick L now wm))
        = (mg_removed (snd wm) @ gone, (snd (Manager_Tick L now wm))\<lparr>mg_removed := []\<rparr>)"
proof -
  let ?ks = "[0..<length (mg_services (snd wm))]"
  define v where "v = fold (settle_one L now) ?ks (fold (tick_one L now) ?ks wm)"
  let ?gone = "map (\<lambda>s. Service_Name s) (filter finished_removal (mg_services (snd v)))"
  have tick: "snd (Manager_Tick L now wm) = remove_finished (snd v)"
    by (simp add: Manager_Tick_def Let_def v_def)
  have steps: "csteps L now orderly_call wm v" unfolding v_def by (rule tick_loops_steps)
  have sh: "shape (snd v) = shape (snd wm)" by (rule csteps_shape [OF csteps_orderly [OF steps]])
  have "setups (snd v) = setups (snd wm)" by (rule plain_setups [OF csteps_mono [OF steps orderly_plain]])
  then have "(\<lambda>s. Service_Name s) ` {s \<in> set (mg_services (snd v)). sv_removing s}
      = (\<lambda>s. Service_Name s) ` {s \<in> set (mg_services (snd wm)). sv_removing s}"
    by (rule marked_names)
  then have sub: "set ?gone \<subseteq> (\<lambda>s. Service_Name s) ` {s \<in> set (mg_services (snd wm)). sv_removing s}"
    by (auto simp: finished_removal_def)
  have "mset (names (remove_finished (snd v))) + mset ?gone = mset (names (snd v))"
    and "mg_removed (remove_finished (snd v)) = mg_removed (snd v) @ ?gone"
    and "filter finished_removal (mg_services (remove_finished (snd v))) = []"
    by (rule remove_finished_split)+
  with sub sh show ?thesis
    unfolding tick by (intro exI [of _ ?gone]) (auto simp: TakeRemoved_def shape_def)
qed

section \<open>Shutdown\<close>

text \<open>
  C5: a shutdown stops the services in the reverse order of their dependencies. It sends the stop
  signal to exactly the services that are up and that no living service depends on, once each and in
  the order of the list, and the world changes in no other way. Each of them is then stopping, with
  the deadline of its configuration, the grace period after it, and no start or restart pending; a
  service that waits, backs off or has failed, and is not depended on, is stopped; every other
  service keeps its record, and the rest of the manager is as it was, except that it is shutting down.
\<close>

theorem stop_all_in_order:
  assumes "manager_reach L live wm"
  shows "StopAll L now wm =
    (fold (stop_request L) (filter (asked_to_stop (snd wm)) (mg_services (snd wm))) (fst wm),
     (snd wm)\<lparr>mg_shuttingDown := True, mg_services := map (stopped_record (snd wm) now) (mg_services (snd wm))\<rparr>)"
proof -
  have "\<forall>s \<in> set (mg_services (snd wm)). service_inv s"
    using manager_reach_inv [OF assms] by (simp add: manager_inv_def list_all_iff)
  from StopAll_exact [OF this, of L now "fst wm"] show ?thesis by simp
qed

text \<open>A manager whose second service needs the first; both have been launched.\<close>

definition pair_up :: "FakeLauncher \<times> Manager" where
  "pair_up = run_op fake_launcher (instant 3) Op_Tick
     (run_op fake_launcher (instant 2) (Op_Execute \<lparr>cm_command = CommandCode_byte CC_Heartbeat, cm_serviceName = ''a'', cm_args = []\<rparr>)
       (run_op fake_launcher (instant 1) Op_StartAutostart
         (new_FakeLauncher, Manager_Load dependent_pair (new_Manager []))))"

theorem stop_all_in_order_witness:
  "map (\<lambda>s. sv_state s) (mg_services (snd pair_up)) = [Running, Starting]
   \<and> map (\<lambda>s. sv_state s) (mg_services (snd (StopAll fake_launcher (instant 4) pair_up))) = [Running, Stopping]
   \<and> map fp_stopRequested (fl_processes (fst (StopAll fake_launcher (instant 4) pair_up))) = [False, True]"
proof -
  have "manager_reach fake_launcher fake_live (new_FakeLauncher, Manager_Load dependent_pair (new_Manager []))"
    by (rule manager_reach.load) (simp_all add: fake_live_def new_FakeLauncher_def dependent_pair_def MakeService_def)
  then have reach: "manager_reach fake_launcher fake_live pair_up"
    unfolding pair_up_def
    by (intro manager_reach.call) (simp_all add: op_allowed_def Manager_Load_def new_Manager_def)
  show ?thesis
    unfolding stop_all_in_order [OF reach, of "instant 4"]
    by (intro conjI) code_simp+
qed

text \<open>
  C4: a shutdown ends. Whatever the manager was asked before, when the processes exit on request and
  the dependencies have no cycle, no service has a process any more after at most two ticks per
  service.
\<close>

theorem shutdown_completes:
  assumes "obedient_launcher L live gone willing" and "live w = {}" and "willing w"
    and "distinct (map sc_name configs)"
    and "manager_calls L (w, Manager_Load configs (new_Manager env)) wm"
    and "acyclic (manager_depends (snd wm))"
    and "2 * length (mg_services (snd wm)) \<le> length nows"
  shows "AllStopped (snd (fold (Manager_Tick L) nows (StopAll L now wm)))"
proof -
  from assms(1) have "obedient_launcher.obliging live gone willing wm"
    using obedient_launcher.obliging_calls [OF assms(1,5)] obedient_launcher.obliging_Load [OF assms(1-4)] by blast
  then show ?thesis using obedient_launcher.shutdown_ends [OF assms(1) _ assms(6,7)] by blast
qed

theorem shutdown_completes_witness:
  "AllStopped (snd (fold (Manager_Tick fake_launcher) [instant 2, instant 3] (StopAll fake_launcher (instant 2)
     (StartAutostart fake_launcher (instant 1)
       (new_FakeLauncher, Manager_Load [MakeService ''a''] (new_Manager []))))))"
proof -
  let ?start = "(new_FakeLauncher, Manager_Load [MakeService ''a''] (new_Manager []))"
  let ?wm = "StartAutostart fake_launcher (instant 1) ?start"
  have run: "manager_calls fake_launcher ?start ?wm"
    using manager_calls.call [OF manager_calls.start, of Op_StartAutostart ?start fake_launcher "instant 1"]
    by (simp add: op_allowed_def Manager_Load_def new_Manager_def)
  have steps: "csteps fake_launcher (instant 1) plain_call ?start ?wm"
    by (rule StartAutostart_steps) (simp add: Manager_Load_def new_Manager_def)
  have "manager_depends (snd ?start) = {}"
    by (simp add: manager_depends_def depends_names_def Manager_Load_def new_Service_def MakeService_def
        default_ServiceConfig_def)
  then have "manager_depends (snd ?wm) = {}"
    using manager_depends_setups [OF plain_setups [OF steps]] by simp
  then have "acyclic (manager_depends (snd ?wm))" by (simp add: acyclic_def)
  moreover have "length (mg_services (snd ?wm)) = 1"
    using shape_length [OF plain_shape [OF steps]] by (simp add: Manager_Load_def)
  ultimately show ?thesis
    by (intro shutdown_completes [OF fake.obedient_launcher_axioms _ _ _ run])
      (simp_all add: fake_live_def fake_willing_def new_FakeLauncher_def)
qed

end
